(* ===== verification/Prelude.thy ===== *)
theory Prelude
  imports Main "HOL-Library.Word" "HOL-Library.Monad_Syntax"
begin

text \<open>
  Shared vocabulary of the development.

  \<^item> Machine words: \<open>usize\<close> and \<open>u64\<close> are \<open>64 word\<close>; the kernel is built with
    \<^verbatim>\<open>--release\<close> (\<^verbatim>\<open>xtask/src/kernel.rs\<close>), so arithmetic wraps and the amount of a
    shift is taken modulo the word length.
  \<^item> Panics: a computation that may fail an \<^verbatim>\<open>assert!\<close>, reach a \<^verbatim>\<open>panic!\<close>, index
    an array out of range or dereference a null reference is an \<open>option\<close>, with \<open>None\<close> for
    the panic.  Expected errors (\<^verbatim>\<open>exception_t\<close>) are ordinary values.
  \<^item> The macros of \<^verbatim>\<open>rel4-utils/src/macros.rs\<close>.
  \<^item> Doubly linked lists threaded through a heap: the notion, its update lemmas, and the
    interface \<open>link_heap\<close> that the mapping database, the ready queues and the endpoint queues
    all provide.
\<close>

unbundle bit_operations_syntax

type_synonym word64 = "64 word"
type_synonym ptr = "64 word"

named_theorems queue_simps "operations on queue records"
named_theorems heap_simps "field updates of the object heaps"

section \<open>Panics\<close>

definition kassert :: "bool \<Rightarrow> unit option" where
  "kassert b = (if b then Some () else None)"

definition convert_to_mut_type_ref :: "word64 \<Rightarrow> ptr option" where
  "convert_to_mut_type_ref addr = do { kassert (addr \<noteq> 0); Some addr }"

definition index_checked :: "'a list \<Rightarrow> word64 \<Rightarrow> 'a option" where
  "index_checked xs i = (if unat i < length xs then Some (xs ! unat i) else None)"

definition update_checked :: "'a list \<Rightarrow> word64 \<Rightarrow> 'a \<Rightarrow> 'a list option" where
  "update_checked xs i v = (if unat i < length xs then Some (xs[unat i := v]) else None)"

lemma kassert_simps [simp]:
  "kassert True = Some ()" "kassert False = None"
  "(kassert b = Some u) = b" "(kassert b = None) = (\<not> b)"
  by (simp_all add: kassert_def)

lemma kassert_bind [simp]: "(kassert b \<bind> f = Some y) = (b \<and> f () = Some y)"
  by (simp add: kassert_def)

lemma kassert_bind_True: "b \<Longrightarrow> kassert b \<bind> f = f ()"
  by simp

lemma mut_ref_simps [simp]:
  "convert_to_mut_type_ref 0 = None"
  "p \<noteq> 0 \<Longrightarrow> convert_to_mut_type_ref p = Some p"
  "(convert_to_mut_type_ref p = Some q) = (q = p \<and> p \<noteq> 0)"
  by (auto simp: convert_to_mut_type_ref_def kassert_def)

lemma index_checked_Some [simp]:
  "unat i < length xs \<Longrightarrow> index_checked xs i = Some (xs ! unat i)"
  by (simp add: index_checked_def)

lemma update_checked_Some [simp]:
  "unat i < length xs \<Longrightarrow> update_checked xs i v = Some (xs[unat i := v])"
  by (simp add: update_checked_def)

section \<open>The macros of rel4-utils\<close>

definition bit_mac :: "word64 \<Rightarrow> word64" where
  "bit_mac e = push_bit (unat e mod 64) 1"

definition mask_bits :: "word64 \<Rightarrow> word64" where
  "mask_bits e = push_bit (unat e mod 64) 1 - 1"

definition is_aligned :: "word64 \<Rightarrow> word64 \<Rightarrow> bool" where
  "is_aligned n b \<longleftrightarrow> n AND mask_bits b = 0"

definition shr :: "word64 \<Rightarrow> word64 \<Rightarrow> word64" where
  "shr n b = drop_bit (unat b mod 64) n"

definition shl :: "word64 \<Rightarrow> word64 \<Rightarrow> word64" where
  "shl n b = push_bit (unat b mod 64) n"

definition round_down :: "word64 \<Rightarrow> word64 \<Rightarrow> word64" where
  "round_down n b = shl (shr n b) b"

definition round_up :: "word64 \<Rightarrow> word64 \<Rightarrow> word64" where
  "round_up n b = shl (shr (n - 1) b + 1) b"

lemma mask_bits_eq_mask: "unat e < 64 \<Longrightarrow> mask_bits e = mask (unat e)"
  by (simp add: mask_bits_def mask_eq_exp_minus_1)

lemma bit_mask_bits: "unat e < 64 \<Longrightarrow> bit (mask_bits e) i \<longleftrightarrow> i < unat e"
  by (auto simp: mask_bits_eq_mask bit_mask_iff)

lemma unat_bit_mac: "unat e < 64 \<Longrightarrow> unat (bit_mac e) = 2 ^ unat e"
  by (simp add: bit_mac_def unsigned_push_bit_eq take_bit_push_bit del: push_bit_of_1)

lemma unat_mask_bits: "unat e < 64 \<Longrightarrow> unat (mask_bits e) = 2 ^ unat e - 1"
  using unat_bit_mac [of e] by (simp add: mask_bits_def bit_mac_def unat_sub_if_size)

lemma and_mask_bits: "unat e < 64 \<Longrightarrow> x AND mask_bits e = take_bit (unat e) x"
  by (simp add: mask_bits_eq_mask take_bit_eq_mask)

section \<open>Doubly linked lists in a heap\<close>

text \<open>
  The kernel threads its queues and its mapping database through the objects themselves:
  \<open>nx p\<close> and \<open>pv p\<close> are the successor and predecessor fields of the object at address
  \<open>p\<close>, and address \<open>0\<close> is the null reference.  \<open>dlseg nx pv p xs q\<close> says that the
  objects \<open>xs\<close> are linked in this order, entered from \<open>p\<close> and left towards \<open>q\<close>.
\<close>

fun first_of :: "ptr list \<Rightarrow> ptr \<Rightarrow> ptr" where
  "first_of [] q = q"
| "first_of (x # xs) q = x"

fun last_of :: "ptr \<Rightarrow> ptr list \<Rightarrow> ptr" where
  "last_of p [] = p"
| "last_of p (x # xs) = last_of x xs"

fun dlseg :: "(ptr \<Rightarrow> ptr) \<Rightarrow> (ptr \<Rightarrow> ptr) \<Rightarrow> ptr \<Rightarrow> ptr list \<Rightarrow> ptr \<Rightarrow> bool" where
  "dlseg nx pv p [] q = True"
| "dlseg nx pv p (x # xs) q \<longleftrightarrow>
     x \<noteq> 0 \<and> pv x = p \<and> nx x = first_of xs q \<and> dlseg nx pv x xs q"

definition dll :: "(ptr \<Rightarrow> ptr) \<Rightarrow> (ptr \<Rightarrow> ptr) \<Rightarrow> ptr list \<Rightarrow> bool" where
  "dll nx pv xs \<longleftrightarrow> dlseg nx pv 0 xs 0 \<and> distinct xs"

lemma first_of_append [simp]: "first_of (xs @ ys) q = first_of xs (first_of ys q)"
  by (cases xs) auto

lemma last_of_append [simp]: "last_of p (xs @ ys) = last_of (last_of p xs) ys"
  by (induction xs arbitrary: p) auto

lemma first_of_nonempty: "xs \<noteq> [] \<Longrightarrow> first_of xs q = hd xs"
  by (cases xs) auto

lemma last_of_nonempty: "xs \<noteq> [] \<Longrightarrow> last_of p xs = last xs"
  by (induction xs arbitrary: p) auto

lemma first_of_in: "first_of xs q \<in> insert q (set xs)"
  by (cases xs) auto

lemma last_of_in: "last_of p xs \<in> insert p (set xs)"
  by (induction xs arbitrary: p) auto

lemma dlseg_append [simp]:
  "dlseg nx pv p (xs @ ys) q \<longleftrightarrow>
     dlseg nx pv p xs (first_of ys q) \<and> dlseg nx pv (last_of p xs) ys q"
  by (induction xs arbitrary: p) auto

lemma dlseg_nonzero: "dlseg nx pv p xs q \<Longrightarrow> x \<in> set xs \<Longrightarrow> x \<noteq> 0"
  by (induction xs arbitrary: p) auto

lemma dlseg_cong:
  "(\<And>x. x \<in> set xs \<Longrightarrow> nx' x = nx x \<and> pv' x = pv x) \<Longrightarrow>
   dlseg nx' pv' p xs q = dlseg nx pv p xs q"
  by (induction xs arbitrary: p) auto

lemma dlseg_upd_next [simp]:
  "a \<notin> set xs \<Longrightarrow> dlseg (nx(a := v)) pv p xs q = dlseg nx pv p xs q"
  by (rule dlseg_cong) auto

lemma dlseg_upd_prev [simp]:
  "a \<notin> set xs \<Longrightarrow> dlseg nx (pv(a := v)) p xs q = dlseg nx pv p xs q"
  by (rule dlseg_cong) auto

text \<open>Re-attaching either end of a segment.\<close>

lemma dlseg_reattach_front:
  assumes "dlseg nx pv p xs q" "distinct xs" "xs \<noteq> []"
  shows "dlseg nx (pv(first_of xs 0 := p')) p' xs q"
  using assms by (cases xs) auto

lemma dlseg_reattach_back:
  assumes "dlseg nx pv p xs q" "distinct xs" "xs \<noteq> []"
  shows "dlseg (nx(last_of 0 xs := q')) pv p xs q'"
proof -
  from assms(3) obtain ys y where xs: "xs = ys @ [y]" by (metis rev_exhaust)
  with assms show ?thesis by auto
qed

lemma dll_Nil [simp]: "dll nx pv []"
  by (simp add: dll_def)

lemma dll_nonzero: "dll nx pv xs \<Longrightarrow> x \<in> set xs \<Longrightarrow> x \<noteq> 0"
  by (auto simp: dll_def dest: dlseg_nonzero)

lemma dll_distinct: "dll nx pv xs \<Longrightarrow> distinct xs"
  by (simp add: dll_def)

lemma dll_cong:
  assumes "\<And>x. x \<in> set xs \<Longrightarrow> nx' x = nx x \<and> pv' x = pv x"
  shows "dll nx' pv' xs = dll nx pv xs"
proof -
  have "dlseg nx' pv' 0 xs 0 = dlseg nx pv 0 xs 0"
    by (rule dlseg_cong) (rule assms)
  then show ?thesis by (simp add: dll_def)
qed

lemma dll_middle:
  "dll nx pv (as @ x # bs) \<Longrightarrow> pv x = last_of 0 as \<and> nx x = first_of bs 0 \<and> x \<noteq> 0"
  by (simp add: dll_def)

lemma dlseg_retarget_back:
  assumes "dlseg nx pv p xs q" "distinct xs" "xs \<noteq> [] \<Longrightarrow> nx' (last_of 0 xs) = q'"
    and "\<And>x. x \<in> set xs \<Longrightarrow> x \<noteq> last_of 0 xs \<Longrightarrow> nx' x = nx x"
    and "\<And>x. x \<in> set xs \<Longrightarrow> pv' x = pv x"
  shows "dlseg nx' pv' p xs q'"
proof (cases "xs = []")
  case False
  have "dlseg nx' pv' p xs q' = dlseg (nx(last_of 0 xs := q')) pv p xs q'"
    by (rule dlseg_cong) (use assms False in auto)
  then show ?thesis using dlseg_reattach_back [OF assms(1,2) False] by simp
qed simp

lemma dlseg_retarget_front:
  assumes "dlseg nx pv p xs q" "distinct xs" "xs \<noteq> [] \<Longrightarrow> pv' (first_of xs 0) = p'"
    and "\<And>x. x \<in> set xs \<Longrightarrow> x \<noteq> first_of xs 0 \<Longrightarrow> pv' x = pv x"
    and "\<And>x. x \<in> set xs \<Longrightarrow> nx' x = nx x"
  shows "dlseg nx' pv' p' xs q"
proof (cases "xs = []")
  case False
  have "dlseg nx' pv' p' xs q = dlseg nx (pv(first_of xs 0 := p')) p' xs q"
    by (rule dlseg_cong) (use assms False in auto)
  then show ?thesis using dlseg_reattach_front [OF assms(1,2) False] by simp
qed simp

text \<open>Opening a gap and closing a gap.\<close>

lemma dll_ends_apart:
  assumes "dll nx pv (as @ bs)"
  shows "x \<in> set as \<Longrightarrow> x \<noteq> first_of bs 0" "x \<in> set bs \<Longrightarrow> x \<noteq> last_of 0 as"
  using assms first_of_in [of bs 0] last_of_in [of 0 as]
  by (auto simp: dll_def dest: dlseg_nonzero)

lemma dll_insert:
  assumes "dll nx pv (as @ bs)" "d \<notin> set as" "d \<notin> set bs" "d \<noteq> 0"
    and "nx' d = first_of bs 0" "pv' d = last_of 0 as"
    and "as \<noteq> [] \<Longrightarrow> nx' (last_of 0 as) = d" "bs \<noteq> [] \<Longrightarrow> pv' (first_of bs 0) = d"
    and "\<And>x. x \<in> set as \<union> set bs \<Longrightarrow> x \<noteq> last_of 0 as \<Longrightarrow> nx' x = nx x"
    and "\<And>x. x \<in> set as \<union> set bs \<Longrightarrow> x \<noteq> first_of bs 0 \<Longrightarrow> pv' x = pv x"
  shows "dll nx' pv' (as @ d # bs)"
proof -
  note apart = dll_ends_apart [OF assms(1)]
  have "dlseg nx' pv' 0 as d"
    by (rule dlseg_retarget_back [of nx pv 0 as "first_of bs 0"])
      (use assms apart in \<open>auto simp: dll_def\<close>)
  moreover have "dlseg nx' pv' d bs 0"
    by (rule dlseg_retarget_front [of nx pv "last_of 0 as"])
      (use assms apart in \<open>auto simp: dll_def\<close>)
  ultimately show ?thesis using assms by (auto simp: dll_def)
qed

lemma dll_delete:
  assumes "dll nx pv (as @ x # bs)"
    and "as \<noteq> [] \<Longrightarrow> nx' (last_of 0 as) = first_of bs 0"
    and "bs \<noteq> [] \<Longrightarrow> pv' (first_of bs 0) = last_of 0 as"
    and "\<And>y. y \<in> set as \<union> set bs \<Longrightarrow> y \<noteq> last_of 0 as \<Longrightarrow> nx' y = nx y"
    and "\<And>y. y \<in> set as \<union> set bs \<Longrightarrow> y \<noteq> first_of bs 0 \<Longrightarrow> pv' y = pv y"
  shows "dll nx' pv' (as @ bs)"
proof -
  have apart: "y \<noteq> first_of bs 0" if "y \<in> set as" for y
    using that assms(1) first_of_in [of bs 0] by (auto simp: dll_def dest: dlseg_nonzero)
  have apart': "y \<noteq> last_of 0 as" if "y \<in> set bs" for y
    using that assms(1) last_of_in [of 0 as] by (auto simp: dll_def dest: dlseg_nonzero)
  have "dlseg nx' pv' 0 as (first_of bs 0)"
    by (rule dlseg_retarget_back [of nx pv 0 as x])
      (use assms apart apart' in \<open>auto simp: dll_def\<close>)
  moreover have "dlseg nx' pv' (last_of 0 as) bs 0"
    by (rule dlseg_retarget_front [of nx pv x])
      (use assms apart apart' in \<open>auto simp: dll_def\<close>)
  ultimately show ?thesis using assms(1) by (auto simp: dll_def)
qed

lemma dll_ends:
  assumes "dll nx pv (as @ x # bs)"
  shows "first_of bs 0 = 0 \<longleftrightarrow> bs = []" "last_of 0 as = 0 \<longleftrightarrow> as = []"
    "bs \<noteq> [] \<Longrightarrow> first_of bs 0 \<in> set bs" "as \<noteq> [] \<Longrightarrow> last_of 0 as \<in> set as"
proof -
  note nz = dll_nonzero [OF assms]
  show "first_of bs 0 = 0 \<longleftrightarrow> bs = []" using nz by (cases bs) auto
  show "last_of 0 as = 0 \<longleftrightarrow> as = []"
    using nz [of "last as"] by (cases "as = []") (auto simp: last_of_nonempty)
qed (simp_all add: first_of_nonempty last_of_nonempty)

text \<open>Putting another element in the place of one.\<close>

lemma dll_replace:
  assumes "dll nx pv (as @ x # bs)" "d \<notin> set (as @ x # bs)" "d \<noteq> 0"
    and "nx' d = first_of bs 0" "pv' d = last_of 0 as"
    and "as \<noteq> [] \<Longrightarrow> nx' (last_of 0 as) = d" "bs \<noteq> [] \<Longrightarrow> pv' (first_of bs 0) = d"
    and "\<And>y. y \<in> set as \<union> set bs \<Longrightarrow> y \<noteq> last_of 0 as \<Longrightarrow> nx' y = nx y"
    and "\<And>y. y \<in> set as \<union> set bs \<Longrightarrow> y \<noteq> first_of bs 0 \<Longrightarrow> pv' y = pv y"
  shows "dll nx' pv' (as @ d # bs)"
proof -
  have apart: "y \<in> set as \<Longrightarrow> y \<noteq> first_of bs 0" "y \<in> set bs \<Longrightarrow> y \<noteq> last_of 0 as" for y
    using assms(1) first_of_in [of bs 0] last_of_in [of 0 as]
    by (auto simp: dll_def dest: dlseg_nonzero)
  have "dlseg nx' pv' 0 as d"
    by (rule dlseg_retarget_back [of nx pv 0 as x])
      (use assms apart in \<open>auto simp: dll_def\<close>)
  moreover have "dlseg nx' pv' d bs 0"
    by (rule dlseg_retarget_front [of nx pv x])
      (use assms apart in \<open>auto simp: dll_def\<close>)
  ultimately show ?thesis using assms by (auto simp: dll_def)
qed

lemma first_of_map: "f q = q' \<Longrightarrow> first_of (map f xs) q' = f (first_of xs q)"
  by (cases xs) auto

lemma dlseg_rename:
  assumes "\<And>p. f (f p) = p" "\<And>p. f p = 0 \<longleftrightarrow> p = 0"
    and "\<And>p. p \<noteq> 0 \<Longrightarrow> nx' p = f (nx (f p))" "\<And>p. p \<noteq> 0 \<Longrightarrow> pv' p = f (pv (f p))"
  shows "dlseg nx pv p xs q \<Longrightarrow> dlseg nx' pv' (f p) (map f xs) (f q)"
  using assms by (induction xs arbitrary: p) (auto simp: first_of_map)

lemma dll_rename:
  assumes "\<And>p. f (f p) = p" "f 0 = 0"
    and "\<And>p. p \<noteq> 0 \<Longrightarrow> nx' p = f (nx (f p))" "\<And>p. p \<noteq> 0 \<Longrightarrow> pv' p = f (pv (f p))"
    and "dll nx pv xs"
  shows "dll nx' pv' (map f xs)"
proof -
  have "f p = 0 \<longleftrightarrow> p = 0" for p using assms(1) [of p] assms(2) by auto
  moreover have "inj f" by (rule injI) (metis assms(1))
  ultimately show ?thesis
    using dlseg_rename [of f nx' nx pv' pv 0 xs 0] assms
    by (auto simp: dll_def distinct_map intro: inj_on_subset)
qed

lemma dll_nx_pv:
  assumes "dll nx pv xs" "p \<in> set xs" "nx p \<noteq> 0"
  shows "nx p \<in> set xs \<and> pv (nx p) = p"
proof -
  from split_list [OF assms(2)] obtain ys zs where xs: "xs = ys @ p # zs" by blast
  with assms show ?thesis by (cases zs) (auto simp: dll_def)
qed

lemma dll_pv_nx:
  assumes "dll nx pv xs" "p \<in> set xs" "pv p \<noteq> 0"
  shows "pv p \<in> set xs \<and> nx (pv p) = p"
proof -
  from split_list [OF assms(2)] obtain ys zs where xs: "xs = ys @ p # zs" by blast
  with assms show ?thesis by (cases ys rule: rev_cases) (auto simp: dll_def)
qed

section \<open>The interface of a linked heap\<close>

text \<open>
  A heap whose objects carry a successor and a predecessor field with setters that touch nothing
  else.  The mapping database, the ready queues and the endpoint queues are three instances; the
  link manipulations the kernel performs on them are proved correct once, here.
\<close>

locale link_heap =
  fixes nx :: "'h \<Rightarrow> ptr \<Rightarrow> ptr" and pv :: "'h \<Rightarrow> ptr \<Rightarrow> ptr"
    and set_nx :: "ptr \<Rightarrow> ptr \<Rightarrow> 'h \<Rightarrow> 'h" and set_pv :: "ptr \<Rightarrow> ptr \<Rightarrow> 'h \<Rightarrow> 'h"
  assumes nx_set_nx: "nx (set_nx p v h) = (nx h)(p := v)"
    and pv_set_nx: "pv (set_nx p v h) = pv h"
    and nx_set_pv: "nx (set_pv p v h) = nx h"
    and pv_set_pv: "pv (set_pv p v h) = (pv h)(p := v)"
begin

lemmas link_laws = nx_set_nx pv_set_nx nx_set_pv pv_set_pv

lemma unlink:
  assumes "dll (nx h) (pv h) (as @ x # bs)"
    and "h1 = (if pv h x \<noteq> 0 then set_nx (pv h x) (nx h x) h else h)"
    and "h2 = (if nx h x \<noteq> 0 then set_pv (nx h x) (pv h x) h1 else h1)"
  shows "dll (nx h2) (pv h2) (as @ bs)"
proof -
  note mid = dll_middle [OF assms(1)]
  have ends: "as \<noteq> [] \<Longrightarrow> last_of 0 as \<noteq> 0" "bs \<noteq> [] \<Longrightarrow> first_of bs 0 \<noteq> 0"
    using dll_nonzero [OF assms(1)] by (auto simp: first_of_nonempty last_of_nonempty)
  show ?thesis
    by (rule dll_delete [OF assms(1)]) (use mid ends in \<open>auto simp: assms(2,3) link_laws\<close>)
qed

lemma push_back:
  assumes "dll (nx h) (pv h) xs" "x \<notin> set xs" "x \<noteq> 0"
    and "h1 = (if xs = [] then h else set_nx (last_of 0 xs) x h)"
    and "nx h2 = (nx h1)(x := 0)" "pv h2 = (pv h1)(x := last_of 0 xs)"
  shows "dll (nx h2) (pv h2) (xs @ [x])"
proof (rule dll_insert [of "nx h" "pv h" xs "[]", simplified])
  show "xs \<noteq> [] \<Longrightarrow> nx h2 (last_of 0 xs) = x"
    using assms last_of_in [of 0 xs] by (auto simp: link_laws last_of_nonempty)
qed (use assms in \<open>auto simp: link_laws\<close>)

lemma push_front:
  assumes "dll (nx h) (pv h) xs" "x \<notin> set xs" "x \<noteq> 0"
    and "h1 = (if xs = [] then h else set_pv (first_of xs 0) x h)"
    and "nx h2 = (nx h1)(x := first_of xs 0)" "pv h2 = (pv h1)(x := 0)"
  shows "dll (nx h2) (pv h2) (x # xs)"
proof (rule dll_insert [of "nx h" "pv h" "[]" xs, simplified])
  show "xs \<noteq> [] \<Longrightarrow> pv h2 (first_of xs 0) = x"
    using assms first_of_in [of xs 0] by (auto simp: link_laws first_of_nonempty)
qed (use assms in \<open>auto simp: link_laws\<close>)

lemma untouched:
  assumes "dll (nx h) (pv h) xs" "p \<notin> set xs"
  shows "dll (nx (set_nx p v h)) (pv (set_nx p v h)) xs"
    and "dll (nx (set_pv p v h)) (pv (set_pv p v h)) xs"
  using assms by (auto simp: link_laws dll_def)

end

end
