(* ===== verification/Capability.thy ===== *)
theory Capability
  imports Prelude
begin

text \<open>
  Capabilities: the tagged union \<open>cap\<close> of \<^verbatim>\<open>sel4_common/pbf/aarch64/structures.bf\<close> and
  \<^verbatim>\<open>structures_64.bf\<close> (one constructor per block, one argument per field in the order of the
  block, each with the width of the field; pointer fields are kept as full addresses), the common
  methods of \<^verbatim>\<open>sel4_cspace/src/capability/\<close>, the aarch64 methods of
  \<^verbatim>\<open>sel4_cspace/src/arch/aarch64/mod.rs\<close>, and \<open>mask_cap_rights\<close> of
  \<^verbatim>\<open>kernel/src/syscall/utils.rs\<close>.  An unchecked view such as \<^verbatim>\<open>cap::cap_zombie_cap(&c)\<close> is a
  selector of the datatype; the code takes one only after it has tested the tag.

  The lemmas show what a capability can and cannot become: masking rights intersects its
  authority, new data never adds authority and never changes the object, the count of a zombie
  round-trips through its packed identifier, and the region tests behave like an order and an
  equivalence on the objects they compare.
\<close>

section \<open>Results, rights and object sizes\<close>

datatype exception_t =
    EXCEPTION_NONE
  | EXCEPTION_FAULT
  | EXCEPTION_LOOKUP_FAULT
  | EXCEPTION_SYSCALL_ERROR
  | EXCEPTION_PREEMTED

record seL4_CapRights =
  capAllowGrantReply :: bool
  capAllowGrant :: bool
  capAllowRead :: bool
  capAllowWrite :: bool

definition cap_rights_of_word :: "word64 \<Rightarrow> seL4_CapRights" where
  "cap_rights_of_word w =
     \<lparr> capAllowGrantReply = bit w 3, capAllowGrant = bit w 2,
       capAllowRead = bit w 1, capAllowWrite = bit w 0 \<rparr>"

datatype vm_rights_t = VMKernelOnly | VMReadWrite | VMReadOnly

definition maskVMRights :: "vm_rights_t \<Rightarrow> seL4_CapRights \<Rightarrow> vm_rights_t" where
  "maskVMRights vm_rights rights =
    (if vm_rights = VMReadOnly \<and> capAllowRead rights then VMReadOnly
     else if vm_rights = VMReadWrite \<and> capAllowRead rights then
       (if capAllowWrite rights then VMReadWrite else VMReadOnly)
     else VMKernelOnly)"

text \<open>
  \<open>vm_rights_from_word\<close> transmutes the field into the enumeration; the bit pattern \<open>2\<close> is not
  a value of it, which is undefined behaviour and hence \<open>None\<close>.
\<close>

definition vm_rights_from_word :: "word64 \<Rightarrow> vm_rights_t option" where
  "vm_rights_from_word w =
    (if w = 0 then Some VMKernelOnly
     else if w = 1 then Some VMReadWrite
     else if w = 3 then Some VMReadOnly
     else None)"

fun vm_rights_word :: "vm_rights_t \<Rightarrow> 2 word" where
  "vm_rights_word VMKernelOnly = 0"
| "vm_rights_word VMReadWrite = 1"
| "vm_rights_word VMReadOnly = 3"

definition SEL4_ENDPOINT_BITS :: word64 where "SEL4_ENDPOINT_BITS = 4"
definition SEL4_NOTIFICATION_BITS :: word64 where "SEL4_NOTIFICATION_BITS = 5"
definition SEL4_SLOT_BITS :: word64 where "SEL4_SLOT_BITS = 5"
definition SEL4_TCB_BITS :: word64 where "SEL4_TCB_BITS = 11"
definition SEL4_MIN_UNTYPED_BITS :: word64 where "SEL4_MIN_UNTYPED_BITS = 4"
definition PT_SIZE_BITS :: word64 where "PT_SIZE_BITS = 12"
definition WORD_RADIX :: word64 where "WORD_RADIX = 6"
definition WORD_BITS :: word64 where "WORD_BITS = 64"

lemmas size_consts =
  SEL4_ENDPOINT_BITS_def SEL4_NOTIFICATION_BITS_def SEL4_SLOT_BITS_def SEL4_TCB_BITS_def
  SEL4_MIN_UNTYPED_BITS_def PT_SIZE_BITS_def WORD_RADIX_def WORD_BITS_def

definition pageBitsForSize :: "word64 \<Rightarrow> word64 option" where
  "pageBitsForSize page_size =
    (if page_size = 0 then Some 12
     else if page_size = 1 then Some 21
     else if page_size = 2 then Some 30
     else None)"

definition max_free_index :: "word64 \<Rightarrow> word64" where
  "max_free_index bits = bit_mac (bits - SEL4_MIN_UNTYPED_BITS)"

section \<open>The capability union\<close>

datatype cap =
    cap_null_cap
  | cap_untyped_cap (capFreeIndex: "48 word") (capIsDevice: bool) (capBlockSize: "6 word")
      (capPtr: ptr)
  | cap_endpoint_cap (capEPBadge: word64) (capCanGrantReply: bool) (capCanGrant: bool)
      (capCanReceive: bool) (capCanSend: bool) (capEPPtr: ptr)
  | cap_notification_cap (capNtfnBadge: word64) (capNtfnCanReceive: bool) (capNtfnCanSend: bool)
      (capNtfnPtr: ptr)
  | cap_reply_cap (capReplyTCBPtr: ptr) (capReplyCanGrant: bool) (capReplyMaster: bool)
  | cap_cnode_cap (capCNodeGuard: word64) (capCNodeGuardSize: "6 word") (capCNodeRadix: "6 word")
      (capCNodePtr: ptr)
  | cap_thread_cap (capTCBPtr: ptr)
  | cap_irq_control_cap
  | cap_irq_handler_cap (capIRQ: "12 word")
  | cap_zombie_cap (capZombieID: word64) (capZombieType: "7 word")
  | cap_domain_cap
  | cap_frame_cap (capFMappedASID: "16 word") (capFBasePtr: ptr) (capFSize: "2 word")
      (capFMappedAddress: ptr) (capFVMRights: "2 word") (capFIsDevice: bool)
  | cap_page_table_cap (capPTMappedASID: "16 word") (capPTBasePtr: ptr) (capPTIsMapped: bool)
      (capPTMappedAddress: ptr)
  | cap_vspace_cap (capVSMappedASID: "16 word") (capVSBasePtr: ptr) (capVSIsMapped: bool)
  | cap_asid_control_cap
  | cap_asid_pool_cap (capASIDBase: "16 word") (capASIDPool: ptr)

fun get_tag :: "cap \<Rightarrow> nat" where
  "get_tag cap_null_cap = 0"
| "get_tag (cap_untyped_cap _ _ _ _) = 2"
| "get_tag (cap_endpoint_cap _ _ _ _ _ _) = 4"
| "get_tag (cap_notification_cap _ _ _ _) = 6"
| "get_tag (cap_reply_cap _ _ _) = 8"
| "get_tag (cap_cnode_cap _ _ _ _) = 10"
| "get_tag (cap_thread_cap _) = 12"
| "get_tag cap_irq_control_cap = 14"
| "get_tag (cap_irq_handler_cap _) = 16"
| "get_tag (cap_zombie_cap _ _) = 18"
| "get_tag cap_domain_cap = 20"
| "get_tag (cap_frame_cap _ _ _ _ _ _) = 1"
| "get_tag (cap_page_table_cap _ _ _ _) = 3"
| "get_tag (cap_vspace_cap _ _ _) = 9"
| "get_tag cap_asid_control_cap = 11"
| "get_tag (cap_asid_pool_cap _ _) = 13"

definition is_arch_cap :: "cap \<Rightarrow> bool" where
  "is_arch_cap c \<longleftrightarrow> get_tag c mod 2 \<noteq> 0"

section \<open>Zombies\<close>

definition ZOMBIE_TYPE_ZOMBIE_TCB :: word64 where "ZOMBIE_TYPE_ZOMBIE_TCB = 64"
definition TCB_CNODE_RADIX :: word64 where "TCB_CNODE_RADIX = 4"

definition zombie_type_zombie_cnode :: "word64 \<Rightarrow> word64" where
  "zombie_type_zombie_cnode n = n AND mask_bits WORD_RADIX"

definition get_zombie_bit :: "cap \<Rightarrow> word64" where
  "get_zombie_bit c =
    (let ty = ucast (capZombieType c) in
     if ty = ZOMBIE_TYPE_ZOMBIE_TCB then TCB_CNODE_RADIX else zombie_type_zombie_cnode ty)"

definition get_zombie_ptr :: "cap \<Rightarrow> ptr" where
  "get_zombie_ptr c = capZombieID c AND NOT (mask_bits (get_zombie_bit c + 1))"

definition get_zombie_number :: "cap \<Rightarrow> word64" where
  "get_zombie_number c = capZombieID c AND mask_bits (get_zombie_bit c + 1)"

definition set_zombie_number :: "cap \<Rightarrow> word64 \<Rightarrow> cap" where
  "set_zombie_number c n =
    (let m = mask_bits (get_zombie_bit c + 1); p = capZombieID c AND NOT m in
     cap_zombie_cap (p OR (n AND m)) (capZombieType c))"

definition zombie_new :: "word64 \<Rightarrow> word64 \<Rightarrow> ptr \<Rightarrow> cap" where
  "zombie_new number ty p =
    (let m = (if ty = ZOMBIE_TYPE_ZOMBIE_TCB then mask_bits (TCB_CNODE_RADIX + 1)
              else mask_bits (ty + 1))
     in cap_zombie_cap ((p AND NOT m) OR (number AND m)) (ucast ty))"

definition cap_cyclic_zombie :: "cap \<Rightarrow> ptr \<Rightarrow> bool" where
  "cap_cyclic_zombie c slot \<longleftrightarrow> (case c of cap_zombie_cap _ _ \<Rightarrow> get_zombie_ptr c = slot | _ \<Rightarrow> False)"

section \<open>The methods of a capability\<close>

definition CNodeCapData_get_guard :: "word64 \<Rightarrow> word64" where
  "CNodeCapData_get_guard w = drop_bit 6 (w AND 0xffffffffffffffc0)"

definition CNodeCapData_get_guard_size :: "word64 \<Rightarrow> word64" where
  "CNodeCapData_get_guard_size w = w AND 0x3f"

definition arch_updatedata :: "cap \<Rightarrow> bool \<Rightarrow> word64 \<Rightarrow> cap" where
  "arch_updatedata c preserve new_data = c"

fun update_data_common :: "cap \<Rightarrow> bool \<Rightarrow> word64 \<Rightarrow> cap" where
  "update_data_common (cap_endpoint_cap badge gr g r s p) preserve new_data =
    (if \<not> preserve \<and> badge = 0 then cap_endpoint_cap new_data gr g r s p else cap_null_cap)"
| "update_data_common (cap_notification_cap badge r s p) preserve new_data =
    (if \<not> preserve \<and> badge = 0 then cap_notification_cap new_data r s p else cap_null_cap)"
| "update_data_common (cap_cnode_cap gd gs radix p) preserve new_data =
    (let guard_size = CNodeCapData_get_guard_size new_data in
     if guard_size + ucast radix > WORD_BITS then cap_null_cap
     else cap_cnode_cap (CNodeCapData_get_guard new_data AND mask_bits guard_size)
            (ucast guard_size) radix p)"
| "update_data_common c preserve new_data = c"

definition update_data :: "cap \<Rightarrow> bool \<Rightarrow> word64 \<Rightarrow> cap" where
  "update_data c preserve new_data =
    (if is_arch_cap c then arch_updatedata c preserve new_data
     else update_data_common c preserve new_data)"

fun get_cap_size_bits :: "cap \<Rightarrow> word64" where
  "get_cap_size_bits (cap_untyped_cap _ _ bs _) = ucast bs"
| "get_cap_size_bits (cap_endpoint_cap _ _ _ _ _ _) = SEL4_ENDPOINT_BITS"
| "get_cap_size_bits (cap_notification_cap _ _ _ _) = SEL4_NOTIFICATION_BITS"
| "get_cap_size_bits (cap_cnode_cap _ _ radix _) = ucast radix + SEL4_SLOT_BITS"
| "get_cap_size_bits (cap_page_table_cap _ _ _ _) = PT_SIZE_BITS"
| "get_cap_size_bits _ = 0"

fun get_cap_is_physical :: "cap \<Rightarrow> bool" where
  "get_cap_is_physical (cap_vspace_cap _ _ _) = True"
| "get_cap_is_physical (cap_untyped_cap _ _ _ _) = True"
| "get_cap_is_physical (cap_endpoint_cap _ _ _ _ _ _) = True"
| "get_cap_is_physical (cap_notification_cap _ _ _ _) = True"
| "get_cap_is_physical (cap_cnode_cap _ _ _ _) = True"
| "get_cap_is_physical (cap_frame_cap _ _ _ _ _ _) = True"
| "get_cap_is_physical (cap_asid_pool_cap _ _) = True"
| "get_cap_is_physical (cap_page_table_cap _ _ _ _) = True"
| "get_cap_is_physical (cap_zombie_cap _ _) = True"
| "get_cap_is_physical (cap_thread_cap _) = True"
| "get_cap_is_physical _ = False"

fun get_cap_ptr :: "cap \<Rightarrow> ptr" where
  "get_cap_ptr (cap_untyped_cap _ _ _ p) = p"
| "get_cap_ptr (cap_endpoint_cap _ _ _ _ _ p) = p"
| "get_cap_ptr (cap_notification_cap _ _ _ p) = p"
| "get_cap_ptr (cap_cnode_cap _ _ _ p) = p"
| "get_cap_ptr (cap_thread_cap p) = p"
| "get_cap_ptr (cap_zombie_cap i ty) = get_zombie_ptr (cap_zombie_cap i ty)"
| "get_cap_ptr (cap_frame_cap _ p _ _ _ _) = p"
| "get_cap_ptr (cap_page_table_cap _ p _ _) = p"
| "get_cap_ptr (cap_vspace_cap _ p _) = p"
| "get_cap_ptr cap_asid_control_cap = 0"
| "get_cap_ptr (cap_asid_pool_cap _ p) = p"
| "get_cap_ptr _ = 0"

fun is_vtable_root :: "cap \<Rightarrow> bool" where
  "is_vtable_root (cap_vspace_cap _ _ _) = True"
| "is_vtable_root _ = False"

definition is_valid_native_root :: "cap \<Rightarrow> bool" where
  "is_valid_native_root c \<longleftrightarrow> is_vtable_root c \<and> capVSIsMapped c"

definition is_valid_vtable_root :: "cap \<Rightarrow> bool" where
  "is_valid_vtable_root c = is_valid_native_root c"

section \<open>Regions and objects\<close>

definition arch_same_region_as :: "cap \<Rightarrow> cap \<Rightarrow> bool option" where
  "arch_same_region_as cap1 cap2 = (case cap1 of
     cap_frame_cap _ botA sizeA _ _ _ \<Rightarrow> (case cap2 of
       cap_frame_cap _ botB sizeB _ _ _ \<Rightarrow> do {
         bitsA \<leftarrow> pageBitsForSize (ucast sizeA);
         bitsB \<leftarrow> pageBitsForSize (ucast sizeB);
         let topA = botA + mask_bits bitsA;
         let topB = botB + mask_bits bitsB;
         Some (botA \<le> botB \<and> topA \<ge> topB \<and> botB \<le> topB) }
     | _ \<Rightarrow> Some False)
   | cap_page_table_cap _ p1 _ _ \<Rightarrow>
       Some (case cap2 of cap_page_table_cap _ p2 _ _ \<Rightarrow> p1 = p2 | _ \<Rightarrow> False)
   | cap_vspace_cap _ p1 _ \<Rightarrow>
       Some (case cap2 of cap_vspace_cap _ p2 _ \<Rightarrow> p1 = p2 | _ \<Rightarrow> False)
   | cap_asid_control_cap \<Rightarrow> Some (get_tag cap2 = get_tag cap_asid_control_cap)
   | cap_asid_pool_cap _ p1 \<Rightarrow>
       Some (case cap2 of cap_asid_pool_cap _ p2 \<Rightarrow> p1 = p2 | _ \<Rightarrow> False)
   | _ \<Rightarrow> None)"

definition arch_same_object_as :: "cap \<Rightarrow> cap \<Rightarrow> bool option" where
  "arch_same_object_as cap1 cap2 = (case (cap1, cap2) of
     (cap_frame_cap _ p1 s1 _ _ d1, cap_frame_cap _ p2 s2 _ _ d2) \<Rightarrow>
       Some (p1 = p2 \<and> s1 = s2 \<and> d1 = d2)
   | _ \<Rightarrow> arch_same_region_as cap1 cap2)"

definition same_tag_and_ptr :: "cap \<Rightarrow> cap \<Rightarrow> bool" where
  "same_tag_and_ptr cap1 cap2 \<longleftrightarrow>
     (if get_tag cap2 = get_tag cap1 then get_cap_ptr cap1 = get_cap_ptr cap2 else False)"

fun same_region_as :: "cap \<Rightarrow> cap \<Rightarrow> bool option" where
  "same_region_as (cap_untyped_cap fi dv bs aBase) cap2 =
    (if get_cap_is_physical cap2 then
       let bBase = get_cap_ptr cap2;
           aTop = aBase + mask_bits (ucast bs);
           bTop = bBase + mask_bits (get_cap_size_bits cap2)
       in Some (aBase \<le> bBase \<and> bTop \<le> aTop \<and> bBase \<le> bTop)
     else Some False)"
| "same_region_as (cap_endpoint_cap b gr g r s p) cap2 =
     Some (same_tag_and_ptr (cap_endpoint_cap b gr g r s p) cap2)"
| "same_region_as (cap_notification_cap b r s p) cap2 =
     Some (same_tag_and_ptr (cap_notification_cap b r s p) cap2)"
| "same_region_as (cap_page_table_cap a p m v) cap2 =
     Some (same_tag_and_ptr (cap_page_table_cap a p m v) cap2)"
| "same_region_as (cap_asid_pool_cap b p) cap2 =
     Some (same_tag_and_ptr (cap_asid_pool_cap b p) cap2)"
| "same_region_as (cap_thread_cap p) cap2 = Some (same_tag_and_ptr (cap_thread_cap p) cap2)"
| "same_region_as cap_asid_control_cap cap2 = Some (get_tag cap2 = get_tag cap_asid_control_cap)"
| "same_region_as cap_domain_cap cap2 = Some (get_tag cap2 = get_tag cap_domain_cap)"
| "same_region_as (cap_cnode_cap gd gs rd p) cap2 =
     Some (case cap2 of cap_cnode_cap _ _ rd' p' \<Rightarrow> p = p' \<and> rd = rd' | _ \<Rightarrow> False)"
| "same_region_as cap_irq_control_cap cap2 =
     Some (case cap2 of cap_irq_control_cap \<Rightarrow> True | cap_irq_handler_cap _ \<Rightarrow> True | _ \<Rightarrow> False)"
| "same_region_as (cap_irq_handler_cap irq) cap2 =
     Some (case cap2 of cap_irq_handler_cap irq' \<Rightarrow> irq = irq' | _ \<Rightarrow> False)"
| "same_region_as cap1 cap2 =
    (if is_arch_cap cap1 \<and> is_arch_cap cap2 then arch_same_region_as cap1 cap2 else Some False)"

definition same_object_as :: "cap \<Rightarrow> cap \<Rightarrow> bool option" where
  "same_object_as cap1 cap2 =
    (if (case cap1 of cap_untyped_cap _ _ _ _ \<Rightarrow> True | _ \<Rightarrow> False) then Some False
     else if (case (cap1, cap2) of (cap_irq_control_cap, cap_irq_handler_cap _) \<Rightarrow> True | _ \<Rightarrow> False)
       then Some False
     else if is_arch_cap cap1 \<and> is_arch_cap cap2 then arch_same_object_as cap1 cap2
     else same_region_as cap1 cap2)"

definition arch_is_cap_revocable :: "cap \<Rightarrow> cap \<Rightarrow> bool" where
  "arch_is_cap_revocable derived_cap src_cap = False"

definition is_cap_revocable :: "cap \<Rightarrow> cap \<Rightarrow> bool option" where
  "is_cap_revocable derived_cap src_cap =
    (if is_arch_cap derived_cap then Some (arch_is_cap_revocable derived_cap src_cap)
     else case derived_cap of
       cap_endpoint_cap badge _ _ _ _ _ \<Rightarrow>
         (case src_cap of cap_endpoint_cap badge' _ _ _ _ _ \<Rightarrow> Some (badge \<noteq> badge') | _ \<Rightarrow> None)
     | cap_notification_cap badge _ _ _ \<Rightarrow>
         (case src_cap of cap_notification_cap badge' _ _ _ \<Rightarrow> Some (badge \<noteq> badge') | _ \<Rightarrow> None)
     | cap_irq_handler_cap _ \<Rightarrow> Some (src_cap = cap_irq_control_cap)
     | cap_untyped_cap _ _ _ _ \<Rightarrow> Some True
     | _ \<Rightarrow> Some False)"

section \<open>Deriving architecture capabilities and masking rights\<close>

record deriveCap_ret =
  dc_status :: exception_t
  dc_capability :: cap

fun arch_derive_cap :: "cap \<Rightarrow> deriveCap_ret option" where
  "arch_derive_cap (cap_vspace_cap asid p mapped) =
    (if mapped then Some \<lparr> dc_status = EXCEPTION_NONE, dc_capability = cap_vspace_cap asid p mapped \<rparr>
     else Some \<lparr> dc_status = EXCEPTION_SYSCALL_ERROR, dc_capability = cap_null_cap \<rparr>)"
| "arch_derive_cap (cap_page_table_cap asid p mapped va) =
    (if mapped then
       Some \<lparr> dc_status = EXCEPTION_NONE, dc_capability = cap_page_table_cap asid p mapped va \<rparr>
     else Some \<lparr> dc_status = EXCEPTION_SYSCALL_ERROR, dc_capability = cap_null_cap \<rparr>)"
| "arch_derive_cap (cap_frame_cap asid p sz va r dv) =
     Some \<lparr> dc_status = EXCEPTION_NONE, dc_capability = cap_frame_cap 0 p sz va r dv \<rparr>"
| "arch_derive_cap cap_asid_control_cap =
     Some \<lparr> dc_status = EXCEPTION_NONE, dc_capability = cap_asid_control_cap \<rparr>"
| "arch_derive_cap (cap_asid_pool_cap b p) =
     Some \<lparr> dc_status = EXCEPTION_NONE, dc_capability = cap_asid_pool_cap b p \<rparr>"
| "arch_derive_cap _ = None"

definition arch_mask_cap_rights :: "seL4_CapRights \<Rightarrow> cap \<Rightarrow> cap option" where
  "arch_mask_cap_rights rights c = (case c of
     cap_frame_cap asid p sz va r dv \<Rightarrow> do {
       vm_rights \<leftarrow> vm_rights_from_word (ucast r);
       Some (cap_frame_cap asid p sz va (vm_rights_word (maskVMRights vm_rights rights)) dv) }
   | _ \<Rightarrow> Some c)"

definition mask_cap_rights :: "seL4_CapRights \<Rightarrow> cap \<Rightarrow> cap option" where
  "mask_cap_rights rights c =
    (if is_arch_cap c then arch_mask_cap_rights rights c
     else case c of
       cap_endpoint_cap badge gr g r s p \<Rightarrow>
         Some (cap_endpoint_cap badge (gr \<and> capAllowGrantReply rights) (g \<and> capAllowGrant rights)
                 (r \<and> capAllowRead rights) (s \<and> capAllowWrite rights) p)
     | cap_notification_cap badge r s p \<Rightarrow>
         Some (cap_notification_cap badge (r \<and> capAllowRead rights) (s \<and> capAllowWrite rights) p)
     | cap_reply_cap p g m \<Rightarrow> Some (cap_reply_cap p (g \<and> capAllowGrant rights) m)
     | _ \<Rightarrow> Some c)"

section \<open>What a capability denotes\<close>

text \<open>
  \<open>cap_auth\<close> is the authority a capability carries beyond its existence, \<open>rights_auth\<close> the
  authority a rights word lets through, \<open>cap_identity\<close> the capability with its authority erased
  (what rights masking must not touch), and \<open>obj_id\<close> the kernel object it designates, for the
  capabilities that designate one exclusively.
\<close>

datatype authority = Recv | Send | Grant | GrantReply | MemRead | MemWrite

fun cap_auth :: "cap \<Rightarrow> authority set" where
  "cap_auth (cap_endpoint_cap _ gr g r s _) =
     {a. a = GrantReply \<and> gr \<or> a = Grant \<and> g \<or> a = Recv \<and> r \<or> a = Send \<and> s}"
| "cap_auth (cap_notification_cap _ r s _) = {a. a = Recv \<and> r \<or> a = Send \<and> s}"
| "cap_auth (cap_reply_cap _ g _) = {a. a = Grant \<and> g}"
| "cap_auth (cap_frame_cap _ _ _ _ r _) =
     {a. a = MemRead \<and> (r = 1 \<or> r = 3) \<or> a = MemWrite \<and> r = 1}"
| "cap_auth _ = {}"

definition rights_auth :: "seL4_CapRights \<Rightarrow> authority set" where
  "rights_auth R =
     {a. a = GrantReply \<and> capAllowGrantReply R \<or> a = Grant \<and> capAllowGrant R \<or>
         a \<in> {Recv, MemRead} \<and> capAllowRead R \<or> a \<in> {Send, MemWrite} \<and> capAllowWrite R}"

fun cap_identity :: "cap \<Rightarrow> cap" where
  "cap_identity (cap_endpoint_cap b _ _ _ _ p) = cap_endpoint_cap b False False False False p"
| "cap_identity (cap_notification_cap b _ _ p) = cap_notification_cap b False False p"
| "cap_identity (cap_reply_cap p _ m) = cap_reply_cap p False m"
| "cap_identity (cap_frame_cap a p sz va _ d) = cap_frame_cap a p sz va 0 d"
| "cap_identity c = c"

definition rights_inter :: "seL4_CapRights \<Rightarrow> seL4_CapRights \<Rightarrow> seL4_CapRights" where
  "rights_inter A B =
     \<lparr> capAllowGrantReply = (capAllowGrantReply A \<and> capAllowGrantReply B),
       capAllowGrant = (capAllowGrant A \<and> capAllowGrant B),
       capAllowRead = (capAllowRead A \<and> capAllowRead B),
       capAllowWrite = (capAllowWrite A \<and> capAllowWrite B) \<rparr>"

datatype kobject =
    Endpoint_obj ptr | Notification_obj ptr | CNode_obj ptr "6 word" | Thread_obj ptr
  | IRQControl_obj | IRQ_obj "12 word" | Domain_obj
  | Frame_obj ptr "2 word" bool | PageTable_obj ptr | VSpace_obj ptr
  | ASIDControl_obj | ASIDPool_obj ptr

fun obj_id :: "cap \<Rightarrow> kobject option" where
  "obj_id (cap_endpoint_cap _ _ _ _ _ p) = Some (Endpoint_obj p)"
| "obj_id (cap_notification_cap _ _ _ p) = Some (Notification_obj p)"
| "obj_id (cap_cnode_cap _ _ rd p) = Some (CNode_obj p rd)"
| "obj_id (cap_thread_cap p) = Some (Thread_obj p)"
| "obj_id cap_irq_control_cap = Some IRQControl_obj"
| "obj_id (cap_irq_handler_cap i) = Some (IRQ_obj i)"
| "obj_id cap_domain_cap = Some Domain_obj"
| "obj_id (cap_frame_cap _ p sz _ _ d) = Some (Frame_obj p sz d)"
| "obj_id (cap_page_table_cap _ p _ _) = Some (PageTable_obj p)"
| "obj_id (cap_vspace_cap _ p _) = Some (VSpace_obj p)"
| "obj_id cap_asid_control_cap = Some ASIDControl_obj"
| "obj_id (cap_asid_pool_cap _ p) = Some (ASIDPool_obj p)"
| "obj_id _ = None"

text \<open>
  The field invariant of a stored capability: a CNode never translates more bits than a word has
  and its guard fits its size, a frame has one of the three page sizes and a valid rights pattern,
  and a zombie counts at most as many slots as its table has.
\<close>

fun cap_wf :: "cap \<Rightarrow> bool" where
  "cap_wf (cap_cnode_cap gd gs rd _) \<longleftrightarrow> unat gs + unat rd \<le> 64 \<and> unat gd < 2 ^ unat gs"
| "cap_wf (cap_frame_cap _ _ sz _ r _) \<longleftrightarrow> sz \<noteq> 3 \<and> r \<noteq> 2"
| "cap_wf (cap_zombie_cap i ty) \<longleftrightarrow>
     unat ty \<le> 64 \<and> unat ty \<noteq> 63 \<and>
     unat (get_zombie_number (cap_zombie_cap i ty)) \<le> 2 ^ unat (get_zombie_bit (cap_zombie_cap i ty))"
| "cap_wf _ \<longleftrightarrow> True"

definition zombie_radix :: "word64 \<Rightarrow> word64" where
  "zombie_radix ty = (if ty = ZOMBIE_TYPE_ZOMBIE_TCB then TCB_CNODE_RADIX else ty)"

definition cap_region :: "cap \<Rightarrow> nat set" where
  "cap_region c = {unat (get_cap_ptr c) ..< unat (get_cap_ptr c) + 2 ^ unat (get_cap_size_bits c)}"

definition region_fits :: "cap \<Rightarrow> bool" where
  "region_fits c \<longleftrightarrow> unat (get_cap_size_bits c) < 64 \<and>
     unat (get_cap_ptr c) + 2 ^ unat (get_cap_size_bits c) \<le> 2 ^ 64"

section \<open>Masking rights and new data\<close>

lemma word2_cases: "(r :: 2 word) = 0 \<or> r = 1 \<or> r = 2 \<or> r = 3"
proof -
  have "unat r < 4" using unsigned_less [of r] by simp
  then have "unat r = 0 \<or> unat r = 1 \<or> unat r = 2 \<or> unat r = 3" by linarith
  then show ?thesis by (auto simp: word_unat_eq_iff)
qed

lemma vm_rights_from_word_2:
  "vm_rights_from_word (ucast (r :: 2 word)) =
    (if r = 0 then Some VMKernelOnly else if r = 1 then Some VMReadWrite
     else if r = 3 then Some VMReadOnly else None)"
  using word2_cases [of r] by (auto simp: vm_rights_from_word_def)

lemma is_arch_cap_simps [simp]:
  "\<not> is_arch_cap cap_null_cap"
  "\<not> is_arch_cap (cap_untyped_cap fi dv bs p)"
  "\<not> is_arch_cap (cap_endpoint_cap b gr g r s p)"
  "\<not> is_arch_cap (cap_notification_cap b r s p)"
  "\<not> is_arch_cap (cap_reply_cap p g m)"
  "\<not> is_arch_cap (cap_cnode_cap w gs rd p)"
  "\<not> is_arch_cap (cap_thread_cap p)"
  "\<not> is_arch_cap cap_irq_control_cap"
  "\<not> is_arch_cap (cap_irq_handler_cap i)"
  "\<not> is_arch_cap (cap_zombie_cap z ty)"
  "\<not> is_arch_cap cap_domain_cap"
  "is_arch_cap (cap_frame_cap a p sz va vr dv)"
  "is_arch_cap (cap_page_table_cap a p mp va)"
  "is_arch_cap (cap_vspace_cap a p mp)"
  "is_arch_cap cap_asid_control_cap"
  "is_arch_cap (cap_asid_pool_cap ab p)"
  by (simp_all add: is_arch_cap_def)

lemma maskVMRights_compose:
  "maskVMRights (maskVMRights v A) B = maskVMRights v (rights_inter A B)"
  by (cases v; cases "capAllowRead A"; cases "capAllowRead B"; cases "capAllowWrite A";
      simp add: maskVMRights_def rights_inter_def)

lemma vm_rights_roundtrip [simp]: "vm_rights_from_word (ucast (vm_rights_word v)) = Some v"
  by (cases v) (simp_all add: vm_rights_from_word_def)

lemma mask_cap_rights_simps [simp]:
  "mask_cap_rights R cap_null_cap = Some cap_null_cap"
  "mask_cap_rights R (cap_untyped_cap fi dv bs p) = Some (cap_untyped_cap fi dv bs p)"
  "mask_cap_rights R (cap_endpoint_cap b gr g r s p) =
     Some (cap_endpoint_cap b (gr \<and> capAllowGrantReply R) (g \<and> capAllowGrant R)
             (r \<and> capAllowRead R) (s \<and> capAllowWrite R) p)"
  "mask_cap_rights R (cap_notification_cap b r s p) =
     Some (cap_notification_cap b (r \<and> capAllowRead R) (s \<and> capAllowWrite R) p)"
  "mask_cap_rights R (cap_reply_cap p g m) = Some (cap_reply_cap p (g \<and> capAllowGrant R) m)"
  "mask_cap_rights R (cap_cnode_cap w gs rd p) = Some (cap_cnode_cap w gs rd p)"
  "mask_cap_rights R (cap_thread_cap p) = Some (cap_thread_cap p)"
  "mask_cap_rights R cap_irq_control_cap = Some cap_irq_control_cap"
  "mask_cap_rights R (cap_irq_handler_cap i) = Some (cap_irq_handler_cap i)"
  "mask_cap_rights R (cap_zombie_cap z ty) = Some (cap_zombie_cap z ty)"
  "mask_cap_rights R cap_domain_cap = Some cap_domain_cap"
  "mask_cap_rights R (cap_frame_cap a p sz va vr dv) =
     map_option (\<lambda>v. cap_frame_cap a p sz va (vm_rights_word (maskVMRights v R)) dv)
       (vm_rights_from_word (ucast vr))"
  "mask_cap_rights R (cap_page_table_cap a p mp va) = Some (cap_page_table_cap a p mp va)"
  "mask_cap_rights R (cap_vspace_cap a p mp) = Some (cap_vspace_cap a p mp)"
  "mask_cap_rights R cap_asid_control_cap = Some cap_asid_control_cap"
  "mask_cap_rights R (cap_asid_pool_cap ab p) = Some (cap_asid_pool_cap ab p)"
  by (simp_all add: mask_cap_rights_def arch_mask_cap_rights_def map_conv_bind_option o_def)

text \<open>
  C8: masking the rights of a capability never adds authority: the result carries at most the
  authority of the original that the rights word allows, exactly that for kernel-object
  capabilities, and is otherwise the same capability (same object, same badge, same mapping).
\<close>

theorem mask_cap_rights_authority:
  assumes "mask_cap_rights R c = Some c'"
  shows "cap_auth c' \<subseteq> cap_auth c \<inter> rights_auth R
       \<and> cap_identity c' = cap_identity c
       \<and> (\<not> is_arch_cap c \<longrightarrow> cap_auth c' = cap_auth c \<inter> rights_auth R)"
proof (cases c)
  case (cap_frame_cap a p sz va r dv)
  with assms obtain v where v: "vm_rights_from_word (ucast r) = Some v"
      "c' = cap_frame_cap a p sz va (vm_rights_word (maskVMRights v R)) dv" by auto
  then have "r = vm_rights_word v"
    by (auto simp: vm_rights_from_word_2 split: if_splits)
  with v cap_frame_cap show ?thesis
    by (cases v) (auto simp: rights_auth_def maskVMRights_def)
qed (use assms in \<open>auto simp: rights_auth_def\<close>)

theorem mask_cap_rights_authority_witness:
  "mask_cap_rights (cap_rights_of_word 2) (cap_endpoint_cap 7 True True True True 64)
     = Some (cap_endpoint_cap 7 False False True False 64)
   \<and> cap_auth (cap_endpoint_cap 7 False False True False 64) \<subseteq>
       cap_auth (cap_endpoint_cap 7 True True True True 64) \<inter> rights_auth (cap_rights_of_word 2)"
proof -
  have "mask_cap_rights (cap_rights_of_word 2) (cap_endpoint_cap 7 True True True True 64)
     = Some (cap_endpoint_cap 7 False False True False 64)"
    by (simp add: cap_rights_of_word_def bit_iff_odd)
  with mask_cap_rights_authority [OF this] show ?thesis by blast
qed

text \<open>
  masking twice is masking once with the intersection of the two rights words, so a chain of
  copies can never regain a right that one of them dropped, in whatever order they are applied.
\<close>

theorem mask_cap_rights_compose:
  "(do { c' \<leftarrow> mask_cap_rights A c; mask_cap_rights B c' }) = mask_cap_rights (rights_inter A B) c"
proof (cases c)
  case (cap_frame_cap asid p sz va r dv)
  then show ?thesis
    by (cases "vm_rights_from_word (ucast r)") (simp_all add: maskVMRights_compose)
qed (simp_all add: rights_inter_def)

lemma guard_size_less: "unat (CNodeCapData_get_guard_size w) < 64"
proof -
  have "CNodeCapData_get_guard_size w = take_bit 6 w"
    by (simp add: CNodeCapData_get_guard_size_def take_bit_eq_mask mask_eq_exp_minus_1)
  then show ?thesis
    by (simp add: unsigned_take_bit_eq) (simp add: take_bit_eq_mod)
qed

lemma unat_ucast_6 [simp]: "unat (ucast (r :: 6 word) :: 64 word) = unat r"
  using unsigned_less [of r, where ?'a = nat] by (simp add: unsigned_ucast_eq take_bit_nat_eq_self)

lemma unat_ucast_7 [simp]: "unat (ucast (r :: 7 word) :: 64 word) = unat r"
  using unsigned_less [of r, where ?'a = nat] by (simp add: unsigned_ucast_eq take_bit_nat_eq_self)

lemma unat_ucast_to_6: "unat (w :: word64) < 64 \<Longrightarrow> unat (ucast w :: 6 word) = unat w"
  by (simp add: unsigned_ucast_eq take_bit_nat_eq_self)

lemma unat_ucast_to_7: "unat (w :: word64) < 128 \<Longrightarrow> unat (ucast w :: 7 word) = unat w"
  by (simp add: unsigned_ucast_eq take_bit_nat_eq_self)

lemma guard_fits:
  assumes "unat gs < 64"
  shows "unat (x AND mask_bits gs) < 2 ^ unat gs"
  using assms by (simp add: and_mask_bits unsigned_take_bit_eq)

lemma guard_sum:
  "\<not> CNodeCapData_get_guard_size w + ucast (r :: 6 word) > WORD_BITS \<longleftrightarrow>
   unat (CNodeCapData_get_guard_size w) + unat r \<le> 64"
proof -
  have "unat r < 64" using unsigned_less [of r, where ?'a = nat] by simp
  with guard_size_less [of w] have "unat (CNodeCapData_get_guard_size w + ucast r)
      = unat (CNodeCapData_get_guard_size w) + unat r"
    by (simp add: unat_word_ariths)
  then show ?thesis by (simp add: WORD_BITS_def word_less_nat_alt not_less)
qed

text \<open>
  new data never turns a capability into another one.  It is either refused (the null
  capability) or it yields a capability of the same kind for the same object with the same
  authority; a badge can be given only to an unbadged capability, and only outside
  \<^verbatim>\<open>preserve\<close> mode.
\<close>

theorem update_data_keeps_object:
  "update_data c preserve w = cap_null_cap \<or>
   get_tag (update_data c preserve w) = get_tag c \<and>
   get_cap_ptr (update_data c preserve w) = get_cap_ptr c \<and>
   obj_id (update_data c preserve w) = obj_id c \<and>
   cap_auth (update_data c preserve w) = cap_auth c \<and>
   (\<forall>b gr g r s p. c = cap_endpoint_cap b gr g r s p \<longrightarrow> b = 0 \<and> \<not> preserve) \<and>
   (\<forall>b r s p. c = cap_notification_cap b r s p \<longrightarrow> b = 0 \<and> \<not> preserve)"
  by (cases c) (simp_all add: update_data_def arch_updatedata_def Let_def)

theorem update_data_keeps_object_witness:
  "update_data (cap_endpoint_cap 0 True True True True 64) False 9
     = cap_endpoint_cap 9 True True True True 64
   \<and> update_data (cap_endpoint_cap 9 True True True True 64) False 5 = cap_null_cap"
  using update_data_keeps_object [of "cap_endpoint_cap 9 True True True True 64" False 5]
  by (simp add: update_data_def)

lemma update_data_wf:
  assumes "cap_wf c"
  shows "cap_wf (update_data c preserve w)"
proof (cases c)
  case (cap_cnode_cap gd gs rd p)
  then show ?thesis
    using guard_size_less [of w] guard_fits [OF guard_size_less [of w]] guard_sum [of w rd]
    by (auto simp: update_data_def Let_def unat_ucast_to_6)
qed (use assms in \<open>simp_all add: update_data_def arch_updatedata_def\<close>)

lemma mask_cap_rights_wf:
  assumes "cap_wf c"
  obtains c' where "mask_cap_rights R c = Some c'" "cap_wf c'"
proof (cases c)
  case (cap_frame_cap a p sz va r dv)
  with assms obtain v where v: "vm_rights_from_word (ucast r) = Some v"
    using word2_cases [of r] by (auto simp: vm_rights_from_word_2)
  have "vm_rights_word u \<noteq> 2" for u by (cases u) simp_all
  with v cap_frame_cap assms show ?thesis
    by (intro that [of "cap_frame_cap a p sz va (vm_rights_word (maskVMRights v R)) dv"]) simp_all
qed (use assms in \<open>auto intro!: that\<close>)

text \<open>
  C9: minting and mutating keep the field invariant: from a well-formed capability, masking its
  rights does not panic and, followed by any new data, gives a well-formed capability again; in
  particular a CNode capability never ends up translating more than the 64 bits of a word.
\<close>

theorem mint_preserves_wf:
  assumes "cap_wf c"
  shows "\<exists>c'. mask_cap_rights R c = Some c' \<and> cap_wf (update_data c' preserve w)"
  by (rule mask_cap_rights_wf [OF assms, of R]) (blast intro: update_data_wf)

theorem mint_preserves_wf_witness:
  "cap_wf (cap_cnode_cap 5 3 10 4096)
   \<and> (\<exists>c'. mask_cap_rights (cap_rights_of_word 0) (cap_cnode_cap 5 3 10 4096) = Some c'
         \<and> cap_wf (update_data c' True 0x1fffffffffffffff))"
proof -
  have "cap_wf (cap_cnode_cap 5 3 10 4096)" by simp
  with mint_preserves_wf [OF this] show ?thesis by blast
qed

section \<open>The packed identifier of a zombie\<close>

lemma ucast_7_roundtrip: "unat (ty :: word64) < 128 \<Longrightarrow> ucast (ucast ty :: 7 word) = ty"
  by (simp add: word_unat_eq_iff unat_ucast_to_7)

lemma zombie_cnode_small: "unat n < 64 \<Longrightarrow> zombie_type_zombie_cnode n = n"
  by (simp add: zombie_type_zombie_cnode_def and_mask_bits WORD_RADIX_def word_unat_eq_iff
      unsigned_take_bit_eq take_bit_nat_eq_self)

lemma get_zombie_bit_new:
  assumes "unat ty < 63 \<or> ty = ZOMBIE_TYPE_ZOMBIE_TCB"
  shows "get_zombie_bit (zombie_new n ty p) = zombie_radix ty"
proof -
  have *: "unat ty < 128" using assms by (auto simp: ZOMBIE_TYPE_ZOMBIE_TCB_def)
  show ?thesis
    using assms zombie_cnode_small [of ty]
    by (auto simp: get_zombie_bit_def zombie_new_def zombie_radix_def Let_def
        ucast_7_roundtrip [OF *])
qed

lemma split_mask: "((p AND NOT m) OR (n AND m)) AND m = n AND (m :: word64)"
  by (simp add: bit_eq_iff bit_and_iff bit_or_iff bit_not_iff) blast

lemma split_not_mask: "((p AND NOT m) OR (n AND m)) AND NOT m = p AND NOT (m :: word64)"
  by (simp add: bit_eq_iff bit_and_iff bit_or_iff bit_not_iff) blast

lemma zombie_new_mask:
  "zombie_new n ty p =
     cap_zombie_cap ((p AND NOT (mask_bits (zombie_radix ty + 1))) OR
                     (n AND mask_bits (zombie_radix ty + 1))) (ucast ty)"
  by (simp add: zombie_new_def zombie_radix_def Let_def)

lemma zombie_radix_less: "unat ty < 63 \<or> ty = ZOMBIE_TYPE_ZOMBIE_TCB \<Longrightarrow> unat (zombie_radix ty) < 63"
  by (auto simp: zombie_radix_def TCB_CNODE_RADIX_def)

lemma unat_suc: "unat (r :: word64) < 63 \<Longrightarrow> unat (r + 1) = Suc (unat r)"
  by (simp add: unat_word_ariths)

lemma number_fits:
  assumes "unat r < 63" "unat n < 2 ^ Suc (unat r)"
  shows "n AND mask_bits (r + 1) = n"
  using assms by (simp add: and_mask_bits unat_suc word_unat_eq_iff unsigned_take_bit_eq take_bit_nat_eq_self)

lemma aligned_keeps:
  assumes "is_aligned p b"
  shows "p AND NOT (mask_bits b) = p"
  using assms unfolding is_aligned_def by (auto simp: bit_eq_iff bit_and_iff bit_not_iff)

lemma zombie_new_fields:
  assumes ty: "unat ty < 63 \<or> ty = ZOMBIE_TYPE_ZOMBIE_TCB"
  shows "get_zombie_number (zombie_new n ty p) = n AND mask_bits (zombie_radix ty + 1)"
    and "get_zombie_ptr (zombie_new n ty p) = p AND NOT (mask_bits (zombie_radix ty + 1))"
    and "set_zombie_number (zombie_new n ty p) m = zombie_new m ty p"
  using get_zombie_bit_new [OF ty, of n p]
  by (simp_all add: get_zombie_number_def get_zombie_ptr_def set_zombie_number_def Let_def
      zombie_new_mask split_mask split_not_mask)

text \<open>
  C10: the identifier of a zombie packs the address of its slot table and the number of slots
  still to delete.  For a table aligned to twice its slot count, both come back out unchanged,
  and setting the number changes nothing else.
\<close>

theorem zombie_roundtrip:
  assumes ty: "unat ty < 63 \<or> ty = ZOMBIE_TYPE_ZOMBIE_TCB"
    and n: "unat n < 2 ^ Suc (unat (zombie_radix ty))"
    and p: "is_aligned p (zombie_radix ty + 1)"
    and m: "unat m < 2 ^ Suc (unat (zombie_radix ty))"
  shows "get_zombie_number (zombie_new n ty p) = n
       \<and> get_zombie_ptr (zombie_new n ty p) = p
       \<and> set_zombie_number (zombie_new n ty p) m = zombie_new m ty p"
  by (simp add: zombie_new_fields [OF ty] number_fits [OF zombie_radix_less [OF ty] n]
      aligned_keeps [OF p])

theorem zombie_roundtrip_witness:
  "get_zombie_number (zombie_new 16 4 0xffffff8000001000) = 16
   \<and> get_zombie_ptr (zombie_new 16 4 0xffffff8000001000) = 0xffffff8000001000
   \<and> set_zombie_number (zombie_new 16 4 0xffffff8000001000) 15 = zombie_new 15 4 0xffffff8000001000"
  by (rule zombie_roundtrip)
    (simp_all add: zombie_radix_def ZOMBIE_TYPE_ZOMBIE_TCB_def is_aligned_def mask_bits_def)

lemma zombie_new_wf:
  assumes ty: "unat ty < 63 \<or> ty = ZOMBIE_TYPE_ZOMBIE_TCB"
    and n: "unat n \<le> 2 ^ unat (zombie_radix ty)"
  shows "cap_wf (zombie_new n ty p)"
proof -
  have t: "unat (ucast ty :: 7 word) = unat ty"
    using ty by (intro unat_ucast_to_7) (auto simp: ZOMBIE_TYPE_ZOMBIE_TCB_def)
  have "unat n < 2 ^ Suc (unat (zombie_radix ty))"
    using n by (rule le_less_trans) simp
  then have "n AND mask_bits (zombie_radix ty + 1) = n"
    by (rule number_fits [OF zombie_radix_less [OF ty]])
  then have "unat (get_zombie_number (zombie_new n ty p)) \<le> 2 ^ unat (get_zombie_bit (zombie_new n ty p))"
    using n by (simp add: zombie_new_fields [OF ty] get_zombie_bit_new [OF ty])
  then show ?thesis
    using ty t by (auto simp: zombie_new_mask ZOMBIE_TYPE_ZOMBIE_TCB_def)
qed

section \<open>Objects and regions\<close>

lemma same_object_as_obj_id:
  "same_object_as a b = Some (obj_id a \<noteq> None \<and> obj_id a = obj_id b)"
  by (cases a; cases b; simp add: same_object_as_def same_tag_and_ptr_def arch_same_object_as_def
      arch_same_region_as_def)

text \<open>
  C11: \<open>same_object_as\<close> never panics and decides exactly whether both capabilities designate the
  same kernel object; it is therefore symmetric and transitive, which is what lets a slot find out
  from its two neighbours alone whether it holds the last capability to an object.
\<close>

theorem same_object_as_spec:
  "same_object_as a b = Some (obj_id a \<noteq> None \<and> obj_id a = obj_id b)"
  by (rule same_object_as_obj_id)

lemma unat_top:
  assumes "unat b < 64" "unat p + 2 ^ unat b \<le> 2 ^ 64"
  shows "unat (p + mask_bits b) = unat p + (2 ^ unat b - 1)"
proof -
  have "unat p + (2 ^ unat b - 1) < 2 ^ 64" using assms(2) zero_less_power [of "2 :: nat" "unat b"] by linarith
  with unat_mask_bits [OF assms(1)] show ?thesis by (simp add: unat_word_ariths)
qed

lemma interval_incl:
  fixes a b i j :: nat
  assumes "0 < i" "0 < j"
  shows "{b ..< b + j} \<subseteq> {a ..< a + i} \<longleftrightarrow> a \<le> b \<and> b + (j - 1) \<le> a + (i - 1)"
proof
  assume *: "{b ..< b + j} \<subseteq> {a ..< a + i}"
  have "b \<in> {b ..< b + j}" "b + (j - 1) \<in> {b ..< b + j}" using assms by auto
  with * have "b \<in> {a ..< a + i}" "b + (j - 1) \<in> {a ..< a + i}" by blast+
  then show "a \<le> b \<and> b + (j - 1) \<le> a + (i - 1)" by auto
qed (use assms in auto)

text \<open>
  for regions that do not wrap around the address space, an untyped capability is found to
  cover another physical capability exactly when the memory region of the latter lies inside its
  own.
\<close>

theorem same_region_as_untyped:
  assumes "region_fits (cap_untyped_cap fi dv bs p)" "region_fits c" "get_cap_is_physical c"
  shows "same_region_as (cap_untyped_cap fi dv bs p) c =
           Some (cap_region c \<subseteq> cap_region (cap_untyped_cap fi dv bs p))"
proof -
  have a: "unat (p + mask_bits (ucast bs)) = unat p + (2 ^ unat bs - 1)"
    using assms(1) unat_top [of "ucast bs" p] by (simp add: region_fits_def)
  have b: "unat (get_cap_ptr c + mask_bits (get_cap_size_bits c))
      = unat (get_cap_ptr c) + (2 ^ unat (get_cap_size_bits c) - 1)"
    using assms(2) by (intro unat_top) (simp_all add: region_fits_def)
  obtain i where i: "(2 :: nat) ^ unat bs = Suc i"
    by (metis not0_implies_Suc power_not_zero zero_neq_numeral)
  obtain j where j: "(2 :: nat) ^ unat (get_cap_size_bits c) = Suc j"
    by (metis not0_implies_Suc power_not_zero zero_neq_numeral)
  show ?thesis
    using assms(3) by (auto simp: Let_def word_le_nat_alt a b cap_region_def interval_incl i j)
qed

theorem same_region_as_untyped_witness:
  "same_region_as (cap_untyped_cap 0 False 12 0x1000) (cap_endpoint_cap 0 True True True True 0x1ff0)
     = Some (cap_region (cap_endpoint_cap 0 True True True True 0x1ff0)
               \<subseteq> cap_region (cap_untyped_cap 0 False 12 0x1000))"
  by (rule same_region_as_untyped) (simp_all add: region_fits_def SEL4_ENDPOINT_BITS_def)

end
