(* ===== verification/CSpace.thy ===== *)
theory CSpace
  imports Capability
begin

text \<open>
  Capability slots and the mapping database: \<^verbatim>\<open>sel4_cspace/src/cte.rs\<close>.  The slots live in a heap
  \<open>ptr \<Rightarrow> cte_t\<close>; an operation of the code that takes \<^verbatim>\<open>&mut cte_t\<close> takes the address of the slot
  here and returns the updated heap.  The mapping database is the set of doubly linked chains
  threaded through the slots; the main lemmas say what each operation does to these chains as
  lists, under the invariant \<open>mdb_inv\<close> (every occupied slot is on exactly one chain, every empty
  slot has cleared links).  Slot deletion that reaches into the rest of the kernel
  (\<^verbatim>\<open>finalise\<close>, \<^verbatim>\<open>delete_all\<close>, \<^verbatim>\<open>revoke\<close>) is in theory \<open>Finalise\<close>; address resolution is in theory
  \<open>CSpaceLookup\<close>.
\<close>

section \<open>Slots\<close>

record mdb_node =
  mdbNext :: ptr
  mdbRevocable :: bool
  mdbFirstBadged :: bool
  mdbPrev :: ptr

record cte_t =
  capability :: cap
  cteMDBNode :: mdb_node

type_synonym cte_heap = "ptr \<Rightarrow> cte_t"

definition mdb_node_new :: "ptr \<Rightarrow> bool \<Rightarrow> bool \<Rightarrow> ptr \<Rightarrow> mdb_node" where
  "mdb_node_new next revocable firstBadged prev =
     \<lparr> mdbNext = next, mdbRevocable = revocable, mdbFirstBadged = firstBadged, mdbPrev = prev \<rparr>"

abbreviation null_mdb :: mdb_node where
  "null_mdb \<equiv> mdb_node_new 0 False False 0"

definition set_capability :: "ptr \<Rightarrow> cap \<Rightarrow> cte_heap \<Rightarrow> cte_heap" where
  "set_capability p c h = h(p := (h p)\<lparr> capability := c \<rparr>)"

definition set_mdb :: "ptr \<Rightarrow> mdb_node \<Rightarrow> cte_heap \<Rightarrow> cte_heap" where
  "set_mdb p n h = h(p := (h p)\<lparr> cteMDBNode := n \<rparr>)"

definition set_mdbNext :: "ptr \<Rightarrow> ptr \<Rightarrow> cte_heap \<Rightarrow> cte_heap" where
  "set_mdbNext p v h = set_mdb p ((cteMDBNode (h p))\<lparr> mdbNext := v \<rparr>) h"

definition set_mdbPrev :: "ptr \<Rightarrow> ptr \<Rightarrow> cte_heap \<Rightarrow> cte_heap" where
  "set_mdbPrev p v h = set_mdb p ((cteMDBNode (h p))\<lparr> mdbPrev := v \<rparr>) h"

definition set_mdbFirstBadged :: "ptr \<Rightarrow> bool \<Rightarrow> cte_heap \<Rightarrow> cte_heap" where
  "set_mdbFirstBadged p v h = set_mdb p ((cteMDBNode (h p))\<lparr> mdbFirstBadged := v \<rparr>) h"

definition get_offset_slot :: "ptr \<Rightarrow> word64 \<Rightarrow> ptr option" where
  "get_offset_slot slot index = convert_to_mut_type_ref (slot + 32 * index)"

section \<open>Derivation\<close>

definition is_mdb_parent_of :: "cte_heap \<Rightarrow> ptr \<Rightarrow> ptr \<Rightarrow> bool option" where
  "is_mdb_parent_of h this next =
    (if \<not> mdbRevocable (cteMDBNode (h this)) then Some False
     else do {
       same \<leftarrow> same_region_as (capability (h this)) (capability (h next));
       if \<not> same then Some False
       else case capability (h this) of
         cap_endpoint_cap badge _ _ _ _ _ \<Rightarrow> (case capability (h next) of
           cap_endpoint_cap badge' _ _ _ _ _ \<Rightarrow>
             Some (if badge = 0 then True
                   else badge = badge' \<and> \<not> mdbFirstBadged (cteMDBNode (h next)))
         | _ \<Rightarrow> None)
       | cap_notification_cap badge _ _ _ \<Rightarrow> (case capability (h next) of
           cap_notification_cap badge' _ _ _ \<Rightarrow>
             Some (if badge = 0 then True
                   else badge = badge' \<and> \<not> mdbFirstBadged (cteMDBNode (h next)))
         | _ \<Rightarrow> None)
       | _ \<Rightarrow> Some True })"

definition ensure_no_children :: "cte_heap \<Rightarrow> ptr \<Rightarrow> exception_t option" where
  "ensure_no_children h this =
    (if mdbNext (cteMDBNode (h this)) \<noteq> 0 then do {
       next \<leftarrow> convert_to_mut_type_ref (mdbNext (cteMDBNode (h this)));
       par \<leftarrow> is_mdb_parent_of h this next;
       Some (if par then EXCEPTION_SYSCALL_ERROR else EXCEPTION_NONE) }
     else Some EXCEPTION_NONE)"

definition derive_cap :: "cte_heap \<Rightarrow> ptr \<Rightarrow> cap \<Rightarrow> deriveCap_ret option" where
  "derive_cap h this c =
    (if is_arch_cap c then arch_derive_cap c
     else case c of
       cap_zombie_cap _ _ \<Rightarrow> Some \<lparr> dc_status = EXCEPTION_NONE, dc_capability = cap_null_cap \<rparr>
     | cap_untyped_cap _ _ _ _ \<Rightarrow> do {
         st \<leftarrow> ensure_no_children h this;
         Some (if st \<noteq> EXCEPTION_NONE then \<lparr> dc_status = st, dc_capability = cap_null_cap \<rparr>
               else \<lparr> dc_status = st, dc_capability = c \<rparr>) }
     | cap_reply_cap _ _ _ \<Rightarrow> Some \<lparr> dc_status = EXCEPTION_NONE, dc_capability = cap_null_cap \<rparr>
     | cap_irq_control_cap \<Rightarrow> Some \<lparr> dc_status = EXCEPTION_NONE, dc_capability = cap_null_cap \<rparr>
     | _ \<Rightarrow> Some \<lparr> dc_status = EXCEPTION_NONE, dc_capability = c \<rparr>)"

definition is_final_cap :: "cte_heap \<Rightarrow> ptr \<Rightarrow> bool option" where
  "is_final_cap h this = do {
     let mdb = cteMDBNode (h this);
     prev_is_same_obj \<leftarrow>
       (if mdbPrev mdb = 0 then Some False
        else do { prev \<leftarrow> convert_to_mut_type_ref (mdbPrev mdb);
                  same_object_as (capability (h prev)) (capability (h this)) });
     if prev_is_same_obj then Some False
     else if mdbNext mdb = 0 then Some True
     else do {
       next \<leftarrow> convert_to_mut_type_ref (mdbNext mdb);
       same \<leftarrow> same_object_as (capability (h this)) (capability (h next));
       Some (\<not> same) } }"

definition is_long_running_delete :: "cte_heap \<Rightarrow> ptr \<Rightarrow> bool option" where
  "is_long_running_delete h this =
    (if capability (h this) = cap_null_cap then Some False
     else do {
       final \<leftarrow> is_final_cap h this;
       if \<not> final then Some False
       else Some (case capability (h this) of
           cap_thread_cap _ \<Rightarrow> True | cap_zombie_cap _ _ \<Rightarrow> True | cap_cnode_cap _ _ _ _ \<Rightarrow> True
         | _ \<Rightarrow> False) })"

definition cap_removable :: "cap \<Rightarrow> ptr \<Rightarrow> bool option" where
  "cap_removable c slot = (case c of
     cap_null_cap \<Rightarrow> Some True
   | cap_zombie_cap _ _ \<Rightarrow>
       (let n = get_zombie_number c; z_slot = get_zombie_ptr c in
        Some (n = 0 \<or> n = 1 \<and> slot = z_slot))
   | _ \<Rightarrow> None)"

section \<open>Updates of the mapping database\<close>

definition set_capFreeIndex :: "word64 \<Rightarrow> cap \<Rightarrow> cap" where
  "set_capFreeIndex v c = cap_untyped_cap (ucast v) (capIsDevice c) (capBlockSize c) (capPtr c)"

definition set_untyped_cap_as_full :: "cap \<Rightarrow> cap \<Rightarrow> ptr \<Rightarrow> cte_heap \<Rightarrow> cte_heap option" where
  "set_untyped_cap_as_full srcCap newCap srcSlot h =
    (if is_cap_untyped_cap srcCap \<and> is_cap_untyped_cap newCap then do {
       kassert (is_cap_untyped_cap (capability (h srcSlot)));
       Some (if capPtr srcCap = capPtr newCap \<and> capBlockSize srcCap = capBlockSize newCap then
               set_capability srcSlot
                 (set_capFreeIndex (max_free_index (ucast (capBlockSize srcCap)))
                   (capability (h srcSlot))) h
             else h) }
     else Some h)"

definition cte_insert :: "cap \<Rightarrow> ptr \<Rightarrow> ptr \<Rightarrow> cte_heap \<Rightarrow> cte_heap option" where
  "cte_insert new_cap src_slot dest_slot h = do {
     let srcMDB = cteMDBNode (h src_slot);
     let srcCap = capability (h src_slot);
     newCapIsRevocable \<leftarrow> is_cap_revocable new_cap srcCap;
     let newMDB = srcMDB\<lparr> mdbPrev := src_slot, mdbRevocable := newCapIsRevocable,
                          mdbFirstBadged := newCapIsRevocable \<rparr>;
     kassert (capability (h dest_slot) = cap_null_cap);
     kassert (mdbNext (cteMDBNode (h dest_slot)) = 0 \<and> mdbPrev (cteMDBNode (h dest_slot)) = 0);
     h \<leftarrow> set_untyped_cap_as_full srcCap new_cap src_slot h;
     let h = set_capability dest_slot new_cap h;
     let h = set_mdb dest_slot newMDB h;
     let h = set_mdbNext src_slot dest_slot h;
     if mdbNext newMDB \<noteq> 0 then do {
       cte_ref \<leftarrow> convert_to_mut_type_ref (mdbNext newMDB);
       Some (set_mdbPrev cte_ref dest_slot h) }
     else Some h }"

definition insert_new_cap :: "ptr \<Rightarrow> ptr \<Rightarrow> cap \<Rightarrow> cte_heap \<Rightarrow> cte_heap option" where
  "insert_new_cap parent slot c h = do {
     let next = mdbNext (cteMDBNode (h parent));
     let h = set_capability slot c h;
     let h = set_mdb slot (mdb_node_new next True True parent) h;
     h \<leftarrow> (if next \<noteq> 0 then do {
             next_ref \<leftarrow> convert_to_mut_type_ref next;
             Some (set_mdbPrev next_ref slot h) }
           else Some h);
     Some (set_mdbNext parent slot h) }"

definition cte_move :: "cap \<Rightarrow> ptr \<Rightarrow> ptr \<Rightarrow> cte_heap \<Rightarrow> cte_heap option" where
  "cte_move new_cap src_slot dest_slot h = do {
     kassert (capability (h dest_slot) = cap_null_cap);
     kassert (mdbNext (cteMDBNode (h dest_slot)) = 0 \<and> mdbPrev (cteMDBNode (h dest_slot)) = 0);
     let mdb = cteMDBNode (h src_slot);
     let h = set_capability dest_slot new_cap h;
     let h = set_capability src_slot cap_null_cap h;
     let h = set_mdb dest_slot mdb h;
     let h = set_mdb src_slot (mdb_node_new 0 False False 0) h;
     let h = (if mdbPrev mdb \<noteq> 0 then set_mdbNext (mdbPrev mdb) dest_slot h else h);
     let h = (if mdbNext mdb \<noteq> 0 then set_mdbPrev (mdbNext mdb) dest_slot h else h);
     Some h }"

definition cte_swap :: "cap \<Rightarrow> ptr \<Rightarrow> cap \<Rightarrow> ptr \<Rightarrow> cte_heap \<Rightarrow> cte_heap" where
  "cte_swap cap1 slot1 cap2 slot2 h =
    (let mdb1 = cteMDBNode (h slot1);
         mdb2 = cteMDBNode (h slot2);
         h = (if mdbPrev mdb1 \<noteq> 0 then set_mdbNext (mdbPrev mdb1) slot2 h else h);
         h = (if mdbNext mdb1 \<noteq> 0 then set_mdbPrev (mdbNext mdb1) slot2 h else h);
         h = set_capability slot1 cap2 h;
         h = set_capability slot2 cap1 h;
         h = set_mdb slot1 mdb2 h;
         h = set_mdb slot2 mdb1 h;
         h = (if mdbPrev mdb2 \<noteq> 0 then set_mdbNext (mdbPrev mdb2) slot1 h else h);
         h = (if mdbNext mdb2 \<noteq> 0 then set_mdbPrev (mdbNext mdb2) slot1 h else h)
     in h)"

text \<open>
  The part of \<^verbatim>\<open>set_empty\<close> that works on the slots; the whole method, with the clean-up of the
  deleted capability, is \<open>set_empty\<close> in theory \<open>Finalise\<close>.
\<close>

definition empty_slot :: "ptr \<Rightarrow> cte_heap \<Rightarrow> cte_heap" where
  "empty_slot this h =
    (if capability (h this) \<noteq> cap_null_cap then
       let mdb = cteMDBNode (h this);
           prev_addr = mdbPrev mdb;
           next_addr = mdbNext mdb;
           h = (if prev_addr \<noteq> 0 then set_mdbNext prev_addr next_addr h else h);
           h = (if next_addr \<noteq> 0 then
                  let h = set_mdbPrev next_addr prev_addr h;
                      first_badged = (mdbFirstBadged (cteMDBNode (h next_addr)) \<or>
                                      mdbFirstBadged (cteMDBNode (h this)))
                  in set_mdbFirstBadged next_addr first_badged h
                else h);
           h = set_capability this cap_null_cap h
       in set_mdb this (mdb_node_new 0 False False 0) h
     else h)"

section \<open>The chains of the mapping database\<close>

definition mdb_nx :: "cte_heap \<Rightarrow> ptr \<Rightarrow> ptr" where
  "mdb_nx h p = mdbNext (cteMDBNode (h p))"

definition mdb_pv :: "cte_heap \<Rightarrow> ptr \<Rightarrow> ptr" where
  "mdb_pv h p = mdbPrev (cteMDBNode (h p))"

definition mdb_inv :: "cte_heap \<Rightarrow> ptr list list \<Rightarrow> bool" where
  "mdb_inv h cs \<longleftrightarrow>
     (\<forall>c \<in> set cs. dll (mdb_nx h) (mdb_pv h) c) \<and> distinct (concat cs) \<and>
     (\<forall>p. p \<in> set (concat cs) \<longleftrightarrow> capability (h p) \<noteq> cap_null_cap) \<and>
     (\<forall>p. capability (h p) = cap_null_cap \<longrightarrow> mdb_nx h p = 0 \<and> mdb_pv h p = 0)"

definition swap_ptr :: "ptr \<Rightarrow> ptr \<Rightarrow> ptr \<Rightarrow> ptr" where
  "swap_ptr a b p = (if p = a then b else if p = b then a else p)"

text \<open>
  Capabilities to the same object are neighbours on one chain: what \<open>is_final_cap\<close> relies on when
  it looks at the two neighbours of a slot only.
\<close>

definition mdb_contiguous :: "cte_heap \<Rightarrow> ptr list list \<Rightarrow> bool" where
  "mdb_contiguous h cs \<longleftrightarrow>
     (\<forall>c \<in> set cs. \<forall>as x bs y ds. c = as @ x # bs @ y # ds \<longrightarrow>
        obj_id (capability (h x)) = obj_id (capability (h y)) \<longrightarrow>
        (\<forall>z \<in> set bs. obj_id (capability (h z)) = obj_id (capability (h x)))) \<and>
     (\<forall>c \<in> set cs. \<forall>d \<in> set cs. \<forall>x \<in> set c. \<forall>y \<in> set d.
        obj_id (capability (h x)) = obj_id (capability (h y)) \<longrightarrow>
        obj_id (capability (h x)) \<noteq> None \<longrightarrow> c = d)"

definition empty_cte :: cte_t where
  "empty_cte = \<lparr> capability = cap_null_cap, cteMDBNode = null_mdb \<rparr>"

definition sample_heap :: cte_heap where
  "sample_heap = (\<lambda>_. empty_cte)
     (32 := \<lparr> capability = cap_untyped_cap 0 False 12 0x1000,
              cteMDBNode = mdb_node_new 64 True False 0 \<rparr>,
      64 := \<lparr> capability = cap_endpoint_cap 0 True True True True 0x1000,
              cteMDBNode = mdb_node_new 96 True True 32 \<rparr>,
      96 := \<lparr> capability = cap_thread_cap 0x1800,
              cteMDBNode = mdb_node_new 0 True True 64 \<rparr>)"

lemma mdb_links [simp]:
  "mdb_nx (set_capability p c h) = mdb_nx h"
  "mdb_pv (set_capability p c h) = mdb_pv h"
  "mdb_nx (set_mdb p n h) = (mdb_nx h)(p := mdbNext n)"
  "mdb_pv (set_mdb p n h) = (mdb_pv h)(p := mdbPrev n)"
  "mdb_nx (set_mdbFirstBadged p b h) = mdb_nx h"
  "mdb_pv (set_mdbFirstBadged p b h) = mdb_pv h"
  by (auto simp: mdb_nx_def mdb_pv_def set_capability_def set_mdb_def set_mdbFirstBadged_def)

lemma capability_set [simp]:
  "capability (set_capability p c h q) = (if q = p then c else capability (h q))"
  "capability (set_mdb p n h q) = capability (h q)"
  "capability (set_mdbNext p v h q) = capability (h q)"
  "capability (set_mdbPrev p v h q) = capability (h q)"
  "capability (set_mdbFirstBadged p b h q) = capability (h q)"
  by (auto simp: set_capability_def set_mdb_def set_mdbNext_def set_mdbPrev_def
      set_mdbFirstBadged_def)

lemma cteMDBNode_set [simp]:
  "cteMDBNode (set_capability p c h q) = cteMDBNode (h q)"
  "cteMDBNode (set_mdb p n h q) = (if q = p then n else cteMDBNode (h q))"
  by (auto simp: set_capability_def set_mdb_def)

interpretation mdb: link_heap mdb_nx mdb_pv set_mdbNext set_mdbPrev
  by unfold_locales (auto simp: mdb_nx_def mdb_pv_def set_mdbNext_def set_mdbPrev_def set_mdb_def)

lemmas mdb_laws [simp] = mdb.link_laws

lemma mdb_node_new_sel [simp]:
  "mdbNext (mdb_node_new n r f p) = n" "mdbPrev (mdb_node_new n r f p) = p"
  "mdbRevocable (mdb_node_new n r f p) = r" "mdbFirstBadged (mdb_node_new n r f p) = f"
  by (simp_all add: mdb_node_new_def)

lemma mdb_inv_dll: "mdb_inv h (cs1 @ c # cs2) \<Longrightarrow> dll (mdb_nx h) (mdb_pv h) c"
  by (simp add: mdb_inv_def)

lemma mdb_inv_empty:
  "mdb_inv h cs \<Longrightarrow> capability (h p) = cap_null_cap \<Longrightarrow> mdb_nx h p = 0 \<and> mdb_pv h p = 0"
  by (simp add: mdb_inv_def)

lemma mdb_inv_null_notin:
  "mdb_inv h (cs1 @ c # cs2) \<Longrightarrow> capability (h p) = cap_null_cap \<Longrightarrow> p \<notin> set c"
  unfolding mdb_inv_def by auto

lemma mdb_inv_in_cap:
  "mdb_inv h (cs1 @ c # cs2) \<Longrightarrow> p \<in> set c \<Longrightarrow> capability (h p) \<noteq> cap_null_cap"
  unfolding mdb_inv_def by auto

lemma mdb_inv_replace:
  assumes inv: "mdb_inv h (cs1 @ c # cs2)"
    and dll: "dll (mdb_nx h') (mdb_pv h') c'"
    and frame: "\<And>p. p \<notin> set c \<Longrightarrow> p \<notin> set c' \<Longrightarrow>
        mdb_nx h' p = mdb_nx h p \<and> mdb_pv h' p = mdb_pv h p \<and>
        (capability (h' p) = cap_null_cap \<longleftrightarrow> capability (h p) = cap_null_cap)"
    and new: "\<And>p. p \<in> set c' \<Longrightarrow>
        capability (h' p) \<noteq> cap_null_cap \<and> (p \<in> set c \<or> capability (h p) = cap_null_cap)"
    and gone: "\<And>p. p \<in> set c \<Longrightarrow> p \<notin> set c' \<Longrightarrow>
        capability (h' p) = cap_null_cap \<and> mdb_nx h' p = 0 \<and> mdb_pv h' p = 0"
  shows "mdb_inv h' (cs1 @ c' # cs2)"
proof -
  let ?rest = "concat cs1 @ concat cs2"
  have all: "\<And>d. d \<in> set (cs1 @ c # cs2) \<Longrightarrow> dll (mdb_nx h) (mdb_pv h) d"
      "distinct (concat (cs1 @ c # cs2))"
      "\<And>p. p \<in> set (concat (cs1 @ c # cs2)) \<longleftrightarrow> capability (h p) \<noteq> cap_null_cap"
    using inv unfolding mdb_inv_def by blast+
  have "p \<in> set (concat (cs1 @ c # cs2)) \<longleftrightarrow> p \<in> set ?rest \<or> p \<in> set c" for p
    by auto
  with all(3) have member: "p \<in> set ?rest \<or> p \<in> set c \<longleftrightarrow> capability (h p) \<noteq> cap_null_cap" for p
    by metis
  have dist: "distinct (concat cs1)" "distinct (concat cs2)"
      "set (concat cs1) \<inter> set (concat cs2) = {}" "set ?rest \<inter> set c = {}"
    using all(2) by auto
  have rest: "p \<notin> set c \<and> p \<notin> set c' \<and> capability (h p) \<noteq> cap_null_cap" if "p \<in> set ?rest" for p
    using that dist(4) new [of p] member [of p] by blast
  have others: "dll (mdb_nx h') (mdb_pv h') d" if d: "d \<in> set cs1 \<union> set cs2" for d
  proof -
    have "mdb_nx h' p = mdb_nx h p \<and> mdb_pv h' p = mdb_pv h p" if "p \<in> set d" for p
    proof -
      have "p \<in> set ?rest" using that d by auto
      then show ?thesis using frame rest by blast
    qed
    from dll_cong [OF this] show ?thesis
      using d all(1) [of d] by auto
  qed
  have disj: "set ?rest \<inter> set c' = {}"
    using rest by blast
  have member': "p \<in> set ?rest \<or> p \<in> set c' \<longleftrightarrow> capability (h' p) \<noteq> cap_null_cap" for p
    using member [of p] new [of p] gone [of p] frame [of p] rest [of p]
    by blast
  show ?thesis
    unfolding mdb_inv_def
  proof (intro conjI allI impI ballI)
    show "distinct (concat (cs1 @ c' # cs2))"
      using dist disj dll_distinct [OF dll] by auto
    have "p \<in> set (concat (cs1 @ c' # cs2)) \<longleftrightarrow> p \<in> set ?rest \<or> p \<in> set c'" for p
      by auto
    with member' show "p \<in> set (concat (cs1 @ c' # cs2)) \<longleftrightarrow> capability (h' p) \<noteq> cap_null_cap" for p
      by metis
    show "mdb_nx h' p = 0" "mdb_pv h' p = 0" if "capability (h' p) = cap_null_cap" for p
      using that frame [of p] gone [of p] new [of p] mdb_inv_empty [OF inv, of p]
      by (cases "p \<in> set c"; cases "p \<in> set c'"; simp)+
  qed (use others dll in auto)
qed

lemma set_other [simp]:
  "q \<noteq> p \<Longrightarrow> set_capability p c h q = h q" "q \<noteq> p \<Longrightarrow> set_mdb p n h q = h q"
  "q \<noteq> p \<Longrightarrow> set_mdbNext p v h q = h q" "q \<noteq> p \<Longrightarrow> set_mdbPrev p v h q = h q"
  "q \<noteq> p \<Longrightarrow> set_mdbFirstBadged p b h q = h q"
  by (simp_all add: set_capability_def set_mdb_def set_mdbNext_def set_mdbPrev_def
      set_mdbFirstBadged_def)

lemma as_full_cases:
  assumes "set_untyped_cap_as_full srcCap newCap p h = Some h'"
  shows "h' = h \<or> (\<exists>c. c \<noteq> cap_null_cap \<and> capability (h p) \<noteq> cap_null_cap \<and> h' = set_capability p c h)"
proof (cases "is_cap_untyped_cap srcCap \<and> is_cap_untyped_cap newCap")
  case True
  then have "is_cap_untyped_cap (capability (h p))" using assms by (simp add: set_untyped_cap_as_full_def)
  then have "capability (h p) \<noteq> cap_null_cap" by (metis cap.disc(1))
  with True assms show ?thesis
    by (cases "capPtr srcCap = capPtr newCap \<and> capBlockSize srcCap = capBlockSize newCap")
     (auto simp: set_untyped_cap_as_full_def set_capFreeIndex_def)
next
  case False
  then have "set_untyped_cap_as_full srcCap newCap p h = Some h"
    unfolding set_untyped_cap_as_full_def by (rule if_not_P)
  with assms show ?thesis by simp
qed
lemma as_full_links:
  assumes "set_untyped_cap_as_full srcCap newCap p h = Some h'"
  shows "mdb_nx h' = mdb_nx h \<and> mdb_pv h' = mdb_pv h \<and> (\<forall>q. q \<noteq> p \<longrightarrow> h' q = h q)
     \<and> cteMDBNode (h' p) = cteMDBNode (h p)
     \<and> (capability (h' p) = cap_null_cap \<longleftrightarrow> capability (h p) = cap_null_cap)"
  using as_full_cases [OF assms] by fastforce
lemma as_full_Some:
  assumes "capability (h p) = srcCap"
  shows "\<exists>h'. set_untyped_cap_as_full srcCap newCap p h = Some h'"
  using assms by (simp add: set_untyped_cap_as_full_def)

lemma mdb_insert_after:
  assumes inv: "mdb_inv h (cs1 @ (as @ src # bs) # cs2)"
    and dest: "capability (h dest) = cap_null_cap" "dest \<noteq> 0"
    and nx: "mdb_nx h' = (mdb_nx h)(dest := mdb_nx h src, src := dest)"
    and pv: "mdb_pv h' = (if mdb_nx h src \<noteq> 0 then (mdb_pv h)(dest := src, mdb_nx h src := dest)
                          else (mdb_pv h)(dest := src))"
    and caps: "\<And>p. p \<noteq> dest \<Longrightarrow>
        capability (h' p) = cap_null_cap \<longleftrightarrow> capability (h p) = cap_null_cap"
      "capability (h' dest) \<noteq> cap_null_cap"
  shows "mdb_inv h' (cs1 @ (as @ src # dest # bs) # cs2)"
proof (rule mdb_inv_replace [OF inv])
  note chain = mdb_inv_dll [OF inv]
  note mid = dll_middle [OF chain] and ends = dll_ends [OF chain]
  have dest_out: "dest \<notin> set (as @ src # bs)"
    by (rule mdb_inv_null_notin [OF inv dest(1)])
  have "dll (mdb_nx h') (mdb_pv h') ((as @ [src]) @ dest # bs)"
  proof (rule dll_insert [of "mdb_nx h" "mdb_pv h"])
    show "dll (mdb_nx h) (mdb_pv h) ((as @ [src]) @ bs)" using chain by simp
    show "mdb_pv h' dest = last_of 0 (as @ [src])"
      using pv mid ends(1,3) dest_out by (cases "bs = []") auto
    show "bs \<noteq> [] \<Longrightarrow> mdb_pv h' (first_of bs 0) = dest"
      using pv mid ends(1) by simp
  qed (use dest_out dest nx pv mid in auto)
  then show "dll (mdb_nx h') (mdb_pv h') (as @ src # dest # bs)" by simp
  show "mdb_nx h' p = mdb_nx h p \<and> mdb_pv h' p = mdb_pv h p \<and>
      (capability (h' p) = cap_null_cap \<longleftrightarrow> capability (h p) = cap_null_cap)"
    if "p \<notin> set (as @ src # bs)" "p \<notin> set (as @ src # dest # bs)" for p
    using that nx pv caps mid ends(1,3) by (cases "bs = []") auto
  show "capability (h' p) \<noteq> cap_null_cap \<and>
      (p \<in> set (as @ src # bs) \<or> capability (h p) = cap_null_cap)"
    if "p \<in> set (as @ src # dest # bs)" for p
    using that caps dest mdb_inv_in_cap [OF inv, of p] by (cases "p = dest") auto
qed auto

lemma cte_insert_chain:
  assumes inv: "mdb_inv h (cs1 @ (as @ src # bs) # cs2)"
    and new: "new_cap \<noteq> cap_null_cap" and dest: "capability (h dest) = cap_null_cap" "dest \<noteq> 0"
    and rev: "is_cap_revocable new_cap (capability (h src)) = Some r"
  shows "\<exists>h'. cte_insert new_cap src dest h = Some h'
     \<and> mdb_inv h' (cs1 @ (as @ src # dest # bs) # cs2)
     \<and> capability (h' dest) = new_cap
     \<and> mdbRevocable (cteMDBNode (h' dest)) = r"
proof -
  have dest_src: "dest \<noteq> src"
    using mdb_inv_null_notin [OF inv dest(1)] by simp
  have dest_links: "mdbNext (cteMDBNode (h dest)) = 0" "mdbPrev (cteMDBNode (h dest)) = 0"
    using mdb_inv_empty [OF inv dest(1)] by (simp_all add: mdb_nx_def mdb_pv_def)
  obtain h1 where h1: "set_untyped_cap_as_full (capability (h src)) new_cap src h = Some h1"
    using as_full_Some by blast
  note full = as_full_links [OF h1]
  define n where "n = mdb_nx h src"
  define h2 where "h2 = set_mdbNext src dest (set_mdb dest ((cteMDBNode (h src))\<lparr> mdbPrev := src,
      mdbRevocable := r, mdbFirstBadged := r \<rparr>) (set_capability dest new_cap h1))"
  define h3 where "h3 = (if n \<noteq> 0 then set_mdbPrev n dest h2 else h2)"
  have run: "cte_insert new_cap src dest h = Some h3"
    using rev dest h1 dest_links
    by (simp add: cte_insert_def Let_def h3_def h2_def n_def mdb_nx_def)
  have "mdb_inv h3 (cs1 @ (as @ src # dest # bs) # cs2)"
    by (rule mdb_insert_after [OF inv dest])
      (use full new dest_src in \<open>auto simp: h3_def h2_def n_def mdb_nx_def\<close>)
  moreover have "mdbRevocable (cteMDBNode (h3 dest)) = r"
    using dest_src
    by (simp add: h3_def h2_def set_mdbNext_def set_mdbPrev_def)
  ultimately show ?thesis
    using run by (simp add: h3_def h2_def)
qed

lemma insert_new_cap_chain:
  assumes inv: "mdb_inv h (cs1 @ (as @ parent # bs) # cs2)"
    and new: "c \<noteq> cap_null_cap" and slot: "capability (h slot) = cap_null_cap" "slot \<noteq> 0"
  shows "\<exists>h'. insert_new_cap parent slot c h = Some h'
     \<and> mdb_inv h' (cs1 @ (as @ parent # slot # bs) # cs2)
     \<and> capability (h' slot) = c"
proof -
  have slot_parent: "slot \<noteq> parent"
    using mdb_inv_null_notin [OF inv slot(1)] by simp
  note chain = mdb_inv_dll [OF inv]
  note mid = dll_middle [OF chain] and ends = dll_ends [OF chain]
  define n where "n = mdb_nx h parent"
  define h1 where "h1 = set_mdb slot (mdb_node_new n True True parent) (set_capability slot c h)"
  define h2 where "h2 = (if n \<noteq> 0 then set_mdbPrev n slot h1 else h1)"
  have run: "insert_new_cap parent slot c h = Some (set_mdbNext parent slot h2)"
    by (simp add: insert_new_cap_def Let_def h2_def h1_def n_def mdb_nx_def)
  have "mdb_inv (set_mdbNext parent slot h2) (cs1 @ (as @ parent # slot # bs) # cs2)"
    by (rule mdb_insert_after [OF inv slot])
      (use new slot_parent in \<open>auto simp: h2_def h1_def n_def\<close>)
  then show ?thesis
    using run by (simp add: h2_def h1_def)
qed

lemma cte_move_chain:
  assumes inv: "mdb_inv h (cs1 @ (as @ src # bs) # cs2)"
    and new: "new_cap \<noteq> cap_null_cap" and dest: "capability (h dest) = cap_null_cap" "dest \<noteq> 0"
  shows "\<exists>h'. cte_move new_cap src dest h = Some h'
     \<and> mdb_inv h' (cs1 @ (as @ dest # bs) # cs2)
     \<and> capability (h' dest) = new_cap
     \<and> capability (h' src) = cap_null_cap"
proof -
  have dest_out: "dest \<notin> set (as @ src # bs)"
    by (rule mdb_inv_null_notin [OF inv dest(1)])
  note chain = mdb_inv_dll [OF inv]
  note mid = dll_middle [OF chain] and ends = dll_ends [OF chain]
  have src_out: "src \<notin> set as" "src \<notin> set bs" using dll_distinct [OF chain] by auto
  define h1 where "h1 = set_mdb src null_mdb (set_mdb dest (cteMDBNode (h src))
      (set_capability src cap_null_cap (set_capability dest new_cap h)))"
  define h2 where "h2 = (if mdb_pv h src \<noteq> 0 then set_mdbNext (mdb_pv h src) dest h1 else h1)"
  define h3 where "h3 = (if mdb_nx h src \<noteq> 0 then set_mdbPrev (mdb_nx h src) dest h2 else h2)"
  have run: "cte_move new_cap src dest h = Some h3"
    using dest mdb_inv_empty [OF inv dest(1)]
    by (simp add: cte_move_def Let_def h3_def h2_def h1_def mdb_nx_def mdb_pv_def)
  have nx: "mdb_nx h3 = (if as = [] then (mdb_nx h)(dest := first_of bs 0, src := 0)
       else (mdb_nx h)(dest := first_of bs 0, src := 0, last_of 0 as := dest))"
    using mid ends(1,2) by (simp add: h3_def h2_def h1_def mdb_nx_def)
  have pv: "mdb_pv h3 = (if bs = [] then (mdb_pv h)(dest := last_of 0 as, src := 0)
       else (mdb_pv h)(dest := last_of 0 as, src := 0, first_of bs 0 := dest))"
    using mid ends(1,2) by (simp add: h3_def h2_def h1_def mdb_pv_def)
  have caps: "capability (h3 p) = (if p = src then cap_null_cap else if p = dest then new_cap
      else capability (h p))" for p
    by (simp add: h3_def h2_def h1_def)
  have "mdb_inv h3 (cs1 @ (as @ dest # bs) # cs2)"
  proof (rule mdb_inv_replace [OF inv])
    show "dll (mdb_nx h3) (mdb_pv h3) (as @ dest # bs)"
      by (rule dll_replace [OF chain dest_out dest(2)])
        (use dest_out src_out ends in \<open>auto simp: nx pv\<close>)
  next
    fix p assume "p \<notin> set (as @ src # bs)" "p \<notin> set (as @ dest # bs)"
    then show "mdb_nx h3 p = mdb_nx h p \<and> mdb_pv h3 p = mdb_pv h p \<and>
        (capability (h3 p) = cap_null_cap \<longleftrightarrow> capability (h p) = cap_null_cap)"
      using ends by (auto simp: nx pv caps)
  next
    fix p assume "p \<in> set (as @ dest # bs)"
    then show "capability (h3 p) \<noteq> cap_null_cap \<and>
        (p \<in> set (as @ src # bs) \<or> capability (h p) = cap_null_cap)"
      using new dest dest_out src_out mdb_inv_in_cap [OF inv, of p] by (auto simp: caps)
  next
    fix p assume "p \<in> set (as @ src # bs)" "p \<notin> set (as @ dest # bs)"
    then show "capability (h3 p) = cap_null_cap \<and> mdb_nx h3 p = 0 \<and> mdb_pv h3 p = 0"
      using dest_out src_out ends by (auto simp: nx pv caps)
  qed
  then show ?thesis
    using run dest_out by (simp add: caps)
qed

lemma empty_slot_chain:
  assumes inv: "mdb_inv h (cs1 @ (as @ x # bs) # cs2)"
  shows "mdb_inv (empty_slot x h) (cs1 @ (as @ bs) # cs2)
     \<and> capability (empty_slot x h x) = cap_null_cap
     \<and> (\<forall>p. p \<noteq> x \<longrightarrow> capability (empty_slot x h p) = capability (h p))"
proof -
  note chain = mdb_inv_dll [OF inv]
  note mid = dll_middle [OF chain] and ends = dll_ends [OF chain]
  have x_out: "x \<notin> set as" "x \<notin> set bs" using dll_distinct [OF chain] by auto
  have x: "capability (h x) \<noteq> cap_null_cap" by (rule mdb_inv_in_cap [OF inv]) simp
  define h' where "h' = empty_slot x h"
  have nx: "mdb_nx h' = (if as = [] then (mdb_nx h)(x := 0)
       else (mdb_nx h)(last_of 0 as := first_of bs 0, x := 0))"
    using x mid ends(1,2) by (simp add: h'_def empty_slot_def Let_def flip: mdb_nx_def mdb_pv_def)
  have pv: "mdb_pv h' = (if bs = [] then (mdb_pv h)(x := 0)
       else (mdb_pv h)(first_of bs 0 := last_of 0 as, x := 0))"
    using x mid ends(1,2) by (simp add: h'_def empty_slot_def Let_def flip: mdb_nx_def mdb_pv_def)
  have caps: "capability (h' p) = (if p = x then cap_null_cap else capability (h p))" for p
    using x by (simp add: h'_def empty_slot_def Let_def)
  have "mdb_inv h' (cs1 @ (as @ bs) # cs2)"
  proof (rule mdb_inv_replace [OF inv])
    show "dll (mdb_nx h') (mdb_pv h') (as @ bs)"
      by (rule dll_delete [OF chain]) (use x_out ends in \<open>auto simp: nx pv\<close>)
  next
    fix p assume "p \<notin> set (as @ x # bs)" "p \<notin> set (as @ bs)"
    then show "mdb_nx h' p = mdb_nx h p \<and> mdb_pv h' p = mdb_pv h p \<and>
        (capability (h' p) = cap_null_cap \<longleftrightarrow> capability (h p) = cap_null_cap)"
      using ends by (auto simp: nx pv caps)
  next
    fix p assume "p \<in> set (as @ bs)"
    then show "capability (h' p) \<noteq> cap_null_cap \<and>
        (p \<in> set (as @ x # bs) \<or> capability (h p) = cap_null_cap)"
      using x_out mdb_inv_in_cap [OF inv, of p] by (auto simp: caps)
  next
    fix p assume "p \<in> set (as @ x # bs)" "p \<notin> set (as @ bs)"
    then show "capability (h' p) = cap_null_cap \<and> mdb_nx h' p = 0 \<and> mdb_pv h' p = 0"
      using x_out ends by (auto simp: nx pv caps)
  qed
  then show ?thesis by (simp add: caps flip: h'_def)
qed

lemma swap_ptr_invol [simp]: "swap_ptr a b (swap_ptr a b p) = p"
  by (simp add: swap_ptr_def)

lemma swap_ptr_0 [simp]: "a \<noteq> 0 \<Longrightarrow> b \<noteq> 0 \<Longrightarrow> swap_ptr a b 0 = 0"
  by (simp add: swap_ptr_def)

lemma swap_ptr_eq_0 [simp]: "a \<noteq> 0 \<Longrightarrow> b \<noteq> 0 \<Longrightarrow> swap_ptr a b p = 0 \<longleftrightarrow> p = 0"
  by (auto simp: swap_ptr_def)

lemma inj_swap_ptr: "inj (swap_ptr a b)"
  by (rule injI) (metis swap_ptr_invol)

lemma mdb_inv_chain_of:
  assumes "mdb_inv h cs" "capability (h p) \<noteq> cap_null_cap"
  obtains c where "c \<in> set cs" "p \<in> set c" "dll (mdb_nx h) (mdb_pv h) c"
proof -
  from assms have "p \<in> set (concat cs)" unfolding mdb_inv_def by blast
  then obtain c where "c \<in> set cs" "p \<in> set c" by auto
  with assms(1) that show thesis unfolding mdb_inv_def by blast
qed

lemma mdb_nx_iff_pv:
  assumes inv: "mdb_inv h cs" and "p \<noteq> 0" "q \<noteq> 0"
  shows "mdb_nx h p = q \<longleftrightarrow> mdb_pv h q = p"
proof
  assume *: "mdb_nx h p = q"
  with \<open>q \<noteq> 0\<close> have "capability (h p) \<noteq> cap_null_cap"
    using mdb_inv_empty [OF inv, of p] by auto
  then obtain c where "p \<in> set c" "dll (mdb_nx h) (mdb_pv h) c"
    using mdb_inv_chain_of [OF inv] by blast
  from dll_nx_pv [OF this(2,1)] * \<open>q \<noteq> 0\<close> show "mdb_pv h q = p" by simp
next
  assume *: "mdb_pv h q = p"
  with \<open>p \<noteq> 0\<close> have "capability (h q) \<noteq> cap_null_cap"
    using mdb_inv_empty [OF inv, of q] by auto
  then obtain c where "q \<in> set c" "dll (mdb_nx h) (mdb_pv h) c"
    using mdb_inv_chain_of [OF inv] by blast
  from dll_pv_nx [OF this(2,1)] * \<open>p \<noteq> 0\<close> show "mdb_nx h p = q" by simp
qed

lemma mdb_nx_self:
  assumes inv: "mdb_inv h cs" and "p \<noteq> 0"
  shows "mdb_nx h p \<noteq> p" "mdb_pv h p \<noteq> p"
proof -
  have "mdb_nx h p \<noteq> p"
  proof
    assume *: "mdb_nx h p = p"
    with assms have "capability (h p) \<noteq> cap_null_cap"
      using mdb_inv_empty [OF inv, of p] by auto
    then obtain c where c: "p \<in> set c" "dll (mdb_nx h) (mdb_pv h) c"
      using mdb_inv_chain_of [OF inv] by blast
    from split_list [OF c(1)] obtain as bs where "c = as @ p # bs" by blast
    with c * dll_middle [of "mdb_nx h" "mdb_pv h" as p bs] dll_distinct [OF c(2)]
      first_of_in [of bs 0] \<open>p \<noteq> 0\<close> show False by auto
  qed
  then show "mdb_nx h p \<noteq> p" "mdb_pv h p \<noteq> p"
    using mdb_nx_iff_pv [OF inv assms(2) assms(2)] by auto
qed

lemma cte_swap_links:
  assumes inv: "mdb_inv h cs" and s: "s1 \<noteq> 0" "s2 \<noteq> 0" "s1 \<noteq> s2"
    and apart: "mdb_nx h s1 \<noteq> s2" "mdb_nx h s2 \<noteq> s1" and p: "p \<noteq> 0"
  shows "mdb_nx (cte_swap c1 s1 c2 s2 h) p = swap_ptr s1 s2 (mdb_nx h (swap_ptr s1 s2 p))"
    and "mdb_pv (cte_swap c1 s1 c2 s2 h) p = swap_ptr s1 s2 (mdb_pv h (swap_ptr s1 s2 p))"
proof -
  note fwd = mdb_nx_iff_pv [OF inv] and self = mdb_nx_self [OF inv]
  have apart': "mdb_pv h s1 \<noteq> s2" "mdb_pv h s2 \<noteq> s1"
    using fwd apart s by auto
  note facts = s apart apart' self [OF s(1)] self [OF s(2)] p
  show "mdb_nx (cte_swap c1 s1 c2 s2 h) p = swap_ptr s1 s2 (mdb_nx h (swap_ptr s1 s2 p))"
    using facts fwd [OF p s(1)] fwd [OF p s(2)]
    by (simp add: cte_swap_def Let_def swap_ptr_def flip: mdb_nx_def mdb_pv_def)
  show "mdb_pv (cte_swap c1 s1 c2 s2 h) p = swap_ptr s1 s2 (mdb_pv h (swap_ptr s1 s2 p))"
    using facts fwd [OF s(1) p, symmetric] fwd [OF s(2) p, symmetric]
    by (simp add: cte_swap_def Let_def swap_ptr_def flip: mdb_nx_def mdb_pv_def) auto
qed

lemma cte_swap_caps:
  "s1 \<noteq> s2 \<Longrightarrow> capability (cte_swap c1 s1 c2 s2 h p) =
     (if p = s1 then c2 else if p = s2 then c1 else capability (h p))"
  by (simp add: cte_swap_def Let_def)

lemma cte_swap_chains:
  assumes inv: "mdb_inv h cs" and s: "s1 \<noteq> 0" "s2 \<noteq> 0" "s1 \<noteq> s2"
    and apart: "mdb_nx h s1 \<noteq> s2" "mdb_nx h s2 \<noteq> s1"
    and c1: "c1 = cap_null_cap \<longleftrightarrow> capability (h s1) = cap_null_cap"
    and c2: "c2 = cap_null_cap \<longleftrightarrow> capability (h s2) = cap_null_cap"
  shows "mdb_inv (cte_swap c1 s1 c2 s2 h) (map (map (swap_ptr s1 s2)) cs)"
proof -
  let ?f = "swap_ptr s1 s2" and ?h = "cte_swap c1 s1 c2 s2 h"
  note links = cte_swap_links [OF inv s apart]
  have null: "capability (?h p) = cap_null_cap \<longleftrightarrow> capability (h (?f p)) = cap_null_cap" for p
    using s c1 c2 by (simp add: cte_swap_caps swap_ptr_def)
  have mem: "p \<in> set (concat cs) \<longleftrightarrow> capability (h p) \<noteq> cap_null_cap" for p
    using inv unfolding mdb_inv_def by blast
  have null0: "capability (h 0) = cap_null_cap"
  proof (rule ccontr)
    assume "capability (h 0) \<noteq> cap_null_cap"
    then obtain c where "0 \<in> set c" "dll (mdb_nx h) (mdb_pv h) c"
      using mdb_inv_chain_of [OF inv] by blast
    then show False using dll_nonzero by blast
  qed
  have "concat (map (map ?f) cs) = map ?f (concat cs)"
    by (simp add: map_concat)
  moreover have "p \<in> ?f ` set (concat cs) \<longleftrightarrow> ?f p \<in> set (concat cs)" for p
    by (metis (no_types) image_iff swap_ptr_invol)
  ultimately have "p \<in> set (concat (map (map ?f) cs)) \<longleftrightarrow> capability (?h p) \<noteq> cap_null_cap" for p
    using mem null by (metis set_map)
  moreover have "distinct (concat (map (map ?f) cs))"
  proof -
    have "distinct (concat cs)" using inv unfolding mdb_inv_def by blast
    then show ?thesis
      by (simp add: map_concat [symmetric] distinct_map inj_on_subset [OF inj_swap_ptr] del: set_concat)
  qed
  moreover have "dll (mdb_nx ?h) (mdb_pv ?h) (map ?f c)" if "c \<in> set cs" for c
    by (rule dll_rename [of ?f _ "mdb_nx h" _ "mdb_pv h"])
      (use that inv s links in \<open>auto simp: mdb_inv_def\<close>)
  moreover have "mdb_nx ?h p = 0 \<and> mdb_pv ?h p = 0" if "capability (?h p) = cap_null_cap" for p
  proof (cases "p = 0")
    case True
    have "mdb_nx ?h 0 = mdb_nx h 0 \<and> mdb_pv ?h 0 = mdb_pv h 0"
      using s by (simp add: cte_swap_def Let_def)
    with True null0 mdb_inv_empty [OF inv] show ?thesis by simp
  next
    case False
    with that null [of p] mdb_inv_empty [OF inv, of "?f p"] links [OF False] s show ?thesis
      by simp
  qed
  ultimately show ?thesis unfolding mdb_inv_def by auto
qed

lemma sample_heap_caps [simp]:
  "capability (sample_heap 32) = cap_untyped_cap 0 False 12 0x1000"
  "capability (sample_heap 64) = cap_endpoint_cap 0 True True True True 0x1000"
  "capability (sample_heap 96) = cap_thread_cap 0x1800"
  "p \<noteq> 32 \<Longrightarrow> p \<noteq> 64 \<Longrightarrow> p \<noteq> 96 \<Longrightarrow> sample_heap p = empty_cte"
  by (simp_all add: sample_heap_def)

lemma sample_heap_links [simp]:
  "mdb_nx sample_heap 32 = 64" "mdb_nx sample_heap 64 = 96" "mdb_nx sample_heap 96 = 0"
  "mdb_pv sample_heap 32 = 0" "mdb_pv sample_heap 64 = 32" "mdb_pv sample_heap 96 = 64"
  by (simp_all add: sample_heap_def mdb_nx_def mdb_pv_def)

lemma sample_heap_inv: "mdb_inv sample_heap [[32, 64, 96]]"
proof -
  have "capability (sample_heap p) \<noteq> cap_null_cap \<longleftrightarrow> p = 32 \<or> p = 64 \<or> p = 96" for p
    by (cases "p = 32"; cases "p = 64"; cases "p = 96") (simp_all add: empty_cte_def)
  moreover have "mdb_nx sample_heap p = 0 \<and> mdb_pv sample_heap p = 0"
    if "p \<noteq> 32" "p \<noteq> 64" "p \<noteq> 96" for p
    using that by (simp add: mdb_nx_def mdb_pv_def empty_cte_def)
  ultimately show ?thesis by (simp add: mdb_inv_def dll_def) blast
qed

lemma cte_swap_adjacent_links:
  assumes inv: "mdb_inv h (cs1 @ (as @ s1 # s2 # bs) # cs2)"
  shows "mdb_nx (cte_swap c1 s1 c2 s2 h) s1 = s1" "mdb_pv (cte_swap c1 s1 c2 s2 h) s1 = s1"
    "mdb_nx (cte_swap c1 s1 c2 s2 h) s2 = s2"
proof -
  note chain = mdb_inv_dll [OF inv]
  have n1: "mdb_nx h s1 = s2" "mdb_pv h s2 = s1" "mdb_pv h s1 = last_of 0 as"
      "mdb_nx h s2 = first_of bs 0" "s1 \<noteq> 0" "s2 \<noteq> 0"
    using chain by (auto simp: dll_def)
  have "s1 \<noteq> s2" "s1 \<notin> set as" "s2 \<notin> set as" "s1 \<notin> set bs" "s2 \<notin> set bs"
    using dll_distinct [OF chain] by auto
  then have n2: "last_of 0 as \<noteq> s1" "last_of 0 as \<noteq> s2" "first_of bs 0 \<noteq> s1" "first_of bs 0 \<noteq> s2" "s1 \<noteq> s2"
    using n1(5,6) last_of_in [of 0 as] first_of_in [of bs 0] by auto
  show "mdb_nx (cte_swap c1 s1 c2 s2 h) s1 = s1" "mdb_pv (cte_swap c1 s1 c2 s2 h) s1 = s1"
    "mdb_nx (cte_swap c1 s1 c2 s2 h) s2 = s2"
    using n1 n2 by (simp_all add: cte_swap_def Let_def flip: mdb_nx_def mdb_pv_def)
qed

lemma is_final_cap_links:
  assumes inv: "mdb_inv h (cs1 @ (as @ x # bs) # cs2)"
  shows "is_final_cap h x = Some
     (\<not> (obj_id (capability (h x)) \<noteq> None \<and>
         (as \<noteq> [] \<and> obj_id (capability (h (last as))) = obj_id (capability (h x)) \<or>
          bs \<noteq> [] \<and> obj_id (capability (h (hd bs))) = obj_id (capability (h x)))))"
proof -
  note chain = mdb_inv_dll [OF inv]
  note mid = dll_middle [OF chain] and ends = dll_ends [OF chain]
  show ?thesis
    using mid ends(1,2)
    by (cases "as = []"; cases "bs = []"; cases "obj_id (capability (h x))")
      (auto simp: is_final_cap_def Let_def same_object_as_obj_id first_of_nonempty last_of_nonempty
        simp flip: mdb_nx_def mdb_pv_def)
qed

lemma contiguous_neighbour:
  assumes inv: "mdb_inv h (cs1 @ (as @ x # bs) # cs2)"
    and con: "mdb_contiguous h (cs1 @ (as @ x # bs) # cs2)"
    and y: "y \<noteq> x" "capability (h y) \<noteq> cap_null_cap"
      "obj_id (capability (h y)) = obj_id (capability (h x))" "obj_id (capability (h x)) \<noteq> None"
  shows "as \<noteq> [] \<and> obj_id (capability (h (last as))) = obj_id (capability (h x)) \<or>
         bs \<noteq> [] \<and> obj_id (capability (h (hd bs))) = obj_id (capability (h x))"
proof -
  let ?c = "as @ x # bs" and ?o = "\<lambda>p. obj_id (capability (h p))"
  obtain c where c: "c \<in> set (cs1 @ ?c # cs2)" "y \<in> set c"
    using mdb_inv_chain_of [OF inv y(2)] by blast
  have same_chain: "\<And>c d x y. c \<in> set (cs1 @ ?c # cs2) \<Longrightarrow> d \<in> set (cs1 @ ?c # cs2) \<Longrightarrow>
      x \<in> set c \<Longrightarrow> y \<in> set d \<Longrightarrow> ?o x = ?o y \<Longrightarrow> ?o x \<noteq> None \<Longrightarrow> c = d"
    using con unfolding mdb_contiguous_def by blast
  have here: "?c \<in> set (cs1 @ ?c # cs2)" by simp
  have contig: "?o x' = ?o y' \<Longrightarrow> \<forall>z \<in> set bs'. ?o z = ?o x'"
    if "?c = as' @ x' # bs' @ y' # ds'" for as' x' bs' y' ds'
    using conjunct1 [OF con [unfolded mdb_contiguous_def], rule_format, OF here that] by blast
  have "c = ?c"
    by (rule same_chain [OF c(1) _ c(2), of ?c x]) (use y in auto)
  with c(2) y(1) consider "y \<in> set as" | "y \<in> set bs" by auto
  then show ?thesis
  proof cases
    case 1
    then obtain a1 a2 where as: "as = a1 @ y # a2" by (meson split_list)
    have "\<forall>z \<in> set a2. ?o z = ?o y"
      using contig [of a1 y a2 x bs] as y(3) by simp
    with as y show ?thesis by (cases "a2 = []") auto
  next
    case 2
    then obtain b1 b2 where bs: "bs = b1 @ y # b2" by (meson split_list)
    have "\<forall>z \<in> set b1. ?o z = ?o x"
      using contig [of as x b1 y b2] bs y(3) by simp
    with bs y show ?thesis by (cases b1) auto
  qed
qed

lemma is_final_cap_unique:
  assumes inv: "mdb_inv h (cs1 @ (as @ x # bs) # cs2)"
    and con: "mdb_contiguous h (cs1 @ (as @ x # bs) # cs2)"
  shows "is_final_cap h x = Some (obj_id (capability (h x)) = None \<or>
     (\<forall>y. y \<noteq> x \<longrightarrow> obj_id (capability (h y)) \<noteq> obj_id (capability (h x))))"
proof -
  let ?o = "\<lambda>p. obj_id (capability (h p))"
  have dist: "x \<notin> set as" "x \<notin> set bs"
    using dll_distinct [OF mdb_inv_dll [OF inv]] by auto
  have "(?o x \<noteq> None \<and> (as \<noteq> [] \<and> ?o (last as) = ?o x \<or> bs \<noteq> [] \<and> ?o (hd bs) = ?o x))
      \<longleftrightarrow> (?o x \<noteq> None \<and> (\<exists>y. y \<noteq> x \<and> ?o y = ?o x))" (is "?l = ?r")
  proof
    assume ?l
    with dist show ?r by (metis last_in_set hd_in_set)
  next
    assume ?r
    then obtain y where y: "y \<noteq> x" "?o y = ?o x" "?o x \<noteq> None" by blast
    then have "capability (h y) \<noteq> cap_null_cap" by auto
    with contiguous_neighbour [OF inv con] y show ?l by blast
  qed
  then show ?thesis
    using is_final_cap_links [OF inv] by auto
qed


section \<open>Properties of the mapping database\<close>

text \<open>
  C1: inserting a derived capability puts its slot directly after its source on the source's chain
  and leaves every other chain alone; the insertion does not panic, and the new entry is marked
  revocable exactly as \<open>is_cap_revocable\<close> says.
\<close>

theorem cte_insert_correct:
  assumes "mdb_inv h (cs1 @ (as @ src # bs) # cs2)"
    and "new_cap \<noteq> cap_null_cap" and "capability (h dest) = cap_null_cap" "dest \<noteq> 0"
    and "is_cap_revocable new_cap (capability (h src)) = Some r"
  shows "\<exists>h'. cte_insert new_cap src dest h = Some h'
     \<and> mdb_inv h' (cs1 @ (as @ src # dest # bs) # cs2)
     \<and> capability (h' dest) = new_cap
     \<and> mdbRevocable (cteMDBNode (h' dest)) = r"
  by (rule cte_insert_chain [OF assms])

theorem cte_insert_correct_witness:
  "\<exists>h'. cte_insert (cap_endpoint_cap 7 True True True True 0x1000) 64 128 sample_heap = Some h'
     \<and> mdb_inv h' [[32, 64, 128, 96]]
     \<and> capability (h' 128) = cap_endpoint_cap 7 True True True True 0x1000
     \<and> mdbRevocable (cteMDBNode (h' 128))"
  using cte_insert_correct [of sample_heap "[]" "[32]" 64 "[96]" "[]"
      "cap_endpoint_cap 7 True True True True 0x1000" 128 True]
  by (simp add: sample_heap_inv empty_cte_def is_cap_revocable_def)

text \<open>
  C7: a freshly retyped capability is linked directly after the untyped capability it was carved
  from, as its child; nothing else moves.
\<close>

theorem insert_new_cap_correct:
  assumes "mdb_inv h (cs1 @ (as @ parent # bs) # cs2)"
    and "c \<noteq> cap_null_cap" and "capability (h slot) = cap_null_cap" "slot \<noteq> 0"
  shows "\<exists>h'. insert_new_cap parent slot c h = Some h'
     \<and> mdb_inv h' (cs1 @ (as @ parent # slot # bs) # cs2)
     \<and> capability (h' slot) = c"
  by (rule insert_new_cap_chain [OF assms])

theorem insert_new_cap_correct_witness:
  "\<exists>h'. insert_new_cap 32 128 (cap_notification_cap 0 True True 0x1040) sample_heap = Some h'
     \<and> mdb_inv h' [[32, 128, 64, 96]]
     \<and> capability (h' 128) = cap_notification_cap 0 True True 0x1040"
  using insert_new_cap_correct [of sample_heap "[]" "[]" 32 "[64, 96]" "[]"
      "cap_notification_cap 0 True True 0x1040" 128]
  by (simp add: sample_heap_inv empty_cte_def)

text \<open>
  C2: moving a capability puts the destination slot in the source's place on its chain and empties
  the source slot, links included.
\<close>

theorem cte_move_correct:
  assumes "mdb_inv h (cs1 @ (as @ src # bs) # cs2)"
    and "new_cap \<noteq> cap_null_cap" and "capability (h dest) = cap_null_cap" "dest \<noteq> 0"
  shows "\<exists>h'. cte_move new_cap src dest h = Some h'
     \<and> mdb_inv h' (cs1 @ (as @ dest # bs) # cs2)
     \<and> capability (h' dest) = new_cap
     \<and> capability (h' src) = cap_null_cap"
  by (rule cte_move_chain [OF assms])

theorem cte_move_correct_witness:
  "\<exists>h'. cte_move (cap_thread_cap 0x1800) 96 128 sample_heap = Some h'
     \<and> mdb_inv h' [[32, 64, 128]]
     \<and> capability (h' 128) = cap_thread_cap 0x1800
     \<and> capability (h' 96) = cap_null_cap"
  using cte_move_correct [of sample_heap "[]" "[32, 64]" 96 "[]" "[]" "cap_thread_cap 0x1800" 128]
  by (simp add: sample_heap_inv empty_cte_def)

text \<open>
  C3: emptying a slot takes it out of its chain, joining its neighbours, and changes the capability
  of no other slot.
\<close>

theorem empty_slot_correct:
  assumes "mdb_inv h (cs1 @ (as @ x # bs) # cs2)"
  shows "mdb_inv (empty_slot x h) (cs1 @ (as @ bs) # cs2)
     \<and> capability (empty_slot x h x) = cap_null_cap
     \<and> (\<forall>p. p \<noteq> x \<longrightarrow> capability (empty_slot x h p) = capability (h p))"
  by (rule empty_slot_chain [OF assms])

theorem empty_slot_correct_witness:
  "mdb_inv (empty_slot 64 sample_heap) [[32, 96]]
     \<and> capability (empty_slot 64 sample_heap 64) = cap_null_cap"
  using empty_slot_correct [of sample_heap "[]" "[32]" 64 "[96]" "[]"]
  by (simp add: sample_heap_inv)

text \<open>
  C4: swapping two slots that are not neighbours exchanges their places on the chains, wherever
  they are, including when one of them is empty.
\<close>

theorem cte_swap_correct:
  assumes "mdb_inv h cs" and "s1 \<noteq> 0" "s2 \<noteq> 0" "s1 \<noteq> s2"
    and "mdb_nx h s1 \<noteq> s2" "mdb_nx h s2 \<noteq> s1"
    and "c1 = cap_null_cap \<longleftrightarrow> capability (h s1) = cap_null_cap"
    and "c2 = cap_null_cap \<longleftrightarrow> capability (h s2) = cap_null_cap"
  shows "mdb_inv (cte_swap c1 s1 c2 s2 h) (map (map (swap_ptr s1 s2)) cs)
     \<and> capability (cte_swap c1 s1 c2 s2 h s1) = c2
     \<and> capability (cte_swap c1 s1 c2 s2 h s2) = c1"
  using cte_swap_chains [OF assms] assms(4) by (simp add: cte_swap_caps)

theorem cte_swap_correct_witness:
  "mdb_inv (cte_swap (capability (sample_heap 32)) 32 (capability (sample_heap 96)) 96 sample_heap)
     [[96, 64, 32]]"
  using cte_swap_correct [of sample_heap "[[32, 64, 96]]" 32 96 "capability (sample_heap 32)"
      "capability (sample_heap 96)"]
  by (simp add: sample_heap_inv swap_ptr_def)

text \<open>
  C5: swapping two slots that are neighbours on a chain corrupts the mapping database: the code
  copies the second node before it redirects the neighbours of the first, so both slots end up
  linked to themselves and no arrangement of chains describes the result any more.
\<close>

theorem cte_swap_adjacent_corrupts:
  assumes "mdb_inv h (cs1 @ (as @ s1 # s2 # bs) # cs2)"
  shows "mdb_nx (cte_swap c1 s1 c2 s2 h) s1 = s1 \<and> mdb_pv (cte_swap c1 s1 c2 s2 h) s1 = s1
     \<and> mdb_nx (cte_swap c1 s1 c2 s2 h) s2 = s2
     \<and> (\<nexists>cs. mdb_inv (cte_swap c1 s1 c2 s2 h) cs)"
proof -
  have "s1 \<noteq> 0" using mdb_inv_dll [OF assms] by (auto simp: dll_def)
  with cte_swap_adjacent_links [OF assms] mdb_nx_self(1) show ?thesis by metis
qed

theorem cte_swap_adjacent_corrupts_witness:
  "mdb_nx (cte_swap (cap_endpoint_cap 0 True True True True 0x1000) 64 (cap_thread_cap 0x1800) 96
      sample_heap) 64 = 64
   \<and> (\<nexists>cs. mdb_inv (cte_swap (cap_endpoint_cap 0 True True True True 0x1000) 64
        (cap_thread_cap 0x1800) 96 sample_heap) cs)"
  using cte_swap_adjacent_corrupts [of sample_heap "[]" "[32]" 64 96 "[]" "[]"]
  by (simp add: sample_heap_inv)



end
