(* ===== verification/CSpaceLookup.thy ===== *)
theory CSpaceLookup
  imports CSpace
begin

text \<open>
  Address resolution in a capability space: \<^verbatim>\<open>resolve_address_bits\<close> of
  \<^verbatim>\<open>sel4_cspace/src/cte.rs\<close>.  The loop of the code becomes a recursive function whose
  termination is proved from the progress it makes on every level.  The reference
  definition \<open>spec_resolve\<close> works on the address as a list of bits, most significant first: a
  CNode strips its guard from the front and uses the next \<^verbatim>\<open>radix\<close> bits as the index.  The main
  result is that both agree, for every graph of CNodes, cyclic ones included.
\<close>

section \<open>The code\<close>

record resolveAddressBits_ret_t =
  ra_status :: exception_t
  ra_slot :: ptr
  ra_bitsRemaining :: word64

definition resolve_fault :: "word64 \<Rightarrow> resolveAddressBits_ret_t" where
  "resolve_fault bits =
     \<lparr> ra_status = EXCEPTION_LOOKUP_FAULT, ra_slot = 0, ra_bitsRemaining = bits \<rparr>"

lemma level_bits_sum:
  "unat (ucast (rd :: 6 word) + ucast (gs :: 6 word) :: word64) = unat rd + unat gs"
proof -
  have "unat rd < 64" "unat gs < 64"
    using unsigned_less [of rd, where ?'a = nat] unsigned_less [of gs, where ?'a = nat] by simp_all
  then show ?thesis by (simp add: unat_word_ariths)
qed

lemma level_progress:
  assumes "l \<noteq> 0" "\<not> n < l"
  shows "unat (n - l) < unat (n :: word64)"
proof -
  have "l \<le> n" "0 < unat l" using assms by (auto simp: not_less unat_gt_0)
  then show ?thesis by (simp add: unat_sub word_le_nat_alt)
qed

function resolve_loop ::
  "cte_heap \<Rightarrow> word64 \<Rightarrow> word64 \<Rightarrow> cap \<Rightarrow> word64 \<Rightarrow> resolveAddressBits_ret_t option" where
  "resolve_loop h cap_ptr bits0 nodeCap n_bits =
    (let radixBits = ucast (capCNodeRadix nodeCap);
         guardBits = ucast (capCNodeGuardSize nodeCap);
         levelBits = radixBits + guardBits in
     if levelBits = 0 then None
     else
       let capGuard = capCNodeGuard nodeCap;
           guard = shr cap_ptr ((n_bits - guardBits) AND mask_bits WORD_RADIX) AND mask_bits guardBits in
       if guardBits > n_bits \<or> guard \<noteq> capGuard then Some (resolve_fault bits0)
       else if levelBits > n_bits then Some (resolve_fault bits0)
       else
         let offset = shr cap_ptr (n_bits - levelBits) AND mask_bits radixBits;
             slot = capCNodePtr nodeCap + 32 * offset in
         if n_bits = levelBits then
           Some \<lparr> ra_status = EXCEPTION_NONE, ra_slot = slot, ra_bitsRemaining = 0 \<rparr>
         else
           let n_bits = n_bits - levelBits; nodeCap = capability (h slot) in
           if \<not> is_cap_cnode_cap nodeCap then
             Some \<lparr> ra_status = EXCEPTION_NONE, ra_slot = slot, ra_bitsRemaining = n_bits \<rparr>
           else resolve_loop h cap_ptr bits0 nodeCap n_bits)"
  by pat_completeness auto
termination
  by (relation "measure (\<lambda>(h, cap_ptr, bits0, nodeCap, n_bits). unat n_bits)")
    (auto intro: level_progress)

definition resolve_address_bits ::
  "cte_heap \<Rightarrow> cap \<Rightarrow> word64 \<Rightarrow> word64 \<Rightarrow> resolveAddressBits_ret_t option" where
  "resolve_address_bits h node_cap cap_ptr n_bits =
    (if \<not> is_cap_cnode_cap node_cap then Some (resolve_fault n_bits)
     else resolve_loop h cap_ptr n_bits node_cap n_bits)"

section \<open>Resolution on bit lists\<close>

text \<open>\<open>addr_bits n w\<close> lists the low \<open>n\<close> bits of \<open>w\<close>, most significant first.\<close>

definition addr_bits :: "nat \<Rightarrow> word64 \<Rightarrow> bool list" where
  "addr_bits n w = map (bit w) (rev [0 ..< n])"

definition bits_value :: "bool list \<Rightarrow> word64" where
  "bits_value bs = foldl (\<lambda>v b. 2 * v + of_bool b) 0 bs"

datatype lookup_result = Lookup_Fault | Found ptr nat

function spec_resolve :: "cte_heap \<Rightarrow> cap \<Rightarrow> bool list \<Rightarrow> lookup_result option" where
  "spec_resolve h c bs =
    (let gs = unat (capCNodeGuardSize c); rd = unat (capCNodeRadix c) in
     if gs + rd = 0 then None
     else if length bs < gs + rd \<or> take gs bs \<noteq> addr_bits gs (capCNodeGuard c) then Some Lookup_Fault
     else
       let slot = capCNodePtr c + 32 * bits_value (take rd (drop gs bs));
           rest = drop (gs + rd) bs in
       if rest = [] \<or> \<not> is_cap_cnode_cap (capability (h slot)) then Some (Found slot (length rest))
       else spec_resolve h (capability (h slot)) rest)"
  by pat_completeness auto
termination
  by (relation "measure (\<lambda>(h, c, bs). length bs)") auto

fun lookup_ret :: "word64 \<Rightarrow> lookup_result \<Rightarrow> resolveAddressBits_ret_t" where
  "lookup_ret bits0 Lookup_Fault = resolve_fault bits0"
| "lookup_ret bits0 (Found slot rest) =
     \<lparr> ra_status = EXCEPTION_NONE, ra_slot = slot, ra_bitsRemaining = of_nat rest \<rparr>"

text \<open>
  A two-level capability space: a root CNode of radix 4 whose slot 3 holds a CNode of radix 2
  guarded by the two bits \<open>10\<close>.
\<close>

definition sample_cspace :: cte_heap where
  "sample_cspace = (\<lambda>_. empty_cte)
     (0x1060 := \<lparr> capability = cap_cnode_cap 2 2 2 0x2000, cteMDBNode = null_mdb \<rparr>)"

section \<open>Bits\<close>

lemma addr_bits_0 [simp]: "addr_bits 0 w = []"
  by (simp add: addr_bits_def)

lemma addr_bits_Nil [simp]: "addr_bits n w = [] \<longleftrightarrow> n = 0"
  by (simp add: addr_bits_def)

lemma addr_bits_Suc: "addr_bits (Suc n) w = bit w n # addr_bits n w"
  by (simp add: addr_bits_def)

lemma length_addr_bits [simp]: "length (addr_bits n w) = n"
  by (simp add: addr_bits_def)

lemma drop_addr_bits: "drop k (addr_bits n w) = addr_bits (n - k) w"
proof (induction k arbitrary: n)
  case (Suc k)
  then show ?case by (cases n) (simp_all add: addr_bits_Suc)
qed simp

lemma take_addr_bits: "k \<le> n \<Longrightarrow> take k (addr_bits n w) = addr_bits k (drop_bit (n - k) w)"
  by (rule nth_equalityI) (auto simp: addr_bits_def rev_nth bit_drop_bit_eq)

lemma addr_bits_eq_iff: "addr_bits n v = addr_bits n w \<longleftrightarrow> take_bit n v = take_bit n w"
proof -
  have *: "addr_bits n v = addr_bits n w \<longleftrightarrow> (\<forall>i < n. bit v i = bit w i)"
    by (auto simp: addr_bits_def)
  show ?thesis
  proof
    assume "take_bit n v = take_bit n w"
    then have "i < n \<Longrightarrow> bit v i = bit w i" for i by (metis bit_take_bit_iff)
    with * show "addr_bits n v = addr_bits n w" by simp
  next
    assume "addr_bits n v = addr_bits n w"
    with * show "take_bit n v = take_bit n w" by (auto intro!: bit_eqI simp: bit_take_bit_iff)
  qed
qed

lemma bits_value_fold:
  "foldl (\<lambda>v b. 2 * v + of_bool b) v (addr_bits n w) = v * 2 ^ n + take_bit n w"
proof (induction n arbitrary: v)
  case (Suc n)
  have "take_bit (Suc n) w = take_bit n w + of_bool (bit w n) * 2 ^ n"
  proof -
    have "drop_bit n (take_bit (Suc n) w) = of_bool (bit w n)"
      by (simp add: drop_bit_take_bit bit_iff_odd_drop_bit take_bit_Suc_0 mod_2_eq_odd)
    moreover have "take_bit n (take_bit (Suc n) w) = take_bit n w" by simp
    ultimately show ?thesis
      using bits_ident [of n "take_bit (Suc n) w"] by (simp add: push_bit_eq_mult add.commute)
  qed
  with Suc show ?case by (simp add: addr_bits_Suc algebra_simps)
qed (simp add: addr_bits_def)

lemma bits_value_addr_bits: "bits_value (addr_bits n w) = take_bit n w"
  by (simp add: bits_value_def bits_value_fold)

declare resolve_loop.simps [simp del] spec_resolve.simps [simp del]

lemma unat_6_less [simp]: "unat (r :: 6 word) < 64"
  using unsigned_less [of r, where ?'a = nat] by simp

lemma guard_match:
  assumes "unat gs \<le> unat n" "unat n \<le> 64" "unat guard < 2 ^ unat gs"
  shows "shr w ((n - ucast (gs :: 6 word)) AND mask_bits WORD_RADIX) AND mask_bits (ucast gs) = guard
     \<longleftrightarrow> take (unat gs) (addr_bits (unat n) w) = addr_bits (unat gs) guard"
proof (cases "unat gs = 0")
  case True
  with assms(3) have "guard = 0" by (simp add: unat_eq_0)
  with True show ?thesis by (simp add: and_mask_bits)
next
  case False
  have sub: "unat (n - ucast gs) = unat n - unat gs"
    using assms(1) by (simp add: unat_sub word_le_nat_alt)
  have "unat ((n - ucast gs) AND mask_bits WORD_RADIX) = unat n - unat gs"
    using False assms sub
    by (simp add: and_mask_bits WORD_RADIX_def unsigned_take_bit_eq take_bit_nat_eq_self)
  then have "shr w ((n - ucast gs) AND mask_bits WORD_RADIX) = drop_bit (unat n - unat gs) w"
    using False assms(2) by (simp add: shr_def)
  moreover have "take_bit (unat gs) guard = guard"
    using assms(3) by (simp add: word_unat_eq_iff unsigned_take_bit_eq take_bit_nat_eq_self)
  ultimately show ?thesis
    using assms(1) by (simp add: and_mask_bits take_addr_bits addr_bits_eq_iff)
qed

lemma index_value:
  assumes "unat rd + unat gs \<le> unat n" "unat n \<le> 64" "0 < unat rd + unat gs"
  shows "shr w (n - (ucast (rd :: 6 word) + ucast (gs :: 6 word))) AND mask_bits (ucast rd)
     = bits_value (take (unat rd) (drop (unat gs) (addr_bits (unat n) w)))"
proof -
  have "unat (n - (ucast rd + ucast gs)) = unat n - (unat rd + unat gs)"
    using assms(1) by (simp add: unat_sub word_le_nat_alt level_bits_sum)
  moreover have "unat n - unat gs - unat rd = unat n - (unat rd + unat gs)" by simp
  moreover have "unat n - (unat rd + unat gs) < 64" using assms(2,3) by linarith
  ultimately show ?thesis
    using assms
    by (simp add: shr_def and_mask_bits drop_addr_bits take_addr_bits bits_value_addr_bits)
qed

lemma resolve_loop_refines:
  assumes wf: "\<And>p. cap_wf (capability (h p))"
    and "is_cap_cnode_cap c" "cap_wf c" "unat n \<le> 64"
  shows "resolve_loop h w b0 c n =
     map_option (lookup_ret b0) (spec_resolve h c (addr_bits (unat n) w))"
  using assms(2-4)
proof (induction "unat n" arbitrary: c n rule: less_induct)
  case less
  obtain gd gs rd p where c: "c = cap_cnode_cap gd gs rd p"
    using less.prems(1) by (cases c) auto
  have gd: "unat gd < 2 ^ unat gs" using less.prems(2) c by simp
  have level0: "ucast rd + ucast gs = (0 :: word64) \<longleftrightarrow> unat rd + unat gs = 0"
    by (simp only: word_unat_eq_iff level_bits_sum unsigned_0)
  have levelle: "ucast rd + ucast gs > n \<longleftrightarrow> unat n < unat rd + unat gs"
    by (simp add: word_less_nat_alt level_bits_sum)
  have leveleq: "n = ucast rd + ucast gs \<longleftrightarrow> unat n = unat rd + unat gs"
    by (simp only: word_unat_eq_iff level_bits_sum)
  show ?case
  proof (cases "unat rd + unat gs = 0 \<or> unat n < unat rd + unat gs \<or>
      take (unat gs) (addr_bits (unat n) w) \<noteq> addr_bits (unat gs) gd")
    case True
    show ?thesis
    proof (cases "unat rd + unat gs = 0")
      case True
      then show ?thesis
        using level0
        by (subst resolve_loop.simps, subst spec_resolve.simps) (simp add: c Let_def)
    next
      case nz: False
      have fault: "ucast gs > n \<or> ucast rd + ucast gs > n \<or>
          shr w ((n - ucast gs) AND mask_bits WORD_RADIX) AND mask_bits (ucast gs) \<noteq> gd"
        using True nz levelle guard_match [of gs n gd w] less.prems(3) gd
        by (simp add: word_less_nat_alt) linarith
      have "unat n < unat gs + unat rd \<or>
          take (unat gs) (addr_bits (unat n) w) \<noteq> addr_bits (unat gs) gd"
        using True nz by linarith
      then have "spec_resolve h c (addr_bits (unat n) w) = Some Lookup_Fault"
        using nz by (subst spec_resolve.simps) (simp add: c Let_def disj_commute)
      moreover have "resolve_loop h w b0 c n = Some (resolve_fault b0)"
        using fault level0 nz
        by (elim disjE) (subst resolve_loop.simps, simp add: c Let_def)+
      ultimately show ?thesis by simp
    qed
  next
    case False
    then have f: "unat rd + unat gs \<noteq> 0" "unat rd + unat gs \<le> unat n"
        "take (unat gs) (addr_bits (unat n) w) = addr_bits (unat gs) gd" by auto
    define slot where "slot = p + 32 * bits_value (take (unat rd) (drop (unat gs) (addr_bits (unat n) w)))"
    define m where "m = n - (ucast rd + ucast gs)"
    have m: "unat m = unat n - (unat rd + unat gs)"
      using f(2) by (simp add: m_def unat_sub word_le_nat_alt level_bits_sum)
    have lz: "ucast rd + ucast gs \<noteq> (0 :: word64)" using f(1) level0 by simp
    have code: "resolve_loop h w b0 c n =
      (if n = ucast rd + ucast gs then
         Some \<lparr> ra_status = EXCEPTION_NONE, ra_slot = slot, ra_bitsRemaining = 0 \<rparr>
       else if \<not> is_cap_cnode_cap (capability (h slot)) then
         Some \<lparr> ra_status = EXCEPTION_NONE, ra_slot = slot, ra_bitsRemaining = m \<rparr>
       else resolve_loop h w b0 (capability (h slot)) m)"
    proof -
      have "\<not> ucast gs > n" using f(2) by (simp add: word_less_nat_alt)
      moreover have "shr w ((n - ucast gs) AND mask_bits WORD_RADIX) AND mask_bits (ucast gs) = gd"
        using guard_match [of gs n gd w] f less.prems(3) gd by simp
      moreover have "shr w m AND mask_bits (ucast rd)
          = bits_value (take (unat rd) (drop (unat gs) (addr_bits (unat n) w)))"
        using index_value [of rd gs n w] f less.prems(3) by (simp add: m_def)
      ultimately show ?thesis
        using f levelle lz
        by (subst resolve_loop.simps [of h w b0 c n]) (simp add: c Let_def slot_def m_def)
    qed
    have spec: "spec_resolve h c (addr_bits (unat n) w) =
      (if unat m = 0 \<or> \<not> is_cap_cnode_cap (capability (h slot)) then Some (Found slot (unat m))
       else spec_resolve h (capability (h slot)) (addr_bits (unat m) w))"
    proof -
      have "unat gs + unat rd \<noteq> 0" "\<not> unat n < unat gs + unat rd"
          "drop (unat gs + unat rd) (addr_bits (unat n) w) = addr_bits (unat m) w"
        using f m by (simp_all add: drop_addr_bits add.commute)
      then show ?thesis
        using f(3) by (subst spec_resolve.simps [of h c]) (auto simp: c Let_def slot_def)
    qed
    have "unat m < unat n" using f(1,2) m by linarith
    then have IH: "resolve_loop h w b0 (capability (h slot)) m =
        map_option (lookup_ret b0) (spec_resolve h (capability (h slot)) (addr_bits (unat m) w))"
      if "is_cap_cnode_cap (capability (h slot))"
      using less.hyps [of m "capability (h slot)"] that wf less.prems(3) by simp
    show ?thesis
    proof (cases "unat m = 0")
      case True
      with m f leveleq have "n = ucast rd + ucast gs" by simp
      with True show ?thesis unfolding code spec by simp
    next
      case False
      with m leveleq have "n \<noteq> ucast rd + ucast gs" by auto
      with False IH show ?thesis
        by (cases "is_cap_cnode_cap (capability (h slot))") (simp_all only: code spec, simp_all)
    qed
  qed
qed

section \<open>Properties of address resolution\<close>

text \<open>
  C18: resolving an address in any graph of well-formed CNodes always ends, and gives what the
  reference resolution on the list of address bits gives: the guard of every CNode on the way is
  compared with the next bits, the following \<^verbatim>\<open>radix\<close> bits select the slot, and the walk stops at
  the first slot that is not a CNode or when the bits are used up.
\<close>

theorem resolve_address_bits_correct:
  assumes "\<And>p. cap_wf (capability (h p))" and "cap_wf c" and "unat n \<le> 64"
  shows "resolve_address_bits h c w n =
     (if is_cap_cnode_cap c
      then map_option (lookup_ret n) (spec_resolve h c (addr_bits (unat n) w))
      else Some (resolve_fault n))"
  using resolve_loop_refines [of h c n w n] assms by (simp add: resolve_address_bits_def)

lemma sample_cspace_wf: "cap_wf (capability (sample_cspace p))"
  by (simp add: sample_cspace_def empty_cte_def)

theorem resolve_address_bits_correct_witness:
  "resolve_address_bits sample_cspace (cap_cnode_cap 0 0 4 0x1000) 0x39 8
     = map_option (lookup_ret 8) (spec_resolve sample_cspace (cap_cnode_cap 0 0 4 0x1000) (addr_bits 8 0x39))
   \<and> spec_resolve sample_cspace (cap_cnode_cap 0 0 4 0x1000) (addr_bits 8 0x39) = Some (Found 0x2020 0)"
proof -
  have "addr_bits 8 0x39 = [False, False, True, True, True, False, False, True]"
    by (simp add: addr_bits_def upt_rec bit_iff_odd)
  moreover have "addr_bits 2 2 = [True, False]" "addr_bits 0 0 = []"
    by (simp_all add: addr_bits_def upt_rec bit_iff_odd)
  ultimately have "spec_resolve sample_cspace (cap_cnode_cap 0 0 4 0x1000) (addr_bits 8 0x39)
      = Some (Found 0x2020 0)"
    by (simp add: spec_resolve.simps sample_cspace_def bits_value_def)
  with resolve_address_bits_correct [of sample_cspace "cap_cnode_cap 0 0 4 0x1000" 8 "0x39",
      OF sample_cspace_wf]
  show ?thesis by simp
qed

end
