(* ===== verification/KState.thy ===== *)
theory KState
  imports CSpaceLookup
begin

text \<open>
  The data model shared by the components that run on kernel objects: threads
  (\<^verbatim>\<open>sel4_task/src/tcb.rs\<close>), endpoints and notifications, IPC buffers, page tables and ASID
  pools, and the global variables of the scheduler and of the fault reporting.  The memory of the
  kernel is split by the type of the object: each kind of object has its own map from addresses,
  so a write through a \<^verbatim>\<open>&mut tcb_t\<close> changes one entry of the map of threads.  A pointer
  field of a packed structure is a full word here; the packed fields drop the alignment bits,
  which are zero in the address of an object.
\<close>

section \<open>Faults and errors\<close>

datatype lookup_fault =
    invalid_root
  | missing_capability (mc_bitsLeft: "7 word")
  | depth_mismatch (dm_bitsFound: "7 word") (dm_bitsLeft: "7 word")
  | guard_mismatch (gm_guardFound: word64) (gm_bitsLeft: "7 word") (gm_bitsFound: "7 word")

datatype seL4_Fault =
    seL4_Fault_NullFault
  | seL4_Fault_CapFault (cf_address: word64) (cf_inReceivePhase: bool)
  | seL4_Fault_UnknownSyscall (us_syscallNumber: word64)
  | seL4_Fault_UserException (ue_number: "32 word") (ue_code: "28 word")
  | seL4_Fault_VMFault (vf_address: word64) (vf_FSR: "32 word") (vf_instructionFault: bool)

section \<open>Registers\<close>

datatype ArchReg =
    TlsBase | Cap | Badge | MsgInfo | FaultIP | NextIP
  | Msg nat | Frame nat | GP nat | FaultMessage nat nat

definition MSG_REGISTER_NUM :: nat where "MSG_REGISTER_NUM = 4"
definition N_EXCEPTON_MESSAGE :: nat where "N_EXCEPTON_MESSAGE = 3"
definition N_SYSCALL_MESSAGE :: nat where "N_SYSCALL_MESSAGE = 12"
definition MSG_REGISTER :: "nat list" where "MSG_REGISTER = [2, 3, 4, 5]"
definition FRAME_REGISTERS :: "nat list" where
  "FRAME_REGISTERS = [34, 31, 33, 0, 1, 2, 3, 4, 5, 6, 7, 8, 16, 17, 18, 29, 30]"
definition GP_REGISTERS :: "nat list" where
  "GP_REGISTERS = [9, 10, 11, 12, 13, 14, 15, 19, 20, 21, 22, 23, 24, 25, 26, 27, 28, 35, 36]"
definition FAULT_MESSAGES :: "nat list list" where
  "FAULT_MESSAGES = [[0, 1, 2, 3, 4, 5, 6, 7, 34, 31, 32, 33], [34, 31, 33, 0, 0, 0, 0, 0, 0, 0, 0, 0]]"

definition nth_opt :: "'a list \<Rightarrow> nat \<Rightarrow> 'a option" where
  "nth_opt xs i = (if i < length xs then Some (xs ! i) else None)"

fun to_index :: "ArchReg \<Rightarrow> nat option" where
  "to_index TlsBase = Some 35"
| "to_index Cap = Some 0"
| "to_index Badge = Some 0"
| "to_index MsgInfo = Some 1"
| "to_index FaultIP = Some 34"
| "to_index NextIP = Some 32"
| "to_index (Msg i) = nth_opt MSG_REGISTER i"
| "to_index (Frame i) = nth_opt FRAME_REGISTERS i"
| "to_index (GP i) = nth_opt GP_REGISTERS i"
| "to_index (FaultMessage i j) = (nth_opt FAULT_MESSAGES i \<bind> (\<lambda>m. nth_opt m j))"

type_synonym ArchTCB = "nat \<Rightarrow> word64"

definition get_register :: "ArchTCB \<Rightarrow> ArchReg \<Rightarrow> word64 option" where
  "get_register a r = map_option a (to_index r)"

definition set_register :: "ArchTCB \<Rightarrow> ArchReg \<Rightarrow> word64 \<Rightarrow> ArchTCB option" where
  "set_register a r w = map_option (\<lambda>i. a(i := w)) (to_index r)"

definition ArchTCB_default :: ArchTCB where
  "ArchTCB_default = (\<lambda>_. 0)(33 := 0x140)"

definition config_idle_thread :: "word64 \<Rightarrow> ArchTCB \<Rightarrow> ArchTCB" where
  "config_idle_thread idle_thread a = a(32 := idle_thread, 33 := 0x145)"

section \<open>Threads\<close>

datatype ThreadState =
    ThreadStateInactive | ThreadStateRunning | ThreadStateRestart
  | ThreadStateBlockedOnReceive | ThreadStateBlockedOnSend | ThreadStateBlockedOnReply
  | ThreadStateBlockedOnNotification | ThreadStateIdleThreadState | ThreadStateExited

record thread_state =
  blockingIPCBadge :: word64
  blockingIPCCanGrant :: bool
  blockingIPCCanGrantReply :: bool
  blockingIPCIsCall :: bool
  tcbQueued :: bool
  blockingObject :: ptr
  tsType :: ThreadState

record tcb_t =
  tcbArch :: ArchTCB
  tcbState :: thread_state
  tcbBoundNotification :: ptr
  tcbFault :: seL4_Fault
  tcbLookupFailure :: lookup_fault
  tcbDomain :: word64
  tcbMCP :: word64
  tcbPriority :: word64
  tcbTimeSlice :: word64
  tcbFaultHandler :: word64
  tcbIPCBuffer :: word64
  tcbAffinity :: word64
  tcbSchedNext :: ptr
  tcbSchedPrev :: ptr
  tcbEPNext :: ptr
  tcbEPPrev :: ptr

record tcb_queue_t =
  q_head :: ptr
  q_tail :: ptr

section \<open>Endpoints, notifications and IPC buffers\<close>

datatype EPState = EPState_Idle | EPState_Send | EPState_Recv

record endpoint =
  epQueue_head :: ptr
  epQueue_tail :: ptr
  ep_state :: EPState

datatype NtfnState = NtfnState_Idle | NtfnState_Waiting | NtfnState_Active

record notification =
  ntfnBoundTCB :: ptr
  ntfnMsgIdentifier :: word64
  ntfnQueue_head :: ptr
  ntfnQueue_tail :: ptr
  ntfn_state :: NtfnState

record seL4_IPCBuffer =
  buf_tag :: word64
  buf_msg :: "word64 list"
  buf_userData :: word64
  caps_or_badges :: "word64 list"
  receiveCNode :: word64
  receiveIndex :: word64
  receiveDepth :: word64

section \<open>Address spaces\<close>

datatype asid_map = asid_map_none | asid_map_vspace (am_vspace_root: ptr)

section \<open>The kernel state\<close>

record syscall_error_t =
  se_type :: word64
  invalidArgumentNumber :: word64
  invalidCapNumber :: word64
  rangeErrorMin :: word64
  rangeErrorMax :: word64
  memoryLeft :: word64
  failedLookupWasSource :: word64

record kstate =
  ks_ctes :: cte_heap
  ks_tcbs :: "ptr \<Rightarrow> tcb_t"
  ks_eps :: "ptr \<Rightarrow> endpoint"
  ks_ntfns :: "ptr \<Rightarrow> notification"
  ks_bufs :: "ptr \<Rightarrow> seL4_IPCBuffer"
  ks_ptes :: "ptr \<Rightarrow> word64"
  ks_pools :: "ptr \<Rightarrow> asid_map list"
  ksReadyQueues :: "tcb_queue_t list"
  ksReadyQueuesL1Bitmap :: "word64 list"
  ksReadyQueuesL2Bitmap :: "word64 list list"
  ksCurThread :: ptr
  ksIdleThread :: ptr
  ksSchedulerAction :: ptr
  ksDomainTime :: word64
  ksCurDomain :: word64
  ksDomScheduleIdx :: word64
  ksWorkUnitsCompleted :: word64
  int_state_irq_table :: "word64 list"
  int_state_irq_node_ptr :: ptr
  armKSASIDTable :: "ptr list"
  armKSGlobalUserVSpace :: ptr
  ttbr0_el1 :: word64
  current_lookup_fault :: lookup_fault
  current_fault :: seL4_Fault
  current_syscall_error :: syscall_error_t
  current_extra_caps :: "ptr list"
  gic_enabled :: "word64 \<Rightarrow> bool"
  active_irq :: word64

abbreviation tcb_at :: "kstate \<Rightarrow> ptr \<Rightarrow> tcb_t" where
  "tcb_at s p \<equiv> ks_tcbs s p"

definition upd_tcb :: "ptr \<Rightarrow> (tcb_t \<Rightarrow> tcb_t) \<Rightarrow> kstate \<Rightarrow> kstate" where
  "upd_tcb p f s = s\<lparr>ks_tcbs := (ks_tcbs s)(p := f (ks_tcbs s p))\<rparr>"

definition upd_ep :: "ptr \<Rightarrow> (endpoint \<Rightarrow> endpoint) \<Rightarrow> kstate \<Rightarrow> kstate" where
  "upd_ep p f s = s\<lparr>ks_eps := (ks_eps s)(p := f (ks_eps s p))\<rparr>"

definition upd_ntfn :: "ptr \<Rightarrow> (notification \<Rightarrow> notification) \<Rightarrow> kstate \<Rightarrow> kstate" where
  "upd_ntfn p f s = s\<lparr>ks_ntfns := (ks_ntfns s)(p := f (ks_ntfns s p))\<rparr>"

definition upd_buf :: "ptr \<Rightarrow> (seL4_IPCBuffer \<Rightarrow> seL4_IPCBuffer) \<Rightarrow> kstate \<Rightarrow> kstate" where
  "upd_buf p f s = s\<lparr>ks_bufs := (ks_bufs s)(p := f (ks_bufs s p))\<rparr>"

text \<open>A slot operation of the capability layer, run on the kernel state.\<close>

definition on_ctes :: "(cte_heap \<Rightarrow> cte_heap option) \<Rightarrow> kstate \<Rightarrow> kstate option" where
  "on_ctes f s = map_option (\<lambda>h. s\<lparr>ks_ctes := h\<rparr>) (f (ks_ctes s))"

text \<open>The slots of a thread lie at the start of its block of \<open>2 ^ SEL4_TCB_BITS\<close> bytes.\<close>

definition TCB_CTABLE :: word64 where "TCB_CTABLE = 0"
definition TCB_VTABLE :: word64 where "TCB_VTABLE = 1"
definition TCB_REPLY :: word64 where "TCB_REPLY = 2"
definition TCB_CALLER :: word64 where "TCB_CALLER = 3"
definition TCB_BUFFER :: word64 where "TCB_BUFFER = 4"
definition TCB_OFFSET :: word64 where "TCB_OFFSET = 0x400"

lemmas tcb_slot_consts = TCB_CTABLE_def TCB_VTABLE_def TCB_REPLY_def TCB_CALLER_def TCB_BUFFER_def

definition get_cspace :: "ptr \<Rightarrow> word64 \<Rightarrow> ptr" where
  "get_cspace p i = (p AND NOT (mask_bits SEL4_TCB_BITS)) + 32 * i"

text \<open>A state with no objects: every thread is inactive, every queue and table is empty.\<close>

definition empty_tcb :: tcb_t where
  "empty_tcb = \<lparr> tcbArch = (\<lambda>_. 0),
     tcbState = \<lparr> blockingIPCBadge = 0, blockingIPCCanGrant = False, blockingIPCCanGrantReply = False,
       blockingIPCIsCall = False, tcbQueued = False, blockingObject = 0, tsType = ThreadStateInactive \<rparr>,
     tcbBoundNotification = 0, tcbFault = seL4_Fault_NullFault, tcbLookupFailure = invalid_root,
     tcbDomain = 0, tcbMCP = 0, tcbPriority = 0, tcbTimeSlice = 0, tcbFaultHandler = 0,
     tcbIPCBuffer = 0, tcbAffinity = 0, tcbSchedNext = 0, tcbSchedPrev = 0, tcbEPNext = 0,
     tcbEPPrev = 0 \<rparr>"

definition empty_kstate :: kstate where
  "empty_kstate = \<lparr> ks_ctes = (\<lambda>_. empty_cte), ks_tcbs = (\<lambda>_. empty_tcb),
     ks_eps = (\<lambda>_. \<lparr> epQueue_head = 0, epQueue_tail = 0, ep_state = EPState_Idle \<rparr>),
     ks_ntfns = (\<lambda>_. \<lparr> ntfnBoundTCB = 0, ntfnMsgIdentifier = 0, ntfnQueue_head = 0,
       ntfnQueue_tail = 0, ntfn_state = NtfnState_Idle \<rparr>),
     ks_bufs = (\<lambda>_. \<lparr> buf_tag = 0, buf_msg = replicate 120 0, buf_userData = 0,
       caps_or_badges = replicate 3 0, receiveCNode = 0, receiveIndex = 0, receiveDepth = 0 \<rparr>),
     ks_ptes = (\<lambda>_. 0), ks_pools = (\<lambda>_. replicate 512 asid_map_none),
     ksReadyQueues = replicate 256 \<lparr> q_head = 0, q_tail = 0 \<rparr>,
     ksReadyQueuesL1Bitmap = [0], ksReadyQueuesL2Bitmap = [[0, 0, 0, 0]],
     ksCurThread = 0, ksIdleThread = 0, ksSchedulerAction = 1, ksDomainTime = 0, ksCurDomain = 0,
     ksDomScheduleIdx = 0, ksWorkUnitsCompleted = 0, int_state_irq_table = replicate 160 0,
     int_state_irq_node_ptr = 0, armKSASIDTable = replicate 128 0, armKSGlobalUserVSpace = 0,
     ttbr0_el1 = 0, current_lookup_fault = invalid_root, current_fault = seL4_Fault_NullFault,
     current_syscall_error = \<lparr> se_type = 0, invalidArgumentNumber = 0, invalidCapNumber = 0,
       rangeErrorMin = 0, rangeErrorMax = 0, memoryLeft = 0, failedLookupWasSource = 0 \<rparr>,
     current_extra_caps = [0, 0, 0], gic_enabled = (\<lambda>_. False), active_irq = 1023 \<rparr>"

section \<open>Laws of the updates\<close>

lemma upd_tcb_frame [simp]:
  "ks_ctes (upd_tcb p f s) = ks_ctes s" "ks_eps (upd_tcb p f s) = ks_eps s"
  "ks_ntfns (upd_tcb p f s) = ks_ntfns s" "ks_bufs (upd_tcb p f s) = ks_bufs s"
  "ks_ptes (upd_tcb p f s) = ks_ptes s" "ks_pools (upd_tcb p f s) = ks_pools s"
  "ksReadyQueues (upd_tcb p f s) = ksReadyQueues s"
  "ksReadyQueuesL1Bitmap (upd_tcb p f s) = ksReadyQueuesL1Bitmap s"
  "ksReadyQueuesL2Bitmap (upd_tcb p f s) = ksReadyQueuesL2Bitmap s"
  "ksCurThread (upd_tcb p f s) = ksCurThread s" "ksIdleThread (upd_tcb p f s) = ksIdleThread s"
  "ksSchedulerAction (upd_tcb p f s) = ksSchedulerAction s"
  "ksCurDomain (upd_tcb p f s) = ksCurDomain s" "ksDomainTime (upd_tcb p f s) = ksDomainTime s"
  "ttbr0_el1 (upd_tcb p f s) = ttbr0_el1 s"
  by (simp_all add: upd_tcb_def)

lemma ks_tcbs_upd_tcb: "ks_tcbs (upd_tcb p f s) = (ks_tcbs s)(p := f (ks_tcbs s p))"
  by (simp add: upd_tcb_def)

lemma tcb_at_upd_tcb [simp]: "tcb_at (upd_tcb p f s) q = (if q = p then f (tcb_at s p) else tcb_at s q)"
  by (simp add: upd_tcb_def)

lemma nth_opt_simps [simp]:
  "i < length xs \<Longrightarrow> nth_opt xs i = Some (xs ! i)"
  "nth_opt xs i = None \<longleftrightarrow> length xs \<le> i"
  by (auto simp: nth_opt_def)

lemma get_set_register:
  "set_register a r w = Some a' \<Longrightarrow> get_register a' r = Some w"
  by (auto simp: get_register_def set_register_def)

end
