(* ===== verification/VSpace.thy ===== *)
theory VSpace
  imports KState
begin

text \<open>
  Address spaces of the aarch64 kernel: the address types of \<^verbatim>\<open>rel4-arch\<close>, page table
  entries and the page table walk, ASID pools, and the selection of the translation root
  (\<^verbatim>\<open>sel4_vspace/src/arch/aarch64\<close>).  Page table entries are words in a heap of their own, the
  register \<^verbatim>\<open>TTBR0_EL1\<close> is a component of the state, and the cache and TLB maintenance
  instructions have no effect on either.
\<close>

section \<open>Addresses\<close>

definition PPTR_BASE_OFFSET :: word64 where "PPTR_BASE_OFFSET = 0xffffff8000000000"
definition ASID_LOW_BITS :: word64 where "ASID_LOW_BITS = 9"
definition PT_INDEX_BITS :: word64 where "PT_INDEX_BITS = 9"
definition VSPACE_INDEX_BITS :: word64 where "VSPACE_INDEX_BITS = 9"
definition SEL4_PAGE_BITS :: word64 where "SEL4_PAGE_BITS = 12"
definition UPT_LEVELS :: word64 where "UPT_LEVELS = 4"

lemmas vs_consts = PPTR_BASE_OFFSET_def ASID_LOW_BITS_def PT_INDEX_BITS_def VSPACE_INDEX_BITS_def
  SEL4_PAGE_BITS_def UPT_LEVELS_def

definition align_down :: "word64 \<Rightarrow> word64 \<Rightarrow> word64" where
  "align_down a bits = shl (shr a bits) bits"

definition align_up :: "word64 \<Rightarrow> word64 \<Rightarrow> word64" where
  "align_up a bits = (let size = bit_mac bits in
     (a div size + (if a mod size = 0 then 0 else 1)) * size)"

definition aligned :: "word64 \<Rightarrow> word64 \<Rightarrow> bool" where
  "aligned a bits \<longleftrightarrow> a AND bit_mac bits = 0"

definition to_paddr :: "word64 \<Rightarrow> word64" where
  "to_paddr p = p - PPTR_BASE_OFFSET"

definition to_pptr :: "word64 \<Rightarrow> word64" where
  "to_pptr p = p + PPTR_BASE_OFFSET"

definition kpptr_to_paddr :: "word64 \<Rightarrow> word64" where
  "kpptr_to_paddr x = x - PPTR_BASE_OFFSET"

section \<open>Page table entries\<close>

definition pte_table :: word64 where "pte_table = 3"
definition pte_page :: word64 where "pte_page = 1"
definition pte_4k_page :: word64 where "pte_4k_page = 7"
definition pte_invalid :: word64 where "pte_invalid = 0"

lemmas pte_tags = pte_table_def pte_page_def pte_4k_page_def pte_invalid_def

definition pte_get_type :: "word64 \<Rightarrow> word64" where
  "pte_get_type e = (e AND 0x3) OR (drop_bit 56 (e AND push_bit 58 1))"

definition get_page_base_address :: "word64 \<Rightarrow> word64" where
  "get_page_base_address e = e AND 0xfffffffff000"

definition next_level_paddr :: "word64 \<Rightarrow> word64" where
  "next_level_paddr e = e AND (mask_bits 48 AND NOT 0xfff)"

definition pte_is_page_type :: "word64 \<Rightarrow> bool" where
  "pte_is_page_type e \<longleftrightarrow> pte_get_type e = pte_4k_page \<or> pte_get_type e = pte_page"

definition is_pte_table :: "word64 \<Rightarrow> bool" where
  "is_pte_table e \<longleftrightarrow> pte_get_type e \<noteq> pte_table"

definition pte_new_table :: "word64 \<Rightarrow> word64" where
  "pte_new_table pt_base_address = (pt_base_address AND 0xfffffffff000) OR 0x3"

definition pte_new_page ::
  "word64 \<Rightarrow> word64 \<Rightarrow> word64 \<Rightarrow> word64 \<Rightarrow> word64 \<Rightarrow> word64 \<Rightarrow> word64 \<Rightarrow> word64" where
  "pte_new_page UXN page_base_address nG AF SH AP AttrIndx =
     push_bit 54 (UXN AND 0x1) OR (page_base_address AND 0xfffffffff000) OR
     push_bit 11 (nG AND 0x1) OR push_bit 10 (AF AND 0x1) OR push_bit 8 (SH AND 0x3) OR
     push_bit 6 (AP AND 0x3) OR push_bit 2 (AttrIndx AND 0x7) OR 0x1"

definition pte_new_4k_page ::
  "word64 \<Rightarrow> word64 \<Rightarrow> word64 \<Rightarrow> word64 \<Rightarrow> word64 \<Rightarrow> word64 \<Rightarrow> word64 \<Rightarrow> word64" where
  "pte_new_4k_page UXN page_base_address nG AF SH AP AttrIndx =
     push_bit 54 (UXN AND 0x1) OR (page_base_address AND 0xfffffffff000) OR
     push_bit 11 (nG AND 0x1) OR push_bit 10 (AF AND 0x1) OR push_bit 8 (SH AND 0x3) OR
     push_bit 6 (AP AND 0x3) OR push_bit 2 (AttrIndx AND 0x7) OR 0x400000000000003"

fun ap_from_vm_rights_t :: "vm_rights_t \<Rightarrow> word64" where
  "ap_from_vm_rights_t VMKernelOnly = 0"
| "ap_from_vm_rights_t VMReadWrite = 0x40"
| "ap_from_vm_rights_t VMReadOnly = 0x40 OR 0x80"

record vm_attributes_t =
  armExecuteNever :: bool
  armParityEnabled :: bool
  armPageCacheable :: bool

definition vm_attributes_from_word :: "word64 \<Rightarrow> vm_attributes_t" where
  "vm_attributes_from_word w =
     \<lparr> armExecuteNever = bit w 2, armParityEnabled = bit w 1, armPageCacheable = bit w 0 \<rparr>"

definition make_user_pte ::
  "word64 \<Rightarrow> vm_rights_t \<Rightarrow> vm_attributes_t \<Rightarrow> word64 \<Rightarrow> word64" where
  "make_user_pte paddr rights attr page_size =
    (let nonexecutable = of_bool (armExecuteNever attr);
         attrindx = if armPageCacheable attr then 4 else 0;
         vm_right = drop_bit 6 (ap_from_vm_rights_t rights) in
     if page_size = 0 then pte_new_4k_page nonexecutable paddr 1 1 0 vm_right attrindx
     else pte_new_page nonexecutable paddr 1 1 0 vm_right attrindx)"

section \<open>The page table walk\<close>

definition upt_level_shift :: "word64 \<Rightarrow> word64" where
  "upt_level_shift n = PT_INDEX_BITS * ((UPT_LEVELS - 1) - n) + SEL4_PAGE_BITS"

definition get_upt_index :: "word64 \<Rightarrow> word64 \<Rightarrow> word64" where
  "get_upt_index v n = shr v (upt_level_shift n) AND mask_bits PT_INDEX_BITS"

record lookupPTSlot_ret_t =
  ptSlot :: ptr
  ptBitsLeft :: word64

fun lookup_pt_loop ::
  "(ptr \<Rightarrow> word64) \<Rightarrow> word64 \<Rightarrow> nat \<Rightarrow> lookupPTSlot_ret_t \<Rightarrow> lookupPTSlot_ret_t" where
  "lookup_pt_loop h vptr 0 ret = ret"
| "lookup_pt_loop h vptr (Suc level) ret =
    (if pte_get_type (h (ptSlot ret)) = pte_table then
       let bitsLeft = ptBitsLeft ret - PT_INDEX_BITS;
           pt = to_pptr (next_level_paddr (h (ptSlot ret)));
           pt = pt + 8 * (shr vptr bitsLeft AND mask_bits PT_INDEX_BITS) in
       lookup_pt_loop h vptr level \<lparr> ptSlot = pt, ptBitsLeft = bitsLeft \<rparr>
     else ret)"

definition lookup_pt_slot :: "(ptr \<Rightarrow> word64) \<Rightarrow> ptr \<Rightarrow> word64 \<Rightarrow> lookupPTSlot_ret_t" where
  "lookup_pt_slot h pt vptr =
    (let level = UPT_LEVELS - 1;
         ptBitsLeft = PT_INDEX_BITS * level + SEL4_PAGE_BITS;
         pt = pt + 8 * (shr vptr ptBitsLeft AND mask_bits VSPACE_INDEX_BITS) in
     lookup_pt_loop h vptr (unat level) \<lparr> ptSlot = pt, ptBitsLeft = ptBitsLeft \<rparr>)"

section \<open>Address space identifiers\<close>

definition get_asid_pool_by_index :: "word64 \<Rightarrow> kstate \<Rightarrow> ptr option" where
  "get_asid_pool_by_index idx s = index_checked (armKSASIDTable s) idx"

definition set_asid_pool_by_index :: "word64 \<Rightarrow> ptr \<Rightarrow> kstate \<Rightarrow> kstate option" where
  "set_asid_pool_by_index idx val s =
     map_option (\<lambda>t. s\<lparr>armKSASIDTable := t\<rparr>) (update_checked (armKSASIDTable s) idx val)"

text \<open>The outer option is the panic, the inner one the result of the code.\<close>

definition find_map_for_asid :: "word64 \<Rightarrow> kstate \<Rightarrow> asid_map option option" where
  "find_map_for_asid asid s = do {
     poolPtr \<leftarrow> get_asid_pool_by_index (shr asid ASID_LOW_BITS) s;
     if poolPtr = 0 then Some None
     else do {
       m \<leftarrow> index_checked (ks_pools s poolPtr) (asid AND mask_bits ASID_LOW_BITS);
       Some (Some m)
     }
   }"

record findVSpaceForASID_ret =
  fv_status :: exception_t
  fv_vspace_root :: "ptr option"
  fv_lookup_fault :: "lookup_fault option"

definition find_vspace_for_asid :: "word64 \<Rightarrow> kstate \<Rightarrow> findVSpaceForASID_ret option" where
  "find_vspace_for_asid asid s =
    (let ret = \<lparr> fv_status = EXCEPTION_LOOKUP_FAULT, fv_vspace_root = None,
                 fv_lookup_fault = Some invalid_root \<rparr> in
     do {
       m \<leftarrow> find_map_for_asid asid s;
       case m of
         Some (asid_map_vspace root) \<Rightarrow>
           Some (ret\<lparr>fv_vspace_root := Some root, fv_status := EXCEPTION_NONE\<rparr>)
       | _ \<Rightarrow> Some ret
     })"

section \<open>The translation root\<close>

definition ttbr_new :: "word64 \<Rightarrow> word64 \<Rightarrow> word64" where
  "ttbr_new asid addr = push_bit 48 (asid AND 0xffff) OR (addr AND 0xffffffffffff)"

definition set_current_user_vspace_root :: "word64 \<Rightarrow> kstate \<Rightarrow> kstate" where
  "set_current_user_vspace_root val s = s\<lparr>ttbr0_el1 := val\<rparr>"

definition global_user_ttbr :: "kstate \<Rightarrow> word64" where
  "global_user_ttbr s = ttbr_new 0 (kpptr_to_paddr (armKSGlobalUserVSpace s))"

definition set_vm_root :: "cap \<Rightarrow> kstate \<Rightarrow> kstate option" where
  "set_vm_root thread_root s =
    (if \<not> is_valid_native_root thread_root then
       Some (set_current_user_vspace_root (global_user_ttbr s) s)
     else
       let vspace_root = capVSBasePtr thread_root; asid = ucast (capVSMappedASID thread_root) in
       do {
         find_ret \<leftarrow> find_vspace_for_asid asid s;
         let bad = (case fv_vspace_root find_ret of
                      Some root \<Rightarrow> fv_status find_ret \<noteq> EXCEPTION_NONE \<or> root \<noteq> vspace_root
                    | None \<Rightarrow> False);
         if bad then Some (set_current_user_vspace_root (global_user_ttbr s) s)
         else Some (set_current_user_vspace_root (to_paddr (capVSBasePtr thread_root)) s)
       })"

definition delete_asid :: "word64 \<Rightarrow> ptr \<Rightarrow> cap \<Rightarrow> kstate \<Rightarrow> kstate option" where
  "delete_asid asid vspace c s = do {
     pool \<leftarrow> get_asid_pool_by_index (shr asid ASID_LOW_BITS) s;
     if pool = 0 then Some s
     else do {
       let i = asid AND mask_bits ASID_LOW_BITS;
       m \<leftarrow> index_checked (ks_pools s pool) i;
       case m of
         asid_map_vspace root \<Rightarrow>
           if root = vspace then
             set_vm_root c
               (s\<lparr>ks_pools := (ks_pools s)(pool := (ks_pools s pool)[unat i := asid_map_none])\<rparr>)
           else Some s
       | asid_map_none \<Rightarrow> Some s
     }
   }"

definition delete_asid_pool :: "word64 \<Rightarrow> ptr \<Rightarrow> cap \<Rightarrow> kstate \<Rightarrow> kstate option" where
  "delete_asid_pool asid_base pool default_vspace_cap s = do {
     pool_in_table \<leftarrow> get_asid_pool_by_index (shr asid_base ASID_LOW_BITS) s;
     if pool = pool_in_table then do {
       convert_to_mut_type_ref pool_in_table;
       s \<leftarrow> set_asid_pool_by_index (shr asid_base ASID_LOW_BITS) 0 s;
       set_vm_root default_vspace_cap s
     } else Some s
   }"

section \<open>Unmapping\<close>

text \<open>
  The loop of \<^verbatim>\<open>unmap_page_table\<close>; \<open>n\<close> is the number of levels left.  \<open>None\<close> is the early return
  on an entry that is not a table.
\<close>

fun unmap_pt_walk ::
  "(ptr \<Rightarrow> word64) \<Rightarrow> word64 \<Rightarrow> ptr \<Rightarrow> nat \<Rightarrow> word64 \<Rightarrow> ptr \<Rightarrow> ptr \<Rightarrow> (ptr \<times> ptr) option" where
  "unmap_pt_walk h vaddr pt 0 level pte slot = Some (slot, pte)"
| "unmap_pt_walk h vaddr pt (Suc n) level pte slot =
    (if pte = pt then Some (slot, pte)
     else
       let slot = pte + 8 * get_upt_index vaddr level in
       if pte_get_type (h slot) \<noteq> pte_table then None
       else unmap_pt_walk h vaddr pt n (level + 1) (to_pptr (next_level_paddr (h slot))) slot)"

definition unmap_page_table :: "word64 \<Rightarrow> word64 \<Rightarrow> ptr \<Rightarrow> kstate \<Rightarrow> kstate option" where
  "unmap_page_table asid vaddr pt s = do {
     find_ret \<leftarrow> find_vspace_for_asid asid s;
     if fv_status find_ret \<noteq> EXCEPTION_NONE then Some s
     else do {
       root \<leftarrow> fv_vspace_root find_ret;
       case unmap_pt_walk (ks_ptes s) vaddr pt (unat (UPT_LEVELS - 1)) 0 root 0 of
         None \<Rightarrow> Some s
       | Some (slot, pte) \<Rightarrow>
           if pte \<noteq> pt then Some s
           else do {
             kassert (slot \<noteq> 0);
             let h = (ks_ptes s)(slot := 0);
             Some (s\<lparr>ks_ptes := h(slot := h pte)\<rparr>)
           }
     }
   }"

definition unmap_page :: "word64 \<Rightarrow> word64 \<Rightarrow> word64 \<Rightarrow> ptr \<Rightarrow> kstate \<Rightarrow> kstate option" where
  "unmap_page page_size asid vptr pptr s = do {
     let addr = to_paddr pptr;
     find_ret \<leftarrow> find_vspace_for_asid asid s;
     if fv_status find_ret \<noteq> EXCEPTION_NONE then Some s
     else do {
       root \<leftarrow> fv_vspace_root find_ret;
       let lu_ret = lookup_pt_slot (ks_ptes s) root vptr;
       bits \<leftarrow> pageBitsForSize page_size;
       if ptBitsLeft lu_ret \<noteq> bits then Some s
       else
         let pte = ks_ptes s (ptSlot lu_ret) in
         if \<not> (pte_get_type pte = pte_4k_page \<or> pte_get_type pte = pte_page) then Some s
         else if get_page_base_address pte \<noteq> addr then Some s
         else do {
           let s = s\<lparr>ks_ptes := (ks_ptes s)(ptSlot lu_ret := 0)\<rparr>;
           kassert (asid < bit_mac 16);
           Some s
         }
     }
   }"

section \<open>Reference notions\<close>

text \<open>
  \<open>asid_root\<close> reads the two-level table of address space identifiers: the root that is assigned
  to an identifier.  \<open>vspace_wf\<close> is the shape of the table that the types of the code give.
\<close>

definition asid_root :: "kstate \<Rightarrow> word64 \<Rightarrow> ptr option" where
  "asid_root s asid =
    (let pool = armKSASIDTable s ! (unat asid div 512) in
     if pool = 0 then None
     else case ks_pools s pool ! (unat asid mod 512) of
            asid_map_vspace root \<Rightarrow> Some root
          | asid_map_none \<Rightarrow> None)"

definition vspace_wf :: "kstate \<Rightarrow> bool" where
  "vspace_wf s \<longleftrightarrow> length (armKSASIDTable s) = 128 \<and> (\<forall>p. length (ks_pools s p) = 512)"

text \<open>The entry at which the walk of a virtual address ends, in the space of an identifier.\<close>

definition leaf_slot :: "kstate \<Rightarrow> ptr \<Rightarrow> word64 \<Rightarrow> ptr" where
  "leaf_slot s root v = ptSlot (lookup_pt_slot (ks_ptes s) root v)"

definition maps_frame :: "kstate \<Rightarrow> ptr \<Rightarrow> word64 \<Rightarrow> word64 \<Rightarrow> ptr \<Rightarrow> bool" where
  "maps_frame s root v bits frame \<longleftrightarrow>
     ptBitsLeft (lookup_pt_slot (ks_ptes s) root v) = bits \<and>
     pte_is_page_type (ks_ptes s (leaf_slot s root v)) \<and>
     get_page_base_address (ks_ptes s (leaf_slot s root v)) = to_paddr frame"

section \<open>The ASID table\<close>

lemma asid_index:
  assumes "unat asid < 2 ^ 16"
  shows "unat (shr asid ASID_LOW_BITS) = unat asid div 512"
    "unat (asid AND mask_bits ASID_LOW_BITS) = unat asid mod 512"
proof -
  show "unat (shr asid ASID_LOW_BITS) = unat asid div 512"
    by (simp add: shr_def ASID_LOW_BITS_def drop_bit_eq_div unat_div)
  show "unat (asid AND mask_bits ASID_LOW_BITS) = unat asid mod 512"
    using and_mask_bits [of ASID_LOW_BITS asid]
    by (simp add: ASID_LOW_BITS_def take_bit_eq_mod unat_mod)
qed

lemma asid_bounds: "unat asid < 2 ^ 16 \<Longrightarrow> unat asid div 512 < 128"
  by (simp add: less_mult_imp_div_less)

lemma find_vspace_for_asid_root:
  assumes "vspace_wf s" "unat asid < 2 ^ 16"
  shows "find_vspace_for_asid asid s =
    Some \<lparr> fv_status = (if asid_root s asid = None then EXCEPTION_LOOKUP_FAULT else EXCEPTION_NONE),
           fv_vspace_root = asid_root s asid, fv_lookup_fault = Some invalid_root \<rparr>"
  using assms asid_bounds [OF assms(2)]
  by (auto simp: find_vspace_for_asid_def find_map_for_asid_def get_asid_pool_by_index_def
      asid_index asid_root_def vspace_wf_def Let_def index_checked_def split: asid_map.splits)

lemma unat_asid16 [simp]: "unat (ucast (a :: 16 word) :: word64) = unat a"
  by (simp add: unsigned_ucast_eq take_bit_nat_eq_self_iff less_le_trans [OF unsigned_less])

lemma asid16_bound: "unat (ucast (a :: 16 word) :: word64) < 2 ^ 16"
  using unsigned_less [of a, where ?'a = nat] by simp

lemma vspace_frame [simp]:
  "vspace_wf (s\<lparr>ttbr0_el1 := v\<rparr>) = vspace_wf s" "asid_root (s\<lparr>ttbr0_el1 := v\<rparr>) = asid_root s"
  "vspace_wf (s\<lparr>ks_ptes := h\<rparr>) = vspace_wf s" "asid_root (s\<lparr>ks_ptes := h\<rparr>) = asid_root s"
  by (simp_all add: vspace_wf_def asid_root_def Let_def fun_eq_iff)

section \<open>Selecting and deleting address spaces\<close>

lemma set_vm_root_result:
  assumes "vspace_wf s"
  shows "set_vm_root c s =
    Some (s\<lparr>ttbr0_el1 :=
      if is_valid_native_root c \<and> asid_root s (ucast (capVSMappedASID c)) \<in> {None, Some (capVSBasePtr c)}
      then to_paddr (capVSBasePtr c) else global_user_ttbr s\<rparr>)"
proof (cases "is_valid_native_root c")
  case True
  with find_vspace_for_asid_root [OF assms asid16_bound [of "capVSMappedASID c"]] show ?thesis
    by (cases "asid_root s (ucast (capVSMappedASID c))")
      (simp_all add: set_vm_root_def set_current_user_vspace_root_def Let_def)
qed (simp add: set_vm_root_def set_current_user_vspace_root_def)

lemma asid_root_clear:
  assumes wf: "vspace_wf s" and a: "unat asid < 2 ^ 16" and b: "unat b < 2 ^ 16"
    and inj: "\<And>i j. i < 128 \<Longrightarrow> j < 128 \<Longrightarrow> armKSASIDTable s ! i = armKSASIDTable s ! j \<Longrightarrow>
      armKSASIDTable s ! i \<noteq> 0 \<Longrightarrow> i = j"
    and pool: "pool = armKSASIDTable s ! (unat asid div 512)" "pool \<noteq> 0"
  shows "asid_root (s\<lparr>ks_pools := (ks_pools s)(pool := (ks_pools s pool)[unat asid mod 512 := asid_map_none])\<rparr>) b
    = (if b = asid then None else asid_root s b)"
proof -
  have "unat b = unat asid"
    if "unat b div 512 = unat asid div 512" "unat b mod 512 = unat asid mod 512"
    using that by (metis (no_types) div_mult_mod_eq)
  then have eq: "b = asid \<longleftrightarrow> unat b div 512 = unat asid div 512 \<and> unat b mod 512 = unat asid mod 512"
    unfolding word_unat_eq_iff by (intro iffI) simp_all
  have "armKSASIDTable s ! (unat b div 512) = pool \<longleftrightarrow> unat b div 512 = unat asid div 512"
    using inj [of "unat b div 512" "unat asid div 512"] asid_bounds [OF a] asid_bounds [OF b] pool
    by auto
  then show ?thesis
    using pool wf by (cases "unat b div 512 = unat asid div 512")
      (auto simp: asid_root_def Let_def eq vspace_wf_def nth_list_update)
qed

definition asid_table_inj :: "kstate \<Rightarrow> bool" where
  "asid_table_inj s \<longleftrightarrow> (\<forall>i < 128. \<forall>j < 128. armKSASIDTable s ! i = armKSASIDTable s ! j \<longrightarrow>
     armKSASIDTable s ! i \<noteq> 0 \<longrightarrow> i = j)"

lemma delete_asid_effect:
  assumes wf: "vspace_wf s" and inj: "asid_table_inj s" and a: "unat asid < 2 ^ 16"
    and root: "asid_root s asid = Some vspace"
  obtains s1 where "vspace_wf s1" "delete_asid asid vspace c s = set_vm_root c s1"
    "\<And>b. unat b < 2 ^ 16 \<Longrightarrow> asid_root s1 b = (if b = asid then None else asid_root s b)"
    "ks_ptes s1 = ks_ptes s"
proof -
  define pool where "pool = armKSASIDTable s ! (unat asid div 512)"
  have pool: "pool \<noteq> 0" "ks_pools s pool ! (unat asid mod 512) = asid_map_vspace vspace"
    using root by (auto simp: asid_root_def Let_def pool_def split: if_splits asid_map.splits)
  let ?s = "s\<lparr>ks_pools := (ks_pools s)(pool := (ks_pools s pool)[unat asid mod 512 := asid_map_none])\<rparr>"
  have "delete_asid asid vspace c s = set_vm_root c ?s"
    using wf pool asid_bounds [OF a] asid_index [OF a]
    by (simp add: delete_asid_def get_asid_pool_by_index_def vspace_wf_def index_checked_def pool_def)
  moreover have "asid_root ?s b = (if b = asid then None else asid_root s b)"
    if "unat b < 2 ^ 16" for b
    using asid_root_clear [OF wf a that _ pool_def pool(1)] inj by (auto simp: asid_table_inj_def)
  moreover have "vspace_wf ?s" using wf by (simp add: vspace_wf_def)
  ultimately show ?thesis using that [of ?s] by simp
qed

text \<open>The state used by the witnesses: one ASID pool, whose entry 5 is assigned a root.\<close>

definition sample_vstate :: kstate where
  "sample_vstate = empty_kstate\<lparr>armKSASIDTable := (replicate 128 0)[0 := 0x5000],
     ks_pools := (\<lambda>_. (replicate 512 asid_map_none)[5 := asid_map_vspace 0xffffff8000010000]),
     armKSGlobalUserVSpace := 0xffffff8000002000\<rparr>"

lemma sample_vstate_wf: "vspace_wf sample_vstate" "asid_table_inj sample_vstate"
  by (auto simp: vspace_wf_def asid_table_inj_def sample_vstate_def nth_list_update split: if_splits)

lemma sample_vstate_root: "asid_root sample_vstate 5 = Some 0xffffff8000010000"
  by (simp add: asid_root_def sample_vstate_def)

text \<open>
  C22: \<open>delete_asid\<close> takes the identifier out of the table and leaves the assignment of every other
  identifier and all page table entries as they are.
\<close>

theorem delete_asid_correct:
  assumes "vspace_wf s" "asid_table_inj s" "unat asid < 2 ^ 16" "asid_root s asid = Some vspace"
  shows "\<exists>s'. delete_asid asid vspace c s = Some s' \<and> vspace_wf s' \<and> ks_ptes s' = ks_ptes s \<and>
    (\<forall>b. unat b < 2 ^ 16 \<longrightarrow> asid_root s' b = (if b = asid then None else asid_root s b))"
proof -
  obtain s1 where s1: "vspace_wf s1" "delete_asid asid vspace c s = set_vm_root c s1"
    "\<And>b. unat b < 2 ^ 16 \<Longrightarrow> asid_root s1 b = (if b = asid then None else asid_root s b)"
    "ks_ptes s1 = ks_ptes s"
    using delete_asid_effect [OF assms] by blast
  show ?thesis
    unfolding s1(2) set_vm_root_result [OF s1(1)]
    using s1(1,3,4) by simp
qed

theorem delete_asid_correct_witness:
  "\<exists>s'. delete_asid 5 0xffffff8000010000 cap_null_cap sample_vstate = Some s' \<and> asid_root s' 5 = None"
  using delete_asid_correct [OF sample_vstate_wf _ sample_vstate_root, of cap_null_cap]
  by (auto dest: spec [of _ 5])

text \<open>
  C19: \<open>set_vm_root\<close> falls back to the empty user space only when the identifier of the capability is
  assigned to another root; when it is assigned to nothing the root of the capability is loaded.
  Deleting the address space of the running thread therefore clears the table entry and then loads
  the deleted root again.
\<close>

theorem deleted_vspace_stays_installed:
  assumes "vspace_wf s" "asid_table_inj s" "is_valid_native_root c"
    and "asid_root s (ucast (capVSMappedASID c)) = Some (capVSBasePtr c)"
  shows "\<exists>s'. delete_asid (ucast (capVSMappedASID c)) (capVSBasePtr c) c s = Some s' \<and>
    asid_root s' (ucast (capVSMappedASID c)) = None \<and> ttbr0_el1 s' = to_paddr (capVSBasePtr c)"
proof -
  obtain s1 where s1: "vspace_wf s1"
    "delete_asid (ucast (capVSMappedASID c)) (capVSBasePtr c) c s = set_vm_root c s1"
    "\<And>b. unat b < 2 ^ 16 \<Longrightarrow>
       asid_root s1 b = (if b = ucast (capVSMappedASID c) then None else asid_root s b)"
    using delete_asid_effect [OF assms(1,2) asid16_bound assms(4)] by blast
  from s1(3) [OF asid16_bound [of "capVSMappedASID c"]]
  have "asid_root s1 (ucast (capVSMappedASID c)) = None" by simp
  then show ?thesis
    unfolding s1(2) set_vm_root_result [OF s1(1)]
    using assms(3) by simp
qed

theorem deleted_vspace_stays_installed_witness:
  "\<exists>s'. delete_asid 5 0xffffff8000010000 (cap_vspace_cap 5 0xffffff8000010000 True) sample_vstate = Some s'
     \<and> asid_root s' 5 = None \<and> ttbr0_el1 s' = 0x10000"
  using deleted_vspace_stays_installed [OF sample_vstate_wf, of "cap_vspace_cap 5 0xffffff8000010000 True"]
    sample_vstate_root
  by (simp add: is_valid_native_root_def to_paddr_def PPTR_BASE_OFFSET_def)

section \<open>Walks\<close>

text \<open>Every entry that a walk passes is a table entry, so a write to another entry keeps it.\<close>

lemma lookup_pt_loop_leaf_upd:
  assumes "pte_get_type (h (ptSlot (lookup_pt_loop h v n r))) \<noteq> pte_table" "pte_get_type x \<noteq> pte_table"
  shows "lookup_pt_loop (h(ptSlot (lookup_pt_loop h v n r) := x)) v n r = lookup_pt_loop h v n r"
  using assms by (induction n arbitrary: r) (auto simp: Let_def)

lemma lookup_pt_slot_leaf_upd:
  assumes "pte_get_type (h (ptSlot (lookup_pt_slot h root v))) \<noteq> pte_table"
    and "pte_get_type x \<noteq> pte_table"
  shows "lookup_pt_slot (h(ptSlot (lookup_pt_slot h root v) := x)) root v = lookup_pt_slot h root v"
  using assms by (simp add: lookup_pt_slot_def Let_def lookup_pt_loop_leaf_upd)

lemma pte_get_type_0 [simp]: "pte_get_type 0 = 0"
  by (simp add: pte_get_type_def)

lemma unmap_page_result:
  assumes wf: "vspace_wf s" and a: "unat asid < 2 ^ 16" and bits: "pageBitsForSize sz = Some bits"
  shows "unmap_page sz asid v frame s =
    Some (case asid_root s asid of
      None \<Rightarrow> s
    | Some root \<Rightarrow> if maps_frame s root v bits frame
        then s\<lparr>ks_ptes := (ks_ptes s)(leaf_slot s root v := 0)\<rparr> else s)"
proof (cases "asid_root s asid")
  case (Some root)
  have "asid < 0x10000" using a by (simp add: word_less_nat_alt)
  then show ?thesis
    using Some find_vspace_for_asid_root [OF wf a] bits
    by (simp add: unmap_page_def Let_def maps_frame_def leaf_slot_def pte_is_page_type_def bit_mac_def)
qed (use find_vspace_for_asid_root [OF wf a] in \<open>simp add: unmap_page_def Let_def\<close>)

text \<open>
  C21: \<open>unmap_page\<close> returns for every identifier and page size; when the virtual address is mapped to
  the frame at that size in the space of the identifier, the walk of the address ends in the same
  slot afterwards and that slot is invalid; no other page table entry changes, and when it is not
  mapped to the frame nothing changes at all.
\<close>

theorem unmap_page_correct:
  assumes "vspace_wf s" "unat asid < 2 ^ 16" "pageBitsForSize sz = Some bits"
    and "asid_root s asid = Some root"
  shows "\<exists>s'. unmap_page sz asid v frame s = Some s' \<and> \<not> maps_frame s' root v bits frame \<and>
    (if maps_frame s root v bits frame
     then leaf_slot s' root v = leaf_slot s root v \<and> ks_ptes s' (leaf_slot s' root v) = 0 \<and>
          (\<forall>p. p \<noteq> leaf_slot s root v \<longrightarrow> ks_ptes s' p = ks_ptes s p)
     else s' = s)"
proof (cases "maps_frame s root v bits frame")
  case True
  let ?s = "s\<lparr>ks_ptes := (ks_ptes s)(leaf_slot s root v := 0)\<rparr>"
  have "pte_get_type (ks_ptes s (leaf_slot s root v)) \<noteq> pte_table"
    using True by (auto simp: maps_frame_def pte_is_page_type_def pte_tags)
  then have same: "leaf_slot ?s root v = leaf_slot s root v"
    using lookup_pt_slot_leaf_upd [of "ks_ptes s" root v 0] by (simp add: leaf_slot_def pte_tags)
  then have "\<not> maps_frame ?s root v bits frame"
    by (auto simp: maps_frame_def pte_is_page_type_def pte_tags)
  with True same unmap_page_result [OF assms(1-3), of v frame] assms(4) show ?thesis by simp
qed (use unmap_page_result [OF assms(1-3), of v frame] assms(4) in simp)

text \<open>
  A space of three tables below the root: address 0 is mapped to the frame at
  \<open>0xffffff8000020000\<close> by the first entry of the last table.
\<close>

definition mapped_vstate :: kstate where
  "mapped_vstate = sample_vstate\<lparr>ks_ptes := (\<lambda>_. 0)(0xffffff8000010000 := 0x11003,
     0xffffff8000011000 := 0x12003, 0xffffff8000012000 := 0x13003,
     0xffffff8000013000 := 0x400000000020743)\<rparr>"

lemma mapped_vstate_wf: "vspace_wf mapped_vstate" "asid_root mapped_vstate 5 = Some 0xffffff8000010000"
  using sample_vstate_wf sample_vstate_root by (simp_all add: mapped_vstate_def)

lemma upt_levels: "unat (UPT_LEVELS - 1) = Suc (Suc (Suc 0))"
  by (simp add: UPT_LEVELS_def)

lemmas walk_eval = pte_get_type_def pte_tags next_level_paddr_def to_pptr_def mask_bits_def shr_def
  PPTR_BASE_OFFSET_def get_upt_index_def

lemma mapped_vstate_walk:
  "lookup_pt_slot (ks_ptes mapped_vstate) 0xffffff8000010000 0 =
     \<lparr> ptSlot = 0xffffff8000013000, ptBitsLeft = 12 \<rparr>"
  unfolding lookup_pt_slot_def Let_def upt_levels
  by (simp add: mapped_vstate_def vs_consts Let_def walk_eval)

lemma mapped_vstate_maps:
  "maps_frame mapped_vstate 0xffffff8000010000 0 12 0xffffff8000020000"
  "leaf_slot mapped_vstate 0xffffff8000010000 0 = 0xffffff8000013000"
  by (simp_all add: maps_frame_def leaf_slot_def mapped_vstate_walk)
    (simp add: mapped_vstate_def walk_eval pte_is_page_type_def get_page_base_address_def to_paddr_def)

theorem unmap_page_correct_witness:
  "\<exists>s'. unmap_page 0 5 0 0xffffff8000020000 mapped_vstate = Some s' \<and> ks_ptes s' 0xffffff8000013000 = 0 \<and>
    \<not> maps_frame s' 0xffffff8000010000 0 12 0xffffff8000020000"
proof -
  have "pageBitsForSize 0 = Some 12" by (simp add: pageBitsForSize_def)
  from unmap_page_correct [OF mapped_vstate_wf(1) _ this mapped_vstate_wf(2), of 0 "0xffffff8000020000"]
  show ?thesis using mapped_vstate_maps by auto
qed

lemma unmap_page_table_result:
  assumes "vspace_wf s" "unat asid < 2 ^ 16" "asid_root s asid = Some root"
    and "unmap_pt_walk (ks_ptes s) v pt 3 0 root 0 = Some (slot, pt)" "slot \<noteq> 0" "slot \<noteq> pt"
  shows "unmap_page_table asid v pt s = Some (s\<lparr>ks_ptes := (ks_ptes s)(slot := ks_ptes s pt)\<rparr>)"
  using assms find_vspace_for_asid_root [OF assms(1,2)]
  by (simp add: unmap_page_table_def Let_def UPT_LEVELS_def)

text \<open>
  C20: \<open>unmap_page_table\<close> clears the entry that refers to the table only when the first entry of the
  table is invalid: it ends with a copy of the table's first entry in the parent slot, so a first
  entry that maps a frame leaves a valid reference to that frame in the parent table.
\<close>

theorem unmap_page_table_copies_first_entry:
  assumes "vspace_wf s" "unat asid < 2 ^ 16" "asid_root s asid = Some root"
    and "unmap_pt_walk (ks_ptes s) v pt 3 0 root 0 = Some (slot, pt)" "slot \<noteq> 0" "slot \<noteq> pt"
  shows "\<exists>s'. unmap_page_table asid v pt s = Some s' \<and> ks_ptes s' slot = ks_ptes s pt \<and>
    (\<forall>p. p \<noteq> slot \<longrightarrow> ks_ptes s' p = ks_ptes s p) \<and>
    (pte_get_type (ks_ptes s' slot) = pte_invalid \<longleftrightarrow> pte_get_type (ks_ptes s pt) = pte_invalid)"
  using unmap_page_table_result [OF assms] by simp

theorem unmap_page_table_copies_first_entry_witness:
  "\<exists>s'. unmap_page_table 5 0 0xffffff8000013000 mapped_vstate = Some s' \<and>
     ks_ptes s' 0xffffff8000012000 = 0x400000000020743"
proof -
  have "unmap_pt_walk (ks_ptes mapped_vstate) 0 0xffffff8000013000 3 0 0xffffff8000010000 0 =
      Some (0xffffff8000012000, 0xffffff8000013000)"
    by (simp add: numeral_3_eq_3 mapped_vstate_def walk_eval Let_def)
  from unmap_page_table_copies_first_entry [OF mapped_vstate_wf(1) _ mapped_vstate_wf(2) this]
  show ?thesis by (auto simp: mapped_vstate_def)
qed

section \<open>Page table entries and addresses\<close>

lemma base_mask_or: "((x AND m) OR c) AND d = (x AND (m AND d)) OR (c AND (d :: word64))"
  by (simp add: bit.conj_disj_distrib2 and.assoc)

lemma pte_new_split:
  "pte_new_page u p n a sh ap i = (p AND 0xfffffffff000) OR
     (push_bit 54 (u AND 0x1) OR push_bit 11 (n AND 0x1) OR push_bit 10 (a AND 0x1) OR
      push_bit 8 (sh AND 0x3) OR push_bit 6 (ap AND 0x3) OR push_bit 2 (i AND 0x7) OR 0x1)"
  "pte_new_4k_page u p n a sh ap i = (p AND 0xfffffffff000) OR
     (push_bit 54 (u AND 0x1) OR push_bit 11 (n AND 0x1) OR push_bit 10 (a AND 0x1) OR
      push_bit 8 (sh AND 0x3) OR push_bit 6 (ap AND 0x3) OR push_bit 2 (i AND 0x7) OR 0x400000000000003)"
  unfolding pte_new_page_def pte_new_4k_page_def by (simp_all only: or.assoc or.left_commute)

definition pte_flags :: "vm_rights_t \<Rightarrow> bool \<Rightarrow> bool \<Rightarrow> bool \<Rightarrow> word64" where
  "pte_flags rights xn cache small = (if xn then 0x40000000000000 else 0) OR
     (if cache then 0x10 else 0) OR ap_from_vm_rights_t rights OR
     (if small then 0x400000000000c03 else 0xc01)"

lemma make_user_pte_const:
  "make_user_pte paddr rights attr page_size = (paddr AND 0xfffffffff000) OR
     pte_flags rights (armExecuteNever attr) (armPageCacheable attr) (page_size = 0)"
  unfolding make_user_pte_def pte_new_split Let_def
  by (cases rights; cases "armExecuteNever attr"; cases "armPageCacheable attr"; cases "page_size = 0")
    (simp_all add: pte_flags_def)

text \<open>
  The entry that \<open>make_user_pte\<close> builds decodes to what it was built from: the physical address
  of the frame, a page descriptor of the right level, the execute-never attribute, and an access
  field that permits user access exactly when the rights permit reading and write access exactly
  when they permit writing.
\<close>

theorem make_user_pte_decodes:
  "let e = make_user_pte paddr rights attr page_size in
     get_page_base_address e = paddr AND 0xfffffffff000 \<and>
     pte_get_type e = (if page_size = 0 then pte_4k_page else pte_page) \<and>
     (e AND 0x40000000000000 \<noteq> 0) = armExecuteNever attr \<and>
     (e AND 0x40 \<noteq> 0) = (rights \<noteq> VMKernelOnly) \<and>
     (e AND 0x80 \<noteq> 0) = (rights = VMReadOnly)"
  unfolding make_user_pte_const Let_def
  by (cases rights; cases "armExecuteNever attr"; cases "armPageCacheable attr"; cases "page_size = 0")
    (simp_all add: pte_flags_def get_page_base_address_def pte_get_type_def pte_tags base_mask_or)

lemma aligned_bit: "unat bits < 64 \<Longrightarrow> aligned a bits \<longleftrightarrow> \<not> bit a (unat bits)"
  by (simp add: aligned_def bit_mac_def and_exp_eq_0_iff_not_bit)

lemma aligned_up_to_bit: "unat bits < 64 \<Longrightarrow> is_aligned a bits \<longleftrightarrow> (\<forall>i < unat bits. \<not> bit a i)"
  by (auto simp: is_aligned_def bit_eq_iff bit_and_iff bit_mask_bits)
    (meson less_trans)

text \<open>
  \<open>aligned\<close> tests the single bit at position \<open>bits\<close>, not the \<open>bits\<close> bits below it: for every
  size between 1 and 62 there is an aligned address that it refuses and an unaligned one that it
  accepts.
\<close>

theorem aligned_tests_one_bit:
  assumes "0 < unat bits" "unat bits < 64"
  shows "is_aligned (bit_mac bits) bits \<and> \<not> aligned (bit_mac bits) bits \<and>
    \<not> is_aligned 1 bits \<and> aligned 1 bits"
  using assms
  by (auto simp: aligned_bit aligned_up_to_bit bit_mac_def bit_push_bit_iff bit_1_iff simp del: push_bit_of_1)

theorem aligned_tests_one_bit_witness:
  "is_aligned 0x1000 12 \<and> \<not> aligned 0x1000 12 \<and> \<not> is_aligned 1 12 \<and> aligned 1 12"
  using aligned_tests_one_bit [of 12] by (simp add: bit_mac_def)

end
