(* ===== verification/TcbQueue.thy ===== *)
theory TcbQueue
  imports KState
begin

text \<open>
  The two kinds of intrusive queues of threads (\<^verbatim>\<open>sel4_task/src/tcb_queue.rs\<close>): endpoint and
  notification queues run through \<^verbatim>\<open>tcbEPNext\<close>/\<^verbatim>\<open>tcbEPPrev\<close>, ready queues through
  \<^verbatim>\<open>tcbSchedNext\<close>/\<^verbatim>\<open>tcbSchedPrev\<close>.  A queue refines a list of threads; the contract that
  both kinds give their clients is the locale \<open>thread_queue\<close>.
\<close>

section \<open>The code\<close>

definition set_tcbEPNext :: "ptr \<Rightarrow> ptr \<Rightarrow> kstate \<Rightarrow> kstate" where
  "set_tcbEPNext p v = upd_tcb p (\<lambda>t. t\<lparr>tcbEPNext := v\<rparr>)"

definition set_tcbEPPrev :: "ptr \<Rightarrow> ptr \<Rightarrow> kstate \<Rightarrow> kstate" where
  "set_tcbEPPrev p v = upd_tcb p (\<lambda>t. t\<lparr>tcbEPPrev := v\<rparr>)"

definition set_tcbSchedNext :: "ptr \<Rightarrow> ptr \<Rightarrow> kstate \<Rightarrow> kstate" where
  "set_tcbSchedNext p v = upd_tcb p (\<lambda>t. t\<lparr>tcbSchedNext := v\<rparr>)"

definition set_tcbSchedPrev :: "ptr \<Rightarrow> ptr \<Rightarrow> kstate \<Rightarrow> kstate" where
  "set_tcbSchedPrev p v = upd_tcb p (\<lambda>t. t\<lparr>tcbSchedPrev := v\<rparr>)"

definition ep_append :: "tcb_queue_t \<Rightarrow> ptr \<Rightarrow> kstate \<Rightarrow> (tcb_queue_t \<times> kstate) option" where
  "ep_append q tcb s = do {
     (q, s) \<leftarrow> (if q_head q = 0 then Some (q\<lparr>q_head := tcb\<rparr>, s)
               else do {
                 t \<leftarrow> convert_to_mut_type_ref (q_tail q);
                 Some (q, set_tcbEPNext t tcb s)
               });
     let s = set_tcbEPPrev tcb (q_tail q) s;
     let s = set_tcbEPNext tcb 0 s;
     Some (q\<lparr>q_tail := tcb\<rparr>, s)
   }"

definition ep_dequeue :: "tcb_queue_t \<Rightarrow> ptr \<Rightarrow> kstate \<Rightarrow> (tcb_queue_t \<times> kstate) option" where
  "ep_dequeue q tcb s =
    (let (q, s) =
       (if tcbEPPrev (tcb_at s tcb) \<noteq> 0
        then (q, set_tcbEPNext (tcbEPPrev (tcb_at s tcb)) (tcbEPNext (tcb_at s tcb)) s)
        else (q\<lparr>q_head := tcbEPNext (tcb_at s tcb)\<rparr>, s)) in
     Some
       (if tcbEPNext (tcb_at s tcb) \<noteq> 0
        then (q, set_tcbEPPrev (tcbEPNext (tcb_at s tcb)) (tcbEPPrev (tcb_at s tcb)) s)
        else (q\<lparr>q_tail := tcbEPPrev (tcb_at s tcb)\<rparr>, s)))"

definition queue_empty :: "tcb_queue_t \<Rightarrow> bool" where
  "queue_empty q \<longleftrightarrow> q_head q = 0"

definition queue_prepend :: "tcb_queue_t \<Rightarrow> ptr \<Rightarrow> kstate \<Rightarrow> (tcb_queue_t \<times> kstate) option" where
  "queue_prepend q tcb s =
    (let (q, s) =
       (if queue_empty q then (q\<lparr>q_tail := tcb\<rparr>, s)
        else (q, set_tcbSchedPrev (q_head q) tcb (set_tcbSchedNext tcb (q_head q) s))) in
     Some (q\<lparr>q_head := tcb\<rparr>, s))"

definition queue_append :: "tcb_queue_t \<Rightarrow> ptr \<Rightarrow> kstate \<Rightarrow> (tcb_queue_t \<times> kstate) option" where
  "queue_append q tcb s = do {
     (q, s) \<leftarrow> (if queue_empty q then Some (q\<lparr>q_head := tcb\<rparr>, s)
               else do {
                 t \<leftarrow> convert_to_mut_type_ref (q_tail q);
                 Some (q, set_tcbSchedNext t tcb (set_tcbSchedPrev tcb (q_tail q) s))
               });
     Some (q\<lparr>q_tail := tcb\<rparr>, s)
   }"

definition queue_remove :: "tcb_queue_t \<Rightarrow> ptr \<Rightarrow> kstate \<Rightarrow> (tcb_queue_t \<times> kstate) option" where
  "queue_remove q tcb s =
    (let before = tcbSchedPrev (tcb_at s tcb); after = tcbSchedNext (tcb_at s tcb) in
     if q_head q = tcb \<and> q_tail q = tcb then Some (q\<lparr>q_head := 0, q_tail := 0\<rparr>, s)
     else if q_head q = tcb then do {
       after \<leftarrow> convert_to_mut_type_ref after;
       let s = set_tcbSchedPrev after 0 s;
       let s = set_tcbSchedNext tcb 0 s;
       Some (q\<lparr>q_head := after\<rparr>, s)
     }
     else if q_tail q = tcb then do {
       before \<leftarrow> convert_to_mut_type_ref before;
       let s = set_tcbSchedNext before 0 s;
       let s = set_tcbSchedPrev tcb 0 s;
       Some (q\<lparr>q_tail := before\<rparr>, s)
     }
     else do {
       before \<leftarrow> convert_to_mut_type_ref before;
       let s = set_tcbSchedNext before after s;
       after \<leftarrow> convert_to_mut_type_ref after;
       let s = set_tcbSchedPrev after before s;
       let s = set_tcbSchedPrev tcb 0 s;
       let s = set_tcbSchedNext tcb 0 s;
       Some (q, s)
     })"

section \<open>Queues as lists\<close>

definition ep_nx :: "kstate \<Rightarrow> ptr \<Rightarrow> ptr" where "ep_nx s p = tcbEPNext (tcb_at s p)"
definition ep_pv :: "kstate \<Rightarrow> ptr \<Rightarrow> ptr" where "ep_pv s p = tcbEPPrev (tcb_at s p)"
definition sc_nx :: "kstate \<Rightarrow> ptr \<Rightarrow> ptr" where "sc_nx s p = tcbSchedNext (tcb_at s p)"
definition sc_pv :: "kstate \<Rightarrow> ptr \<Rightarrow> ptr" where "sc_pv s p = tcbSchedPrev (tcb_at s p)"

definition queue_rep :: "(ptr \<Rightarrow> ptr) \<Rightarrow> (ptr \<Rightarrow> ptr) \<Rightarrow> tcb_queue_t \<Rightarrow> ptr list \<Rightarrow> bool" where
  "queue_rep nx pv q xs \<longleftrightarrow> dll nx pv xs \<and> q_head q = first_of xs 0 \<and> q_tail q = last_of 0 xs"

definition ep_queue :: "kstate \<Rightarrow> tcb_queue_t \<Rightarrow> ptr list \<Rightarrow> bool" where
  "ep_queue s q xs \<longleftrightarrow> queue_rep (ep_nx s) (ep_pv s) q xs"

text \<open>
  A thread outside the ready queues has null links; \<^verbatim>\<open>prepend\<close> and \<^verbatim>\<open>append\<close> rely on it
  and \<^verbatim>\<open>remove\<close> re-establishes it.
\<close>

definition sched_queue :: "kstate \<Rightarrow> tcb_queue_t \<Rightarrow> ptr list \<Rightarrow> bool" where
  "sched_queue s q xs \<longleftrightarrow> queue_rep (sc_nx s) (sc_pv s) q xs"

interpretation ep_links: link_heap ep_nx ep_pv set_tcbEPNext set_tcbEPPrev
  by unfold_locales
    (auto simp: ep_nx_def ep_pv_def set_tcbEPNext_def set_tcbEPPrev_def fun_eq_iff)

interpretation sc_links: link_heap sc_nx sc_pv set_tcbSchedNext set_tcbSchedPrev
  by unfold_locales
    (auto simp: sc_nx_def sc_pv_def set_tcbSchedNext_def set_tcbSchedPrev_def fun_eq_iff)

text \<open>What a queue operation may change: only the links, and only of the threads in \<open>A\<close>.\<close>

definition no_ep_links :: "tcb_t \<Rightarrow> tcb_t" where
  "no_ep_links t = t\<lparr>tcbEPNext := 0, tcbEPPrev := 0\<rparr>"

definition no_sc_links :: "tcb_t \<Rightarrow> tcb_t" where
  "no_sc_links t = t\<lparr>tcbSchedNext := 0, tcbSchedPrev := 0\<rparr>"

definition tcb_frame :: "(tcb_t \<Rightarrow> tcb_t) \<Rightarrow> ptr set \<Rightarrow> kstate \<Rightarrow> kstate \<Rightarrow> bool" where
  "tcb_frame keep A s s' \<longleftrightarrow> s' = s\<lparr>ks_tcbs := ks_tcbs s'\<rparr> \<and>
     (\<forall>p. keep (tcb_at s' p) = keep (tcb_at s p)) \<and> (\<forall>p. p \<notin> A \<longrightarrow> tcb_at s' p = tcb_at s p)"

lemma tcb_frame_refl [simp]: "tcb_frame k A s s"
  by (simp add: tcb_frame_def)

lemma tcb_frame_trans: "tcb_frame k A s s' \<Longrightarrow> tcb_frame k B s' s'' \<Longrightarrow> tcb_frame k (A \<union> B) s s''"
  unfolding tcb_frame_def by (cases s; cases s'; cases s'') auto

lemma tcb_frame_mono: "tcb_frame k A s s' \<Longrightarrow> A \<subseteq> B \<Longrightarrow> tcb_frame k B s s'"
  by (auto simp: tcb_frame_def)

lemma tcb_frame_upd: "k (f (tcb_at s p)) = k (tcb_at s p) \<Longrightarrow> p \<in> A \<Longrightarrow> tcb_frame k A s (upd_tcb p f s)"
  by (auto simp: tcb_frame_def upd_tcb_def)

lemma tcb_frame_step:
  "tcb_frame k A s s' \<Longrightarrow> k (f (tcb_at s' p)) = k (tcb_at s' p) \<Longrightarrow> p \<in> A \<Longrightarrow>
   tcb_frame k A s (upd_tcb p f s')"
  using tcb_frame_trans [of k A s s' A] tcb_frame_upd [of k f s' p A] by simp

lemma ep_frame_step [simp]:
  "tcb_frame no_ep_links A s s' \<Longrightarrow> p \<in> A \<Longrightarrow> tcb_frame no_ep_links A s (set_tcbEPNext p v s')"
  "tcb_frame no_ep_links A s s' \<Longrightarrow> p \<in> A \<Longrightarrow> tcb_frame no_ep_links A s (set_tcbEPPrev p v s')"
  by (simp_all add: set_tcbEPNext_def set_tcbEPPrev_def tcb_frame_step no_ep_links_def)

lemma sc_frame_step [simp]:
  "tcb_frame no_sc_links A s s' \<Longrightarrow> p \<in> A \<Longrightarrow> tcb_frame no_sc_links A s (set_tcbSchedNext p v s')"
  "tcb_frame no_sc_links A s s' \<Longrightarrow> p \<in> A \<Longrightarrow> tcb_frame no_sc_links A s (set_tcbSchedPrev p v s')"
  by (simp_all add: set_tcbSchedNext_def set_tcbSchedPrev_def tcb_frame_step no_sc_links_def)

section \<open>The queue operations refine lists\<close>

lemma queue_rep_ends:
  assumes "queue_rep nx pv q xs"
  shows "q_head q = 0 \<longleftrightarrow> xs = []" "q_tail q = 0 \<longleftrightarrow> xs = []"
    "xs \<noteq> [] \<Longrightarrow> q_head q = hd xs" "xs \<noteq> [] \<Longrightarrow> q_tail q = last xs"
proof -
  have d: "dll nx pv xs" and e: "q_head q = first_of xs 0" "q_tail q = last_of 0 xs"
    using assms by (simp_all add: queue_rep_def)
  note nz = dll_nonzero [OF d]
  show "q_head q = 0 \<longleftrightarrow> xs = []" using e(1) nz by (cases xs) simp_all
  show "q_tail q = 0 \<longleftrightarrow> xs = []"
    using e(2) nz [of "last xs"] by (cases "xs = []") (simp_all add: last_of_nonempty)
qed (use assms in \<open>simp_all add: queue_rep_def first_of_nonempty last_of_nonempty\<close>)

lemma ep_append_rep:
  assumes "ep_queue s q xs" "x \<notin> set xs" "x \<noteq> 0"
  shows "\<exists>q' s'. ep_append q x s = Some (q', s') \<and> ep_queue s' q' (xs @ [x]) \<and>
    tcb_frame no_ep_links (insert x (set xs)) s s'"
proof -
  note ends = queue_rep_ends [OF assms(1) [unfolded ep_queue_def]]
  let ?h1 = "if xs = [] then s else set_tcbEPNext (last_of 0 xs) x s"
  let ?h2 = "set_tcbEPNext x 0 (set_tcbEPPrev x (last_of 0 xs) ?h1)"
  have tail: "q_tail q = last_of 0 xs" "q_head q = first_of xs 0"
    using assms(1) by (simp_all add: ep_queue_def queue_rep_def)
  have run: "ep_append q x s =
      Some (q\<lparr>q_head := first_of (xs @ [x]) 0, q_tail := x\<rparr>, ?h2)"
    using ends tail by (cases "xs = []") (simp_all add: ep_append_def first_of_nonempty)
  have "dll (ep_nx ?h2) (ep_pv ?h2) (xs @ [x])"
    by (rule ep_links.push_back [OF _ assms(2,3) refl])
      (use assms(1) in \<open>simp_all add: ep_queue_def queue_rep_def ep_links.link_laws\<close>)
  moreover have "tcb_frame no_ep_links (insert x (set xs)) s ?h2"
    by (cases "xs = []") (simp_all add: last_of_nonempty)
  ultimately show ?thesis using run by (auto simp: ep_queue_def queue_rep_def)
qed

lemma ep_dequeue_rep:
  assumes "ep_queue s q (as @ x # bs)"
  shows "\<exists>q' s'. ep_dequeue q x s = Some (q', s') \<and> ep_queue s' q' (as @ bs) \<and>
    tcb_frame no_ep_links (set as \<union> set bs) s s'"
proof -
  have d: "dll (ep_nx s) (ep_pv s) (as @ x # bs)" using assms by (simp add: ep_queue_def queue_rep_def)
  note mid = dll_middle [OF d] and ends = dll_ends [OF d]
  let ?h1 = "if ep_pv s x \<noteq> 0 then set_tcbEPNext (ep_pv s x) (ep_nx s x) s else s"
  let ?h2 = "if ep_nx s x \<noteq> 0 then set_tcbEPPrev (ep_nx s x) (ep_pv s x) ?h1 else ?h1"
  have x: "x \<noteq> ep_pv s x" using mid d last_of_in [of 0 as] by (auto simp: dll_def)
  have links: "ep_nx ?h1 x = ep_nx s x" "ep_pv ?h1 x = ep_pv s x"
    using x by (simp_all add: ep_links.link_laws)
  have run: "ep_dequeue q x s = Some (q\<lparr>q_head := first_of (as @ bs) 0, q_tail := last_of 0 (as @ bs)\<rparr>, ?h2)"
    using assms mid ends(1,2) links
    by (cases "as = []"; cases "bs = []")
      (simp_all add: ep_dequeue_def ep_queue_def queue_rep_def first_of_nonempty last_of_nonempty
        flip: ep_nx_def ep_pv_def)
  have "dll (ep_nx ?h2) (ep_pv ?h2) (as @ bs)" by (rule ep_links.unlink [OF d refl refl])
  moreover have "tcb_frame no_ep_links (set as \<union> set bs) s ?h2"
    using mid ends by auto
  ultimately show ?thesis using run by (auto simp: ep_queue_def queue_rep_def)
qed

definition unlinked :: "kstate \<Rightarrow> ptr \<Rightarrow> bool" where
  "unlinked s x \<longleftrightarrow> sc_nx s x = 0 \<and> sc_pv s x = 0"

lemma queue_prepend_rep:
  assumes "sched_queue s q xs" "x \<notin> set xs" "x \<noteq> 0" "unlinked s x"
  shows "\<exists>q' s'. queue_prepend q x s = Some (q', s') \<and> sched_queue s' q' (x # xs) \<and>
    tcb_frame no_sc_links (insert x (set xs)) s s'"
proof -
  note ends = queue_rep_ends [OF assms(1) [unfolded sched_queue_def]]
  let ?h1 = "if xs = [] then s else set_tcbSchedPrev (first_of xs 0) x s"
  let ?h2 = "if xs = [] then s else set_tcbSchedPrev (first_of xs 0) x (set_tcbSchedNext x (first_of xs 0) s)"
  have ht: "q_tail q = last_of 0 xs" "q_head q = first_of xs 0"
    using assms(1) by (simp_all add: sched_queue_def queue_rep_def)
  have run: "queue_prepend q x s = Some (q\<lparr>q_head := x, q_tail := last_of 0 (x # xs)\<rparr>, ?h2)"
    using ends(1) ht by (cases "xs = []") (simp_all add: queue_prepend_def queue_empty_def last_of_nonempty)
  have x: "xs \<noteq> [] \<Longrightarrow> x \<noteq> first_of xs 0" using assms(2) by (auto simp: first_of_nonempty)
  have "dll (sc_nx ?h2) (sc_pv ?h2) (x # xs)"
    by (rule sc_links.push_front [OF _ assms(2,3) refl])
      (use assms x in \<open>auto simp: sched_queue_def queue_rep_def sc_links.link_laws unlinked_def fun_eq_iff\<close>)
  moreover have "tcb_frame no_sc_links (insert x (set xs)) s ?h2"
    by (cases "xs = []") (simp_all add: first_of_nonempty)
  ultimately show ?thesis using run by (auto simp: sched_queue_def queue_rep_def)
qed

lemma queue_append_rep:
  assumes "sched_queue s q xs" "x \<notin> set xs" "x \<noteq> 0" "unlinked s x"
  shows "\<exists>q' s'. queue_append q x s = Some (q', s') \<and> sched_queue s' q' (xs @ [x]) \<and>
    tcb_frame no_sc_links (insert x (set xs)) s s'"
proof -
  note ends = queue_rep_ends [OF assms(1) [unfolded sched_queue_def]]
  let ?h1 = "if xs = [] then s else set_tcbSchedNext (last_of 0 xs) x s"
  let ?h2 = "if xs = [] then s else set_tcbSchedNext (last_of 0 xs) x (set_tcbSchedPrev x (last_of 0 xs) s)"
  have ht: "q_tail q = last_of 0 xs" "q_head q = first_of xs 0"
    using assms(1) by (simp_all add: sched_queue_def queue_rep_def)
  have run: "queue_append q x s = Some (q\<lparr>q_head := first_of (xs @ [x]) 0, q_tail := x\<rparr>, ?h2)"
    using ends(1,2) ht by (cases "xs = []") (simp_all add: queue_append_def queue_empty_def first_of_nonempty)
  have x: "xs \<noteq> [] \<Longrightarrow> x \<noteq> last_of 0 xs" using assms(2) by (auto simp: last_of_nonempty)
  have "dll (sc_nx ?h2) (sc_pv ?h2) (xs @ [x])"
    by (rule sc_links.push_back [OF _ assms(2,3) refl])
      (use assms x in \<open>auto simp: sched_queue_def queue_rep_def sc_links.link_laws unlinked_def fun_eq_iff\<close>)
  moreover have "tcb_frame no_sc_links (insert x (set xs)) s ?h2"
    by (cases "xs = []") (simp_all add: last_of_nonempty)
  ultimately show ?thesis using run by (auto simp: sched_queue_def queue_rep_def)
qed

text \<open>The four branches of \<^verbatim>\<open>remove\<close> are one: unlink, then clear the links of the thread.\<close>

definition unlink_sched :: "ptr \<Rightarrow> kstate \<Rightarrow> kstate" where
  "unlink_sched x s =
    (let s1 = (if sc_pv s x \<noteq> 0 then set_tcbSchedNext (sc_pv s x) (sc_nx s x) s else s) in
     if sc_nx s x \<noteq> 0 then set_tcbSchedPrev (sc_nx s x) (sc_pv s x) s1 else s1)"

lemma queue_remove_cases:
  assumes "sched_queue s q (as @ x # bs)"
  shows "(q_head q = x) = (as = [])" "(q_tail q = x) = (bs = [])"
    "as \<noteq> [] \<Longrightarrow> sc_pv s x = last as" "bs \<noteq> [] \<Longrightarrow> sc_nx s x = hd bs"
    "as = [] \<Longrightarrow> sc_pv s x = 0" "bs = [] \<Longrightarrow> sc_nx s x = 0"
    "x \<noteq> 0" "as \<noteq> [] \<Longrightarrow> last as \<noteq> 0" "bs \<noteq> [] \<Longrightarrow> hd bs \<noteq> 0"
    "as \<noteq> [] \<Longrightarrow> last as \<noteq> x" "bs \<noteq> [] \<Longrightarrow> hd bs \<noteq> x"
    "as \<noteq> [] \<Longrightarrow> bs \<noteq> [] \<Longrightarrow> hd bs \<noteq> last as"
proof -
  have d: "dll (sc_nx s) (sc_pv s) (as @ x # bs)" and ht: "q_head q = first_of (as @ x # bs) 0"
      "q_tail q = last_of 0 (as @ x # bs)"
    using assms by (simp_all add: sched_queue_def queue_rep_def)
  note nz = dll_nonzero [OF d] and dist = dll_distinct [OF d] and mid = dll_middle [OF d]
  have h: "as \<noteq> [] \<Longrightarrow> last as \<in> set as" "bs \<noteq> [] \<Longrightarrow> hd bs \<in> set bs" "as \<noteq> [] \<Longrightarrow> hd as \<in> set as"
    "bs \<noteq> [] \<Longrightarrow> last bs \<in> set bs" by simp_all
  show "(q_head q = x) = (as = [])" using ht(1) h(3) dist by (cases "as = []") (auto simp: first_of_nonempty)
  show "(q_tail q = x) = (bs = [])" using ht(2) h(4) dist by (cases "bs = []") (auto simp: last_of_nonempty)
  show "as \<noteq> [] \<Longrightarrow> last as \<noteq> x" "bs \<noteq> [] \<Longrightarrow> hd bs \<noteq> x" using h dist by auto
  show "hd bs \<noteq> last as" if "as \<noteq> []" "bs \<noteq> []"
  proof
    assume "hd bs = last as"
    with h(1,2) that have "last as \<in> set as" "last as \<in> set bs" by simp_all
    with dist show False by auto
  qed
  show "as \<noteq> [] \<Longrightarrow> last as \<noteq> 0" "bs \<noteq> [] \<Longrightarrow> hd bs \<noteq> 0" using h nz by auto
qed (use dll_middle [of "sc_nx s" "sc_pv s" as x bs] assms in
    \<open>auto simp: sched_queue_def queue_rep_def first_of_nonempty last_of_nonempty\<close>)

lemma queue_remove_run:
  assumes "sched_queue s q (as @ x # bs)"
  shows "\<exists>s'. queue_remove q x s =
      Some (q\<lparr>q_head := first_of (as @ bs) 0, q_tail := last_of 0 (as @ bs)\<rparr>, s') \<and>
    sc_nx s' = (sc_nx (unlink_sched x s))(x := 0) \<and> sc_pv s' = (sc_pv (unlink_sched x s))(x := 0) \<and>
    tcb_frame no_sc_links (set (as @ x # bs)) s s'"
proof -
  note c = queue_remove_cases [OF assms]
  have ht: "q_head q = first_of (as @ x # bs) 0" "q_tail q = last_of 0 (as @ x # bs)"
    using assms by (simp_all add: sched_queue_def queue_rep_def)
  note nv = sc_nx_def [symmetric] sc_pv_def [symmetric]
  note laws = sc_links.link_laws fun_eq_iff unlink_sched_def Let_def
  consider (one) "as = []" "bs = []" | (front) "as = []" "bs \<noteq> []" | (tail) "as \<noteq> []" "bs = []"
    | (mid) "as \<noteq> []" "bs \<noteq> []" by blast
  then show ?thesis
  proof cases
    case one
    with c ht show ?thesis by (simp add: queue_remove_def nv laws Let_def)
  next
    case front
    let ?s = "set_tcbSchedNext x 0 (set_tcbSchedPrev (hd bs) 0 s)"
    have "queue_remove q x s = Some (q\<lparr>q_head := hd bs\<rparr>, ?s)"
      using front c by (simp add: queue_remove_def nv)
    moreover have "tcb_frame no_sc_links (set (as @ x # bs)) s ?s" using front by simp
    ultimately show ?thesis using front c ht
      by (auto simp: laws first_of_nonempty last_of_nonempty intro!: exI [of _ ?s])
  next
    case tail
    let ?s = "set_tcbSchedPrev x 0 (set_tcbSchedNext (last as) 0 s)"
    have "queue_remove q x s = Some (q\<lparr>q_tail := last as\<rparr>, ?s)"
      using tail c by (simp add: queue_remove_def nv)
    moreover have "tcb_frame no_sc_links (set (as @ x # bs)) s ?s" using tail by simp
    ultimately show ?thesis using tail c ht
      by (auto simp: laws first_of_nonempty last_of_nonempty intro!: exI [of _ ?s])
  next
    case mid
    let ?s = "set_tcbSchedNext x 0 (set_tcbSchedPrev x 0
      (set_tcbSchedPrev (hd bs) (last as) (set_tcbSchedNext (last as) (hd bs) s)))"
    have "queue_remove q x s = Some (q, ?s)"
      using mid c by (simp add: queue_remove_def nv Let_def)
    moreover have "tcb_frame no_sc_links (set (as @ x # bs)) s ?s" using mid by simp
    ultimately show ?thesis using mid c ht
      by (auto simp: laws first_of_nonempty last_of_nonempty intro!: exI [of _ ?s])
  qed
qed

lemma queue_remove_rep:
  assumes "sched_queue s q (as @ x # bs)"
  shows "\<exists>q' s'. queue_remove q x s = Some (q', s') \<and> sched_queue s' q' (as @ bs) \<and>
    unlinked s' x \<and> tcb_frame no_sc_links (set (as @ x # bs)) s s'"
proof -
  have d: "dll (sc_nx s) (sc_pv s) (as @ x # bs)" using assms by (simp add: sched_queue_def queue_rep_def)
  obtain s' where s': "queue_remove q x s =
      Some (q\<lparr>q_head := first_of (as @ bs) 0, q_tail := last_of 0 (as @ bs)\<rparr>, s')"
    "sc_nx s' = (sc_nx (unlink_sched x s))(x := 0)" "sc_pv s' = (sc_pv (unlink_sched x s))(x := 0)"
    "tcb_frame no_sc_links (set (as @ x # bs)) s s'"
    using queue_remove_run [OF assms] by blast
  have "dll (sc_nx (unlink_sched x s)) (sc_pv (unlink_sched x s)) (as @ bs)"
    by (rule sc_links.unlink [OF d refl]) (simp add: unlink_sched_def Let_def)
  then have "dll (sc_nx s') (sc_pv s') (as @ bs)"
    using dll_distinct [OF d] by (subst dll_cong [of _ _ "sc_nx (unlink_sched x s)" _ "sc_pv (unlink_sched x s)"])
      (auto simp: s'(2,3))
  then show ?thesis using s' by (auto simp: sched_queue_def queue_rep_def unlinked_def)
qed

lemma tcb_frame_links:
  "tcb_frame k A s s' \<Longrightarrow> A \<inter> set xs = {} \<Longrightarrow> x \<in> set xs \<Longrightarrow>
   sc_nx s' x = sc_nx s x \<and> sc_pv s' x = sc_pv s x \<and> ep_nx s' x = ep_nx s x \<and> ep_pv s' x = ep_pv s x"
  by (auto simp: tcb_frame_def sc_nx_def sc_pv_def ep_nx_def ep_pv_def)

lemma sched_queue_frame:
  "sched_queue s q xs \<Longrightarrow> tcb_frame k A s s' \<Longrightarrow> A \<inter> set xs = {} \<Longrightarrow> sched_queue s' q xs"
  using tcb_frame_links [of k A s s' xs] dll_cong [of xs "sc_nx s'" "sc_nx s" "sc_pv s'" "sc_pv s"]
  by (simp add: sched_queue_def queue_rep_def)

lemma ep_queue_frame:
  "ep_queue s q xs \<Longrightarrow> tcb_frame k A s s' \<Longrightarrow> A \<inter> set xs = {} \<Longrightarrow> ep_queue s' q xs"
  using tcb_frame_links [of k A s s' xs] dll_cong [of xs "ep_nx s'" "ep_nx s" "ep_pv s'" "ep_pv s"]
  by (simp add: ep_queue_def queue_rep_def)

section \<open>The contract of a queue of threads\<close>

text \<open>Enqueue a list of threads, and take threads off the front.\<close>

type_synonym queue_op = "tcb_queue_t \<Rightarrow> ptr \<Rightarrow> kstate \<Rightarrow> (tcb_queue_t \<times> kstate) option"

primrec enq_all :: "queue_op \<Rightarrow> ptr list \<Rightarrow> tcb_queue_t \<Rightarrow> kstate \<Rightarrow> (tcb_queue_t \<times> kstate) option" where
  "enq_all enq [] q s = Some (q, s)"
| "enq_all enq (x # xs) q s = do { (q, s) \<leftarrow> enq q x s; enq_all enq xs q s }"

primrec deq_all :: "queue_op \<Rightarrow> nat \<Rightarrow> tcb_queue_t \<Rightarrow> kstate \<Rightarrow> (ptr list \<times> tcb_queue_t \<times> kstate) option" where
  "deq_all deq 0 q s = Some ([], q, s)"
| "deq_all deq (Suc n) q s = do {
     let x = q_head q;
     (q, s) \<leftarrow> deq q x s;
     (xs, q, s) \<leftarrow> deq_all deq n q s;
     Some (x # xs, q, s)
   }"

text \<open>
  A client sees a queue record as a list of threads.  \<open>ready s x\<close> is what the operation needs of a
  thread that enters: nothing for endpoint queues, null links for ready queues.
\<close>

locale thread_queue =
  fixes rep :: "kstate \<Rightarrow> tcb_queue_t \<Rightarrow> ptr list \<Rightarrow> bool"
    and enq :: queue_op and deq :: queue_op
    and ready :: "kstate \<Rightarrow> ptr \<Rightarrow> bool"
  assumes rep_head: "rep s q (x # xs) \<Longrightarrow> q_head q = x"
    and enq_rep: "rep s q xs \<Longrightarrow> x \<notin> set xs \<Longrightarrow> x \<noteq> 0 \<Longrightarrow> ready s x \<Longrightarrow>
      \<exists>q' s'. enq q x s = Some (q', s') \<and> rep s' q' (xs @ [x]) \<and>
        (\<forall>y. y \<notin> insert x (set xs) \<longrightarrow> ready s' y = ready s y)"
    and deq_rep: "rep s q (as @ x # bs) \<Longrightarrow>
      \<exists>q' s'. deq q x s = Some (q', s') \<and> rep s' q' (as @ bs) \<and> ready s' x"
begin

lemma enq_all_rep:
  assumes "rep s q xs" "distinct (xs @ ys)" "\<forall>y \<in> set ys. y \<noteq> 0 \<and> ready s y"
  shows "\<exists>q' s'. enq_all enq ys q s = Some (q', s') \<and> rep s' q' (xs @ ys)"
  using assms
proof (induction ys arbitrary: q s xs)
  case (Cons y ys)
  from Cons.prems enq_rep [of s q xs y] obtain q1 s1 where 1: "enq q y s = Some (q1, s1)"
    "rep s1 q1 (xs @ [y])" "\<forall>z. z \<notin> insert y (set xs) \<longrightarrow> ready s1 z = ready s z" by auto
  have "\<forall>z \<in> set ys. z \<noteq> 0 \<and> ready s1 z" using Cons.prems 1(3) by auto
  with Cons.IH [OF 1(2)] Cons.prems(2) obtain q' s' where
    "enq_all enq ys q1 s1 = Some (q', s')" "rep s' q' ((xs @ [y]) @ ys)" by auto
  with 1(1) show ?case by auto
qed auto

lemma deq_all_rep:
  "rep s q (xs @ ys) \<Longrightarrow> \<exists>q' s'. deq_all deq (length xs) q s = Some (xs, q', s') \<and> rep s' q' ys"
proof (induction xs arbitrary: q s)
  case (Cons x xs)
  then obtain q1 s1 where 1: "deq q x s = Some (q1, s1)" "rep s1 q1 (xs @ ys)"
    using deq_rep [of s q "[]" x "xs @ ys"] by auto
  moreover have "q_head q = x" using rep_head Cons.prems by simp
  ultimately show ?case using Cons.IH [OF 1(2)] by auto
qed auto

lemma fifo:
  assumes "rep s q xs" "distinct (xs @ ys)" "\<forall>y \<in> set ys. y \<noteq> 0 \<and> ready s y"
  shows "\<exists>q1 s1 q2 s2. enq_all enq ys q s = Some (q1, s1) \<and>
    deq_all deq (length (xs @ ys)) q1 s1 = Some (xs @ ys, q2, s2) \<and> rep s2 q2 []"
  using enq_all_rep [OF assms] deq_all_rep [of _ _ "xs @ ys" "[]"] by auto

end

interpretation ep_q: thread_queue ep_queue ep_append ep_dequeue "\<lambda>_ _. True"
proof unfold_locales
  show "q_head q = x" if "ep_queue s q (x # xs)" for s q x xs
    using that by (simp add: ep_queue_def queue_rep_def)
  show "\<exists>q' s'. ep_append q x s = Some (q', s') \<and> ep_queue s' q' (xs @ [x]) \<and>
      (\<forall>y. y \<notin> insert x (set xs) \<longrightarrow> True = True)"
    if "ep_queue s q xs" "x \<notin> set xs" "x \<noteq> 0" for s q xs x
    using ep_append_rep [OF that] by auto
  show "\<exists>q' s'. ep_dequeue q x s = Some (q', s') \<and> ep_queue s' q' (as @ bs) \<and> True"
    if "ep_queue s q (as @ x # bs)" for s q as x bs
    using ep_dequeue_rep [OF that] by auto
qed

lemma unlinked_frame: "tcb_frame k A s s' \<Longrightarrow> y \<notin> A \<Longrightarrow> unlinked s' y = unlinked s y"
  using tcb_frame_links [of k A s s' "[y]" y] by (simp add: unlinked_def)

interpretation sched_q: thread_queue sched_queue queue_append queue_remove unlinked
proof unfold_locales
  show "q_head q = x" if "sched_queue s q (x # xs)" for s q x xs
    using that by (simp add: sched_queue_def queue_rep_def)
  show "\<exists>q' s'. queue_append q x s = Some (q', s') \<and> sched_queue s' q' (xs @ [x]) \<and>
      (\<forall>y. y \<notin> insert x (set xs) \<longrightarrow> unlinked s' y = unlinked s y)"
    if "sched_queue s q xs" "x \<notin> set xs" "x \<noteq> 0" "unlinked s x" for s q xs x
    using queue_append_rep [OF that] unlinked_frame by blast
  show "\<exists>q' s'. queue_remove q x s = Some (q', s') \<and> sched_queue s' q' (as @ bs) \<and> unlinked s' x"
    if "sched_queue s q (as @ x # bs)" for s q as x bs
    using queue_remove_rep [OF that] by auto
qed

text \<open>
  C17: The queues of endpoints and notifications are first-in first-out: threads appended to a queue
  come off its head in the order of the queue followed by the order of appending, whatever the
  links of the other threads are, and no step panics.
\<close>

theorem ep_queue_fifo:
  assumes "ep_queue s q xs" "distinct (xs @ ys)" "0 \<notin> set ys"
  shows "\<exists>q1 s1 q2 s2. enq_all ep_append ys q s = Some (q1, s1) \<and>
    deq_all ep_dequeue (length (xs @ ys)) q1 s1 = Some (xs @ ys, q2, s2) \<and> ep_queue s2 q2 []"
  using ep_q.fifo [OF assms(1,2)] assms(3) by blast

theorem ep_queue_fifo_witness:
  "\<exists>q1 s1 q2 s2. enq_all ep_append [0x400, 0xc00] \<lparr> q_head = 0, q_tail = 0 \<rparr> empty_kstate = Some (q1, s1) \<and>
    deq_all ep_dequeue (length [0x400, 0xc00 :: ptr]) q1 s1 = Some ([0x400, 0xc00], q2, s2) \<and>
    ep_queue s2 q2 []"
proof -
  have "ep_queue empty_kstate \<lparr> q_head = 0, q_tail = 0 \<rparr> []"
    by (simp add: ep_queue_def queue_rep_def)
  from ep_queue_fifo [OF this, of "[0x400, 0xc00]"] show ?thesis
    unfolding append_Nil by simp
qed

end
