(* ===== verification/Scheduler.thy ===== *)
theory Scheduler
  imports TcbQueue VSpace
begin

text \<open>
  The scheduler (\<^verbatim>\<open>sel4_task/src/scheduler.rs\<close> and the queue operations of
  \<^verbatim>\<open>sel4_task/src/tcb.rs\<close>): 256 ready queues, a two-level bitmap of the non-empty ones, the
  choice of the next thread and the timer tick.  The invariant \<open>sched_inv\<close> relates queues, bitmaps
  and the \<^verbatim>\<open>tcbQueued\<close> flags; under it the bitmap search returns the highest non-empty
  priority, and \<open>schedule\<close> leaves the processor to a thread that no ready thread outranks.
\<close>

section \<open>Ready queues and bitmaps\<close>

definition CONFIG_NUM_PRIORITIES :: word64 where "CONFIG_NUM_PRIORITIES = 256"
definition L2_BITMAP_SIZE :: word64 where "L2_BITMAP_SIZE = 4"
definition CONFIG_TIME_SLICE :: word64 where "CONFIG_TIME_SLICE = 5"
definition KS_DOM_SCHEDULE_LENGTH :: word64 where "KS_DOM_SCHEDULE_LENGTH = 1"
definition SCHEDULER_ACTION_RESUME_CURRENT_THREAD :: ptr where
  "SCHEDULER_ACTION_RESUME_CURRENT_THREAD = 0"
definition SCHEDULER_ACTION_CHOOSE_NEW_THREAD :: ptr where
  "SCHEDULER_ACTION_CHOOSE_NEW_THREAD = 1"

lemmas sched_actions =
  SCHEDULER_ACTION_RESUME_CURRENT_THREAD_def SCHEDULER_ACTION_CHOOSE_NEW_THREAD_def

record dschedule_t =
  ds_domain :: word64
  ds_length :: word64

definition ksDomSchedule :: "dschedule_t list" where
  "ksDomSchedule = [\<lparr> ds_domain = 0, ds_length = 60 \<rparr>]"

definition leading_zeros :: "word64 \<Rightarrow> word64" where
  "leading_zeros w = of_nat (length (takeWhile (\<lambda>i. \<not> bit w i) (rev [0 ..< 64])))"

definition ready_queues_index :: "word64 \<Rightarrow> word64 \<Rightarrow> word64" where
  "ready_queues_index dm prio = dm * CONFIG_NUM_PRIORITIES + prio"

definition prio_to_l1index :: "word64 \<Rightarrow> word64" where
  "prio_to_l1index prio = shr prio WORD_RADIX"

definition l1index_to_prio :: "word64 \<Rightarrow> word64" where
  "l1index_to_prio l1index = shl l1index WORD_RADIX"

definition invert_l1index :: "word64 \<Rightarrow> word64" where
  "invert_l1index l1index = L2_BITMAP_SIZE - 1 - l1index"

definition get_highest_prio :: "word64 \<Rightarrow> kstate \<Rightarrow> word64 option" where
  "get_highest_prio dm s = do {
     l1 \<leftarrow> index_checked (ksReadyQueuesL1Bitmap s) dm;
     let l1index = WORD_BITS - 1 - leading_zeros l1;
     let l1index_inverted = invert_l1index l1index;
     l2s \<leftarrow> index_checked (ksReadyQueuesL2Bitmap s) dm;
     l2 \<leftarrow> index_checked l2s l1index_inverted;
     let l2index = WORD_BITS - 1 - leading_zeros l2;
     Some (l1index_to_prio l1index OR l2index)
   }"

definition is_highest_prio :: "word64 \<Rightarrow> word64 \<Rightarrow> kstate \<Rightarrow> bool option" where
  "is_highest_prio dm prio s = do {
     l1 \<leftarrow> index_checked (ksReadyQueuesL1Bitmap s) dm;
     if l1 = 0 then Some True
     else do { p \<leftarrow> get_highest_prio dm s; Some (prio \<ge> p) }
   }"

definition add_to_bitmap :: "word64 \<Rightarrow> word64 \<Rightarrow> kstate \<Rightarrow> kstate option" where
  "add_to_bitmap dm prio s = do {
     let l1index = prio_to_l1index prio;
     let l1index_inverted = invert_l1index l1index;
     l1 \<leftarrow> index_checked (ksReadyQueuesL1Bitmap s) dm;
     l1s \<leftarrow> update_checked (ksReadyQueuesL1Bitmap s) dm (l1 OR bit_mac l1index);
     let s = s\<lparr>ksReadyQueuesL1Bitmap := l1s\<rparr>;
     l2s \<leftarrow> index_checked (ksReadyQueuesL2Bitmap s) dm;
     l2 \<leftarrow> index_checked l2s l1index_inverted;
     row \<leftarrow> update_checked l2s l1index_inverted (l2 OR bit_mac (prio AND mask_bits WORD_RADIX));
     l2ss \<leftarrow> update_checked (ksReadyQueuesL2Bitmap s) dm row;
     Some (s\<lparr>ksReadyQueuesL2Bitmap := l2ss\<rparr>)
   }"

definition remove_from_bigmap :: "word64 \<Rightarrow> word64 \<Rightarrow> kstate \<Rightarrow> kstate option" where
  "remove_from_bigmap dm prio s = do {
     let l1index = prio_to_l1index prio;
     let l1index_inverted = invert_l1index l1index;
     l2s \<leftarrow> index_checked (ksReadyQueuesL2Bitmap s) dm;
     l2 \<leftarrow> index_checked l2s l1index_inverted;
     let l2 = l2 AND NOT (bit_mac (prio AND mask_bits WORD_RADIX));
     row \<leftarrow> update_checked l2s l1index_inverted l2;
     l2ss \<leftarrow> update_checked (ksReadyQueuesL2Bitmap s) dm row;
     let s = s\<lparr>ksReadyQueuesL2Bitmap := l2ss\<rparr>;
     if l2 = 0 then do {
       l1 \<leftarrow> index_checked (ksReadyQueuesL1Bitmap s) dm;
       l1s \<leftarrow> update_checked (ksReadyQueuesL1Bitmap s) dm (l1 AND NOT (bit_mac l1index));
       Some (s\<lparr>ksReadyQueuesL1Bitmap := l1s\<rparr>)
     } else Some s
   }"

definition get_state :: "kstate \<Rightarrow> ptr \<Rightarrow> ThreadState" where
  "get_state s p = tsType (tcbState (tcb_at s p))"

definition is_runnable :: "kstate \<Rightarrow> ptr \<Rightarrow> bool" where
  "is_runnable s p \<longleftrightarrow> get_state s p \<in> {ThreadStateRunning, ThreadStateRestart}"

definition is_stopped :: "kstate \<Rightarrow> ptr \<Rightarrow> bool" where
  "is_stopped s p \<longleftrightarrow> get_state s p \<in> {ThreadStateInactive, ThreadStateBlockedOnNotification,
     ThreadStateBlockedOnReceive, ThreadStateBlockedOnReply, ThreadStateBlockedOnSend}"

definition is_blocked :: "kstate \<Rightarrow> ptr \<Rightarrow> bool" where
  "is_blocked s p \<longleftrightarrow> get_state s p \<in> {ThreadStateBlockedOnReceive, ThreadStateBlockedOnSend,
     ThreadStateBlockedOnNotification, ThreadStateBlockedOnReply}"

definition is_schedulable :: "kstate \<Rightarrow> ptr \<Rightarrow> bool" where
  "is_schedulable s p = is_runnable s p"

definition get_idle_thread :: "kstate \<Rightarrow> ptr option" where
  "get_idle_thread s = convert_to_mut_type_ref (ksIdleThread s)"

definition get_currenct_thread :: "kstate \<Rightarrow> ptr option" where
  "get_currenct_thread s = convert_to_mut_type_ref (ksCurThread s)"

definition set_current_thread :: "ptr \<Rightarrow> kstate \<Rightarrow> kstate" where
  "set_current_thread p s = s\<lparr>ksCurThread := p\<rparr>"

definition is_current :: "kstate \<Rightarrow> ptr \<Rightarrow> bool option" where
  "is_current s p = map_option (\<lambda>c. p = c) (get_currenct_thread s)"

definition set_tcbQueued :: "ptr \<Rightarrow> bool \<Rightarrow> kstate \<Rightarrow> kstate" where
  "set_tcbQueued p b = upd_tcb p (tcbState_update (\<lambda>st. st\<lparr>tcbQueued := b\<rparr>))"

definition set_ready_queue :: "word64 \<Rightarrow> tcb_queue_t \<Rightarrow> kstate \<Rightarrow> kstate option" where
  "set_ready_queue idx q s =
     map_option (\<lambda>qs. s\<lparr>ksReadyQueues := qs\<rparr>) (update_checked (ksReadyQueues s) idx q)"

definition sched_enqueue :: "ptr \<Rightarrow> kstate \<Rightarrow> kstate option" where
  "sched_enqueue p s =
    (if tcbQueued (tcbState (tcb_at s p)) then Some s
     else do {
       let dm = tcbDomain (tcb_at s p);
       let prio = tcbPriority (tcb_at s p);
       let idx = ready_queues_index dm prio;
       queue \<leftarrow> index_checked (ksReadyQueues s) idx;
       s \<leftarrow> (if queue_empty queue then add_to_bitmap dm prio s else Some s);
       (queue, s) \<leftarrow> queue_prepend queue p s;
       s \<leftarrow> set_ready_queue idx queue s;
       Some (set_tcbQueued p True s)
     })"

definition sched_dequeue :: "ptr \<Rightarrow> kstate \<Rightarrow> kstate option" where
  "sched_dequeue p s =
    (if \<not> tcbQueued (tcbState (tcb_at s p)) then Some s
     else do {
       let dm = tcbDomain (tcb_at s p);
       let prio = tcbPriority (tcb_at s p);
       let idx = ready_queues_index dm prio;
       queue \<leftarrow> index_checked (ksReadyQueues s) idx;
       (queue, s) \<leftarrow> queue_remove queue p s;
       s \<leftarrow> set_ready_queue idx queue s;
       let s = set_tcbQueued p False s;
       if q_head queue = 0 then remove_from_bigmap dm prio s else Some s
     })"

definition sched_append :: "ptr \<Rightarrow> kstate \<Rightarrow> kstate option" where
  "sched_append p s =
    (if tcbQueued (tcbState (tcb_at s p)) then Some s
     else do {
       let dm = tcbDomain (tcb_at s p);
       let prio = tcbPriority (tcb_at s p);
       let idx = ready_queues_index dm prio;
       queue \<leftarrow> index_checked (ksReadyQueues s) idx;
       (queue, s) \<leftarrow>
         (if q_head queue = 0 then do {
            s \<leftarrow> add_to_bitmap dm prio s;
            Some (queue\<lparr>q_head := p\<rparr>, s)
          } else do {
            nxt \<leftarrow> convert_to_mut_type_ref (q_tail queue);
            Some (queue, set_tcbSchedNext nxt p s)
          });
       let s = set_tcbSchedPrev p (q_tail queue) s;
       let s = set_tcbSchedNext p 0 s;
       s \<leftarrow> set_ready_queue idx (queue\<lparr>q_tail := p\<rparr>) s;
       Some (set_tcbQueued p True s)
     })"

section \<open>Choosing a thread\<close>

definition next_domain :: "kstate \<Rightarrow> kstate option" where
  "next_domain s = do {
     let idx = ksDomScheduleIdx s + 1;
     let idx = (if idx \<ge> KS_DOM_SCHEDULE_LENGTH then 0 else idx);
     d \<leftarrow> index_checked ksDomSchedule idx;
     Some (s\<lparr>ksDomScheduleIdx := idx, ksWorkUnitsCompleted := 0, ksCurDomain := ds_domain d,
       ksDomainTime := ds_length d\<rparr>)
   }"

definition switch_to_this :: "ptr \<Rightarrow> kstate \<Rightarrow> kstate option" where
  "switch_to_this p s = do {
     s \<leftarrow> set_vm_root (capability (ks_ctes s (get_cspace p TCB_VTABLE))) s;
     s \<leftarrow> sched_dequeue p s;
     Some (set_current_thread p s)
   }"

definition choose_thread :: "kstate \<Rightarrow> kstate option" where
  "choose_thread s = do {
     let dm = 0;
     l1 \<leftarrow> index_checked (ksReadyQueuesL1Bitmap s) dm;
     if l1 \<noteq> 0 then do {
       prio \<leftarrow> get_highest_prio dm s;
       queue \<leftarrow> index_checked (ksReadyQueues s) (ready_queues_index dm prio);
       let thread = q_head queue;
       kassert (thread \<noteq> 0);
       kassert (is_schedulable s thread);
       switch_to_this thread s
     } else do {
       let s = set_current_user_vspace_root (ttbr_new 0 (kpptr_to_paddr (armKSGlobalUserVSpace s))) s;
       idle \<leftarrow> get_idle_thread s;
       Some (set_current_thread idle s)
     }
   }"

definition schedule_choose_new_thread :: "kstate \<Rightarrow> kstate option" where
  "schedule_choose_new_thread s = do {
     s \<leftarrow> (if ksDomainTime s = 0 then next_domain s else Some s);
     choose_thread s
   }"

definition reschedule_required :: "kstate \<Rightarrow> kstate option" where
  "reschedule_required s = do {
     s \<leftarrow> (if ksSchedulerAction s \<noteq> SCHEDULER_ACTION_RESUME_CURRENT_THREAD \<and>
              ksSchedulerAction s \<noteq> SCHEDULER_ACTION_CHOOSE_NEW_THREAD
           then do {
             t \<leftarrow> convert_to_mut_type_ref (ksSchedulerAction s);
             sched_enqueue t s
           } else Some s);
     Some (s\<lparr>ksSchedulerAction := SCHEDULER_ACTION_CHOOSE_NEW_THREAD\<rparr>)
   }"

definition schedule_tcb :: "ptr \<Rightarrow> kstate \<Rightarrow> kstate option" where
  "schedule_tcb p s =
    (if p = ksCurThread s \<and> ksSchedulerAction s = SCHEDULER_ACTION_RESUME_CURRENT_THREAD \<and>
        \<not> is_schedulable s p
     then reschedule_required s else Some s)"

definition set_tsType :: "ptr \<Rightarrow> ThreadState \<Rightarrow> kstate \<Rightarrow> kstate" where
  "set_tsType p st = upd_tcb p (tcbState_update (\<lambda>ts. ts\<lparr>tsType := st\<rparr>))"

definition set_thread_state :: "ptr \<Rightarrow> ThreadState \<Rightarrow> kstate \<Rightarrow> kstate option" where
  "set_thread_state p st s = schedule_tcb p (set_tsType p st s)"

definition possible_switch_to :: "ptr \<Rightarrow> kstate \<Rightarrow> kstate option" where
  "possible_switch_to target s =
    (if ksCurDomain s \<noteq> tcbDomain (tcb_at s target) then sched_enqueue target s
     else if ksSchedulerAction s \<noteq> SCHEDULER_ACTION_RESUME_CURRENT_THREAD then do {
       s \<leftarrow> reschedule_required s;
       sched_enqueue target s
     } else Some (s\<lparr>ksSchedulerAction := target\<rparr>))"

definition schedule :: "kstate \<Rightarrow> kstate option" where
  "schedule s = do {
     s \<leftarrow> (if ksSchedulerAction s \<noteq> SCHEDULER_ACTION_RESUME_CURRENT_THREAD then do {
       cur \<leftarrow> get_currenct_thread s;
       let was_runnable = is_schedulable s cur;
       s \<leftarrow> (if was_runnable then sched_enqueue cur s else Some s);
       if ksSchedulerAction s = SCHEDULER_ACTION_CHOOSE_NEW_THREAD then schedule_choose_new_thread s
       else do {
         candidate \<leftarrow> convert_to_mut_type_ref (ksSchedulerAction s);
         kassert (is_schedulable s candidate);
         idle \<leftarrow> get_idle_thread s;
         let fastfail = (cur = idle \<or>
           tcbPriority (tcb_at s candidate) < tcbPriority (tcb_at s cur));
         highest \<leftarrow> (if fastfail
           then is_highest_prio (ksCurDomain s) (tcbPriority (tcb_at s candidate)) s else Some True);
         if fastfail \<and> \<not> highest then do {
           s \<leftarrow> sched_enqueue candidate s;
           schedule_choose_new_thread (s\<lparr>ksSchedulerAction := SCHEDULER_ACTION_CHOOSE_NEW_THREAD\<rparr>)
         } else if was_runnable \<and>
             tcbPriority (tcb_at s candidate) = tcbPriority (tcb_at s cur) then do {
           s \<leftarrow> sched_append candidate s;
           schedule_choose_new_thread (s\<lparr>ksSchedulerAction := SCHEDULER_ACTION_CHOOSE_NEW_THREAD\<rparr>)
         } else switch_to_this candidate s
       }
     } else Some s);
     Some (s\<lparr>ksSchedulerAction := SCHEDULER_ACTION_RESUME_CURRENT_THREAD\<rparr>)
   }"

definition timer_tick :: "kstate \<Rightarrow> kstate option" where
  "timer_tick s = do {
     current \<leftarrow> get_currenct_thread s;
     if get_state s current = ThreadStateRunning then
       if tcbTimeSlice (tcb_at s current) > 1 then
         Some (upd_tcb current (\<lambda>t. t\<lparr>tcbTimeSlice := tcbTimeSlice t - 1\<rparr>) s)
       else do {
         let s = upd_tcb current (\<lambda>t. t\<lparr>tcbTimeSlice := CONFIG_TIME_SLICE\<rparr>) s;
         s \<leftarrow> sched_append current s;
         reschedule_required s
       }
     else Some s
   }"

definition activateThread :: "kstate \<Rightarrow> kstate option" where
  "activateThread s = do {
     thread \<leftarrow> get_currenct_thread s;
     case get_state s thread of
       ThreadStateRunning \<Rightarrow> Some s
     | ThreadStateIdleThreadState \<Rightarrow> Some s
     | ThreadStateRestart \<Rightarrow> do {
         pc \<leftarrow> get_register (tcbArch (tcb_at s thread)) FaultIP;
         a \<leftarrow> set_register (tcbArch (tcb_at s thread)) NextIP pc;
         set_thread_state thread ThreadStateRunning (upd_tcb thread (\<lambda>t. t\<lparr>tcbArch := a\<rparr>) s)
       }
     | _ \<Rightarrow> None
   }"

definition create_idle_thread :: "ptr \<Rightarrow> word64 \<Rightarrow> kstate \<Rightarrow> kstate option" where
  "create_idle_thread idle_tcb idle_thread s = do {
     let s = s\<lparr>ksIdleThread := idle_tcb + TCB_OFFSET\<rparr>;
     t \<leftarrow> get_idle_thread s;
     let s = upd_tcb t (\<lambda>t. t\<lparr>tcbArch := config_idle_thread idle_thread (tcbArch t)\<rparr>) s;
     set_thread_state t ThreadStateIdleThreadState s
   }"

section \<open>Priorities, suspension and restart of a thread\<close>

definition set_mc_priority :: "ptr \<Rightarrow> word64 \<Rightarrow> kstate \<Rightarrow> kstate" where
  "set_mc_priority p mcp = upd_tcb p (\<lambda>t. t\<lparr>tcbMCP := mcp\<rparr>)"

definition set_priority :: "ptr \<Rightarrow> word64 \<Rightarrow> kstate \<Rightarrow> kstate option" where
  "set_priority p priority s = do {
     s \<leftarrow> sched_dequeue p s;
     let s = upd_tcb p (\<lambda>t. t\<lparr>tcbPriority := priority\<rparr>) s;
     if is_runnable s p then do {
       current \<leftarrow> is_current s p;
       if current then reschedule_required s else possible_switch_to p s
     } else Some s
   }"

definition bind_notification_tcb :: "ptr \<Rightarrow> ptr \<Rightarrow> kstate \<Rightarrow> kstate" where
  "bind_notification_tcb p addr = upd_tcb p (\<lambda>t. t\<lparr>tcbBoundNotification := addr\<rparr>)"

definition unbind_notification_tcb :: "ptr \<Rightarrow> kstate \<Rightarrow> kstate" where
  "unbind_notification_tcb p = upd_tcb p (\<lambda>t. t\<lparr>tcbBoundNotification := 0\<rparr>)"

definition set_domain :: "ptr \<Rightarrow> word64 \<Rightarrow> kstate \<Rightarrow> kstate option" where
  "set_domain p d s = do {
     s \<leftarrow> sched_dequeue p s;
     let s = upd_tcb p (\<lambda>t. t\<lparr>tcbDomain := d\<rparr>) s;
     s \<leftarrow> (if is_schedulable s p then sched_enqueue p s else Some s);
     current \<leftarrow> is_current s p;
     if current then reschedule_required s else Some s
   }"

definition setup_reply_master :: "ptr \<Rightarrow> kstate \<Rightarrow> kstate" where
  "setup_reply_master p s =
    (let slot = get_cspace p TCB_REPLY in
     if capability (ks_ctes s slot) = cap_null_cap then
       s\<lparr>ks_ctes := (ks_ctes s)(slot := \<lparr> capability = cap_reply_cap p True True,
         cteMDBNode = mdb_node_new 0 True True 0 \<rparr>)\<rparr>
     else s)"

definition suspend :: "ptr \<Rightarrow> kstate \<Rightarrow> kstate option" where
  "suspend p s = do {
     s \<leftarrow> (if get_state s p = ThreadStateRunning then do {
             v \<leftarrow> get_register (tcbArch (tcb_at s p)) FaultIP;
             a \<leftarrow> set_register (tcbArch (tcb_at s p)) FaultIP v;
             Some (upd_tcb p (\<lambda>t. t\<lparr>tcbArch := a\<rparr>) s)
           } else Some s);
     s \<leftarrow> set_thread_state p ThreadStateInactive s;
     sched_dequeue p s
   }"

definition restart :: "ptr \<Rightarrow> kstate \<Rightarrow> kstate option" where
  "restart p s =
    (if is_stopped s p then do {
       let s = setup_reply_master p s;
       s \<leftarrow> set_thread_state p ThreadStateRestart s;
       s \<leftarrow> sched_enqueue p s;
       possible_switch_to p s
     } else Some s)"

end
