(* ===== verification/SchedulerInv.thy ===== *)
theory SchedulerInv
  imports Scheduler
begin

text \<open>
  The invariant of the scheduler and what the operations of \<open>Scheduler\<close> make of it.
\<close>

section \<open>The two-level bitmap\<close>

text \<open>
  \<open>bitmap_ok l1 l2s P\<close>: bit \<open>i mod 64\<close> of the second-level word \<open>3 - i div 64\<close> is set exactly for the
  priorities \<open>i\<close> in \<open>P\<close>, and bit \<open>j\<close> of the first level says whether word \<open>3 - j\<close> is non-zero.
\<close>

definition bitmap_ok :: "word64 \<Rightarrow> word64 list \<Rightarrow> (nat \<Rightarrow> bool) \<Rightarrow> bool" where
  "bitmap_ok l1 l2s P \<longleftrightarrow> length l2s = 4 \<and>
     (\<forall>i < 256. bit (l2s ! (3 - i div 64)) (i mod 64) \<longleftrightarrow> P i) \<and>
     (\<forall>j. bit l1 j \<longleftrightarrow> j < 4 \<and> l2s ! (3 - j) \<noteq> 0)"

definition bitmaps :: "kstate \<Rightarrow> (nat \<Rightarrow> bool) \<Rightarrow> bool" where
  "bitmaps s P \<longleftrightarrow> (\<exists>l1 l2s. ksReadyQueuesL1Bitmap s = [l1] \<and> ksReadyQueuesL2Bitmap s = [l2s] \<and>
     bitmap_ok l1 l2s P)"

lemma takeWhile_msb:
  assumes "bit w i" "i < n"
  shows "\<exists>m < n. length (takeWhile (\<lambda>i. \<not> bit w i) (rev [0 ..< n])) = n - 1 - m \<and> bit w m \<and>
    (\<forall>j. m < j \<longrightarrow> j < n \<longrightarrow> \<not> bit w j)"
  using assms
proof (induction n)
  case (Suc n)
  show ?case
  proof (cases "bit w n")
    case False
    with Suc.prems have "i < n" by (metis less_antisym)
    with Suc obtain m where "m < n" "length (takeWhile (\<lambda>i. \<not> bit w i) (rev [0 ..< n])) = n - 1 - m"
      "bit w m" "\<forall>j. m < j \<longrightarrow> j < n \<longrightarrow> \<not> bit w j" by blast
    with False show ?thesis by (intro exI [of _ m]) (auto simp: less_Suc_eq)
  qed (auto intro!: exI [of _ n])
qed simp

lemma leading_zeros_msb:
  assumes "w \<noteq> 0"
  shows "\<exists>m < 64. WORD_BITS - 1 - leading_zeros w = of_nat m \<and> bit w m \<and> (\<forall>j > m. \<not> bit w j)"
proof -
  from assms obtain i where "bit w i" by (metis bit_eq_iff bit_0_eq bot_apply bot_bool_def)
  moreover from this have "i < 64" using bit_imp_le_length by force
  ultimately obtain m where m: "m < 64"
    "length (takeWhile (\<lambda>i. \<not> bit w i) (rev [0 ..< 64])) = 64 - 1 - m" "bit w m"
    "\<forall>j. m < j \<longrightarrow> j < 64 \<longrightarrow> \<not> bit w j"
    using takeWhile_msb [of w i 64] by blast
  have "WORD_BITS - 1 - leading_zeros w = 63 - of_nat (63 - m)"
    using m(2) by (simp add: leading_zeros_def WORD_BITS_def del: of_nat_diff)
  also have "\<dots> = of_nat m" using m(1) by (simp add: of_nat_diff)
  finally have "WORD_BITS - 1 - leading_zeros w = of_nat m" .
  moreover have "\<forall>j > m. \<not> bit w j" using m(4) bit_imp_le_length by force
  ultimately show ?thesis using m(1,3) by blast
qed

lemma unat_of_nat_small [simp]: "n < 256 \<Longrightarrow> unat (of_nat n :: word64) = n"
  by (simp add: unsigned_of_nat take_bit_nat_eq_self_iff)

lemma l1_shift_or:
  assumes "a < 4" "b < 64"
  shows "l1index_to_prio (of_nat a) OR of_nat b = of_nat (64 * a + b)"
proof -
  have "l1index_to_prio (of_nat a) OR of_nat b = push_bit 6 (of_nat a) + (of_nat b :: word64)"
  proof -
    have "take_bit 6 (of_nat b :: word64) = of_nat b"
      using assms(2) by (simp add: take_bit_of_nat take_bit_nat_eq_self)
    then have "\<not> bit (of_nat b :: word64) n" if "6 \<le> n" for n using that by (metis bit_take_bit_iff not_le)
    then show ?thesis
      by (subst disjunctive_add) (auto simp: bit_push_bit_iff l1index_to_prio_def shl_def WORD_RADIX_def)
  qed
  then show ?thesis by (simp add: push_bit_eq_mult)
qed

lemma bitmap_highest:
  assumes ok: "bitmap_ok l1 l2s P" and i: "i < 256" "P i"
  shows "\<exists>a < 4. \<exists>b < 64. WORD_BITS - 1 - leading_zeros l1 = of_nat a \<and>
    WORD_BITS - 1 - leading_zeros (l2s ! (3 - a)) = of_nat b \<and> P (64 * a + b) \<and>
    (\<forall>j < 256. 64 * a + b < j \<longrightarrow> \<not> P j)"
proof -
  have l2: "bit (l2s ! (3 - j div 64)) (j mod 64) = P j" if "j < 256" for j
    using ok that by (simp add: bitmap_ok_def)
  have l1: "bit l1 j \<longleftrightarrow> j < 4 \<and> l2s ! (3 - j) \<noteq> 0" for j
    using ok by (simp add: bitmap_ok_def)
  have l1_of: "bit l1 (j div 64)" if "j < 256" "P j" for j
    using l1 [of "j div 64"] l2 [OF that(1)] that by auto
  have "l1 \<noteq> 0" using l1_of [OF i] by auto
  then obtain a where a: "WORD_BITS - 1 - leading_zeros l1 = of_nat a" "bit l1 a" "\<forall>j > a. \<not> bit l1 j"
    using leading_zeros_msb by blast
  then have a4: "a < 4" "l2s ! (3 - a) \<noteq> 0" using l1 by auto
  then obtain b where b: "b < 64" "WORD_BITS - 1 - leading_zeros (l2s ! (3 - a)) = of_nat b"
    "bit (l2s ! (3 - a)) b" "\<forall>j > b. \<not> bit (l2s ! (3 - a)) j"
    using leading_zeros_msb by blast
  have "P (64 * a + b)" using l2 [of "64 * a + b"] b a4 by simp
  moreover have "\<not> P j" if "j < 256" "64 * a + b < j" for j
  proof
    assume "P j"
    have "j div 64 \<le> a" using l1_of [OF that(1) \<open>P j\<close>] a(3) by (meson not_le)
    moreover have "a \<le> j div 64" using that(2) b(1) by linarith
    ultimately have "j div 64 = a" by simp
    moreover from this that(2) have "b < j mod 64" using div_mult_mod_eq [of j 64] by linarith
    ultimately show False using l2 [OF that(1)] \<open>P j\<close> b(4) by auto
  qed
  ultimately show ?thesis using a(1) a4(1) b(1,2) by blast
qed

lemma unat_invert_l1index: "unat l \<le> 3 \<Longrightarrow> unat (invert_l1index l) = 3 - unat l"
  by (simp add: invert_l1index_def L2_BITMAP_SIZE_def unat_sub word_le_nat_alt)

lemma get_highest_prio_bitmap:
  assumes "bitmaps s P" "i < 256" "P i"
  shows "\<exists>p < 256. get_highest_prio 0 s = Some (of_nat p) \<and> P p \<and> (\<forall>j < 256. p < j \<longrightarrow> \<not> P j)"
proof -
  obtain l1 l2s where s: "ksReadyQueuesL1Bitmap s = [l1]" "ksReadyQueuesL2Bitmap s = [l2s]"
    and ok: "bitmap_ok l1 l2s P" using assms(1) by (auto simp: bitmaps_def)
  from bitmap_highest [OF ok assms(2,3)] obtain a b where ab: "a < 4" "b < 64"
    "WORD_BITS - 1 - leading_zeros l1 = of_nat a"
    "WORD_BITS - 1 - leading_zeros (l2s ! (3 - a)) = of_nat b" "P (64 * a + b)"
    "\<forall>j < 256. 64 * a + b < j \<longrightarrow> \<not> P j" by blast
  have "unat (invert_l1index (of_nat a)) = 3 - a"
    using ab(1) by (simp add: unat_invert_l1index)
  then have "get_highest_prio 0 s = Some (l1index_to_prio (of_nat a) OR of_nat b)"
    using s ab ok by (simp add: get_highest_prio_def index_checked_def bitmap_ok_def Let_def)
  then show ?thesis
    using l1_shift_or [OF ab(1,2)] ab by (intro exI [of _ "64 * a + b"]) simp
qed

lemma l1_index_facts:
  assumes "unat prio < 256"
  shows "unat (prio_to_l1index prio) = unat prio div 64"
    "unat (invert_l1index (prio_to_l1index prio)) = 3 - unat prio div 64"
    "unat (prio AND mask_bits WORD_RADIX) = unat prio mod 64"
proof -
  show 1: "unat (prio_to_l1index prio) = unat prio div 64"
    by (simp add: prio_to_l1index_def shr_def WORD_RADIX_def drop_bit_eq_div unat_div)
  have "unat prio div 64 < 4" using assms by (simp add: less_mult_imp_div_less)
  then show "unat (invert_l1index (prio_to_l1index prio)) = 3 - unat prio div 64"
    by (simp add: unat_invert_l1index 1)
  show "unat (prio AND mask_bits WORD_RADIX) = unat prio mod 64"
    using and_mask_bits [of WORD_RADIX prio] by (simp add: WORD_RADIX_def take_bit_eq_mod unat_mod)
qed

lemma bit_bit_mac: "unat e < 64 \<Longrightarrow> bit (bit_mac e) i \<longleftrightarrow> i = unat e"
  by (auto simp: bit_mac_def bit_push_bit_iff bit_1_iff simp del: push_bit_of_1)

lemma bitmap_ok_set:
  assumes ok: "bitmap_ok l1 l2s P" and p: "p < 256"
    and l1': "\<And>j. bit l1' j \<longleftrightarrow> bit l1 j \<or> j = p div 64"
    and w: "\<And>j. bit w j \<longleftrightarrow> bit (l2s ! (3 - p div 64)) j \<or> j = p mod 64"
  shows "bitmap_ok l1' (l2s[3 - p div 64 := w]) (P(p := True))"
proof -
  have pd: "p div 64 < 4" using p by (simp add: less_mult_imp_div_less)
  have w0: "w \<noteq> 0" using w [of "p mod 64"] by auto
  have eq: "i = p" if "i div 64 = p div 64" "i mod 64 = p mod 64" for i
    using that by (metis (no_types) div_mult_mod_eq)
  have "bit (l2s[3 - p div 64 := w] ! (3 - i div 64)) (i mod 64) = (P(p := True)) i" if "i < 256" for i
  proof (cases "i div 64 = p div 64")
    case True
    then show ?thesis using ok that pd w eq [of i] by (auto simp: bitmap_ok_def)
  next
    case False
    moreover have "i div 64 < 4" using that by (simp add: less_mult_imp_div_less)
    ultimately have "3 - p div 64 \<noteq> 3 - i div 64" using pd by arith
    with False ok that show ?thesis by (auto simp: bitmap_ok_def)
  qed
  moreover have "bit l1' j \<longleftrightarrow> j < 4 \<and> l2s[3 - p div 64 := w] ! (3 - j) \<noteq> 0" for j
    using ok pd w0 l1' [of j] by (cases "j = p div 64"; cases "j < 4") (auto simp: bitmap_ok_def nth_list_update)
  ultimately show ?thesis using ok by (simp add: bitmap_ok_def)
qed

lemma bitmap_ok_clear:
  assumes ok: "bitmap_ok l1 l2s P" and p: "p < 256"
    and w: "\<And>j. bit w j \<longleftrightarrow> bit (l2s ! (3 - p div 64)) j \<and> j \<noteq> p mod 64"
    and l1': "\<And>j. bit l1' j \<longleftrightarrow> bit l1 j \<and> (j = p div 64 \<longrightarrow> w \<noteq> 0)"
    and Pp: "P p"
  shows "bitmap_ok l1' (l2s[3 - p div 64 := w]) (P(p := False))"
proof -
  have pd: "p div 64 < 4" using p by (simp add: less_mult_imp_div_less)
  have eq: "i = p" if "i div 64 = p div 64" "i mod 64 = p mod 64" for i
    using that by (metis (no_types) div_mult_mod_eq)
  have "bit (l2s[3 - p div 64 := w] ! (3 - i div 64)) (i mod 64) = (P(p := False)) i" if "i < 256" for i
  proof (cases "i div 64 = p div 64")
    case True
    then show ?thesis using ok that pd w eq [of i] by (auto simp: bitmap_ok_def)
  next
    case False
    moreover have "i div 64 < 4" using that by (simp add: less_mult_imp_div_less)
    ultimately have "3 - p div 64 \<noteq> 3 - i div 64" using pd by arith
    with False ok that show ?thesis by (auto simp: bitmap_ok_def)
  qed
  moreover have "bit l1' j \<longleftrightarrow> j < 4 \<and> l2s[3 - p div 64 := w] ! (3 - j) \<noteq> 0" for j
  proof (cases "j = p div 64")
    case True
    have "bit (l2s ! (3 - p div 64)) (p mod 64)" using ok p Pp by (simp add: bitmap_ok_def)
    then have "l2s ! (3 - p div 64) \<noteq> 0" by auto
    then have "bit l1 j" using ok pd True by (simp add: bitmap_ok_def)
    then show ?thesis using True l1' [of j] ok pd by (simp add: bitmap_ok_def)
  next
    case False
    then show ?thesis using l1' [of j] ok pd by (cases "j < 4") (auto simp: bitmap_ok_def nth_list_update)
  qed
  ultimately show ?thesis using ok by (simp add: bitmap_ok_def)
qed

lemma add_to_bitmap_ok:
  assumes "bitmaps s P" "unat prio < 256"
  shows "\<exists>l1 l2. add_to_bitmap 0 prio s = Some (s\<lparr>ksReadyQueuesL1Bitmap := l1, ksReadyQueuesL2Bitmap := l2\<rparr>) \<and>
    bitmaps (s\<lparr>ksReadyQueuesL1Bitmap := l1, ksReadyQueuesL2Bitmap := l2\<rparr>) (P(unat prio := True))"
proof -
  obtain l1 l2s where s: "ksReadyQueuesL1Bitmap s = [l1]" "ksReadyQueuesL2Bitmap s = [l2s]"
    and ok: "bitmap_ok l1 l2s P" using assms(1) by (auto simp: bitmaps_def)
  note f = l1_index_facts [OF assms(2)]
  have lt: "3 - unat prio div 64 < length l2s" using ok by (simp add: bitmap_ok_def)
  let ?w = "l2s ! (3 - unat prio div 64) OR bit_mac (prio AND mask_bits WORD_RADIX)"
  let ?l1 = "l1 OR bit_mac (prio_to_l1index prio)" and ?l2 = "l2s[3 - unat prio div 64 := ?w]"
  have "unat prio div 64 < 64" using assms(2) by simp
  then have "bitmap_ok ?l1 ?l2 (P(unat prio := True))"
    using bitmap_ok_set [OF ok assms(2), of ?l1 ?w] f by (simp add: bit_or_iff bit_bit_mac)
  moreover have "add_to_bitmap 0 prio s =
      Some (s\<lparr>ksReadyQueuesL1Bitmap := [?l1], ksReadyQueuesL2Bitmap := [?l2]\<rparr>)"
    using s f lt by (simp add: add_to_bitmap_def index_checked_def update_checked_def Let_def)
  ultimately show ?thesis by (intro exI [of _ "[?l1]"] exI [of _ "[?l2]"]) (simp add: bitmaps_def)
qed

lemma remove_from_bigmap_ok:
  assumes "bitmaps s P" "unat prio < 256" "P (unat prio)"
  shows "\<exists>l1 l2. remove_from_bigmap 0 prio s = Some (s\<lparr>ksReadyQueuesL1Bitmap := l1, ksReadyQueuesL2Bitmap := l2\<rparr>) \<and>
    bitmaps (s\<lparr>ksReadyQueuesL1Bitmap := l1, ksReadyQueuesL2Bitmap := l2\<rparr>) (P(unat prio := False))"
proof -
  obtain l1 l2s where s: "ksReadyQueuesL1Bitmap s = [l1]" "ksReadyQueuesL2Bitmap s = [l2s]"
    and ok: "bitmap_ok l1 l2s P" using assms(1) by (auto simp: bitmaps_def)
  note f = l1_index_facts [OF assms(2)]
  have lt: "3 - unat prio div 64 < length l2s" using ok by (simp add: bitmap_ok_def)
  let ?w = "l2s ! (3 - unat prio div 64) AND NOT (bit_mac (prio AND mask_bits WORD_RADIX))"
  let ?l1 = "if ?w = 0 then l1 AND NOT (bit_mac (prio_to_l1index prio)) else l1"
  let ?l2 = "l2s[3 - unat prio div 64 := ?w]"
  have d: "unat prio div 64 < 64" using assms(2) by simp
  have nb: "bit (x AND NOT y) i \<longleftrightarrow> bit x i \<and> \<not> bit y i" for x y :: word64 and i
    using bit_imp_le_length [of x i] by (auto simp: bit_and_iff bit_not_iff)
  have w: "bit ?w j \<longleftrightarrow> bit (l2s ! (3 - unat prio div 64)) j \<and> j \<noteq> unat prio mod 64" for j
    using f by (simp add: nb bit_bit_mac)
  have l1': "bit ?l1 j \<longleftrightarrow> bit l1 j \<and> (j = unat prio div 64 \<longrightarrow> ?w \<noteq> 0)" for j
    using f d by (auto simp: nb bit_bit_mac)
  have "bitmap_ok ?l1 ?l2 (P(unat prio := False))"
    by (rule bitmap_ok_clear [OF ok assms(2) w l1' assms(3)])
  moreover have "remove_from_bigmap 0 prio s =
      Some (s\<lparr>ksReadyQueuesL1Bitmap := [?l1], ksReadyQueuesL2Bitmap := [?l2]\<rparr>)"
    using s f lt by (simp add: remove_from_bigmap_def index_checked_def update_checked_def Let_def)
  ultimately show ?thesis by (intro exI [of _ "[?l1]"] exI [of _ "[?l2]"]) (simp add: bitmaps_def)
qed

section \<open>The invariant\<close>

text \<open>
  \<open>Q i\<close> is the list of threads of ready queue \<open>i\<close>.  The invariant ties the queue records, the links
  in the threads, the \<^verbatim>\<open>tcbQueued\<close> flags and the bitmaps to it.
\<close>

definition queued :: "kstate \<Rightarrow> ptr \<Rightarrow> bool" where
  "queued s t = tcbQueued (tcbState (tcb_at s t))"

definition prio :: "kstate \<Rightarrow> ptr \<Rightarrow> nat" where
  "prio s t = unat (tcbPriority (tcb_at s t))"

definition in_range :: "kstate \<Rightarrow> ptr \<Rightarrow> bool" where
  "in_range s t \<longleftrightarrow> tcbDomain (tcb_at s t) = 0 \<and> prio s t < 256"

definition sched_inv :: "kstate \<Rightarrow> (nat \<Rightarrow> ptr list) \<Rightarrow> bool" where
  "sched_inv s Q \<longleftrightarrow> bitmaps s (\<lambda>i. Q i \<noteq> []) \<and> length (ksReadyQueues s) = 256 \<and>
     (\<forall>i < 256. sched_queue s (ksReadyQueues s ! i) (Q i)) \<and>
     (\<forall>t. \<forall>i < 256. t \<in> set (Q i) \<longleftrightarrow> queued s t \<and> prio s t = i) \<and>
     (\<forall>t. queued s t \<longrightarrow> in_range s t) \<and> (\<forall>t. \<not> queued s t \<longrightarrow> unlinked s t)"

lemma sched_invD:
  assumes "sched_inv s Q"
  shows "bitmaps s (\<lambda>i. Q i \<noteq> [])" "length (ksReadyQueues s) = 256"
    "i < 256 \<Longrightarrow> sched_queue s (ksReadyQueues s ! i) (Q i)"
    "i < 256 \<Longrightarrow> t \<in> set (Q i) \<longleftrightarrow> queued s t \<and> prio s t = i"
    "queued s t \<Longrightarrow> in_range s t" "\<not> queued s t \<Longrightarrow> unlinked s t"
  using assms by (simp_all add: sched_inv_def)

text \<open>What the queue operations leave alone.\<close>

definition no_sched :: "tcb_t \<Rightarrow> tcb_t" where
  "no_sched t = t\<lparr>tcbSchedNext := 0, tcbSchedPrev := 0, tcbState := (tcbState t)\<lparr>tcbQueued := False\<rparr>\<rparr>"

definition set_sched :: "kstate \<Rightarrow> kstate \<Rightarrow> kstate" where
  "set_sched u s = s\<lparr>ks_tcbs := ks_tcbs u, ksReadyQueues := ksReadyQueues u,
     ksReadyQueuesL1Bitmap := ksReadyQueuesL1Bitmap u, ksReadyQueuesL2Bitmap := ksReadyQueuesL2Bitmap u\<rparr>"

definition sched_frame :: "kstate \<Rightarrow> kstate \<Rightarrow> bool" where
  "sched_frame s s' \<longleftrightarrow> s' = set_sched s' s \<and>
     (\<forall>p. no_sched (tcb_at s' p) = no_sched (tcb_at s p))"

lemma no_sched_fields:
  assumes "no_sched t = no_sched u"
  shows "tcbPriority t = tcbPriority u" "tcbDomain t = tcbDomain u" "tcbArch t = tcbArch u"
    "tsType (tcbState t) = tsType (tcbState u)" "tcbEPNext t = tcbEPNext u" "tcbEPPrev t = tcbEPPrev u"
    "tcbFault t = tcbFault u" "tcbTimeSlice t = tcbTimeSlice u" "tcbMCP t = tcbMCP u"
    "tcbBoundNotification t = tcbBoundNotification u" "tcbIPCBuffer t = tcbIPCBuffer u"
    "blockingObject (tcbState t) = blockingObject (tcbState u)"
proof -
  show "tcbPriority t = tcbPriority u" "tcbDomain t = tcbDomain u" "tcbArch t = tcbArch u"
    "tcbEPNext t = tcbEPNext u" "tcbEPPrev t = tcbEPPrev u"
    "tcbFault t = tcbFault u" "tcbTimeSlice t = tcbTimeSlice u" "tcbMCP t = tcbMCP u"
    "tcbBoundNotification t = tcbBoundNotification u" "tcbIPCBuffer t = tcbIPCBuffer u"
    using arg_cong [OF assms, of tcbPriority] arg_cong [OF assms, of tcbDomain]
      arg_cong [OF assms, of tcbArch] arg_cong [OF assms, of tcbEPNext] arg_cong [OF assms, of tcbEPPrev]
      arg_cong [OF assms, of tcbFault] arg_cong [OF assms, of tcbTimeSlice] arg_cong [OF assms, of tcbMCP]
      arg_cong [OF assms, of tcbBoundNotification] arg_cong [OF assms, of tcbIPCBuffer]
    by (simp_all add: no_sched_def)
  show "tsType (tcbState t) = tsType (tcbState u)"
    "blockingObject (tcbState t) = blockingObject (tcbState u)"
    using arg_cong [OF assms, of "\<lambda>t. tsType (tcbState t)"]
      arg_cong [OF assms, of "\<lambda>t. blockingObject (tcbState t)"] by (simp_all add: no_sched_def)
qed

lemma sched_frame_refl [simp]: "sched_frame s s"
  by (simp add: sched_frame_def set_sched_def)

lemma sched_frame_trans: "sched_frame s s' \<Longrightarrow> sched_frame s' s'' \<Longrightarrow> sched_frame s s''"
proof -
  assume 1: "sched_frame s s'" and 2: "sched_frame s' s''"
  have "s'' = set_sched s'' s'" using 2 by (simp add: sched_frame_def)
  also have "\<dots> = set_sched s'' (set_sched s' s)" using 1 by (simp add: sched_frame_def)
  also have "\<dots> = set_sched s'' s" by (simp add: set_sched_def)
  finally show ?thesis using 1 2 by (simp add: sched_frame_def)
qed

lemma sched_frame_fields:
  assumes "sched_frame s s'"
  shows "prio s' t = prio s t" "in_range s' t = in_range s t" "get_state s' t = get_state s t"
    "tcbPriority (tcb_at s' t) = tcbPriority (tcb_at s t)"
    "tcbDomain (tcb_at s' t) = tcbDomain (tcb_at s t)"
    "tcbArch (tcb_at s' t) = tcbArch (tcb_at s t)"
    "is_schedulable s' t = is_schedulable s t"
    "tcbTimeSlice (tcb_at s' t) = tcbTimeSlice (tcb_at s t)"
  using assms no_sched_fields [of "tcb_at s' t" "tcb_at s t"]
  by (simp_all add: sched_frame_def prio_def in_range_def get_state_def is_schedulable_def is_runnable_def)

lemma sched_frame_globals:
  assumes "sched_frame s s'"
  shows "ksCurThread s' = ksCurThread s" "ksIdleThread s' = ksIdleThread s"
    "ksSchedulerAction s' = ksSchedulerAction s" "ksDomainTime s' = ksDomainTime s"
    "ksCurDomain s' = ksCurDomain s" "ks_ctes s' = ks_ctes s" "vspace_wf s' = vspace_wf s"
    "ksDomScheduleIdx s' = ksDomScheduleIdx s"
proof -
  have eq: "s' = set_sched s' s" using assms by (simp add: sched_frame_def)
  show "ksCurThread s' = ksCurThread s" "ksIdleThread s' = ksIdleThread s"
    "ksSchedulerAction s' = ksSchedulerAction s" "ksDomainTime s' = ksDomainTime s"
    "ksCurDomain s' = ksCurDomain s" "ks_ctes s' = ks_ctes s" "vspace_wf s' = vspace_wf s"
    "ksDomScheduleIdx s' = ksDomScheduleIdx s"
    by (subst eq, simp add: set_sched_def vspace_wf_def)+
qed

lemma tcb_frame_queues:
  assumes "tcb_frame k A s s'"
  shows "ksReadyQueues s' = ksReadyQueues s"
proof -
  have "s' = s\<lparr>ks_tcbs := ks_tcbs s'\<rparr>" using assms by (simp add: tcb_frame_def)
  then show ?thesis by (metis kstate.select_convs(8) kstate.surjective kstate.update_convs(2))
qed

lemma sched_queue_cong:
  "(\<And>x. x \<in> set xs \<Longrightarrow> tcb_at s' x = tcb_at s x) \<Longrightarrow> sched_queue s' q xs = sched_queue s q xs"
  using dll_cong [of xs "sc_nx s'" "sc_nx s" "sc_pv s'" "sc_pv s"]
  by (simp add: sched_queue_def queue_rep_def sc_nx_def sc_pv_def)

text \<open>
  One queue changes: thread \<open>t\<close> enters (\<open>b\<close>) or leaves queue \<open>prio s t\<close>, whose threads alone have
  their links changed.
\<close>

lemma sched_inv_change:
  assumes inv: "sched_inv s Q" and t: "in_range s t"
    and frame: "\<And>x. no_sched (tcb_at s' x) = no_sched (tcb_at s x)"
    and flag: "\<And>x. queued s' x = (if x = t then b else queued s x)"
    and local: "\<And>x. x \<notin> insert t (set (Q (prio s t))) \<Longrightarrow> tcb_at s' x = tcb_at s x"
    and bm: "bitmaps s' (\<lambda>i. (Q(prio s t := xs)) i \<noteq> [])"
    and qs: "ksReadyQueues s' = (ksReadyQueues s)[prio s t := q]"
    and rep: "sched_queue s' q xs"
    and set: "set xs = (if b then insert t (set (Q (prio s t))) else set (Q (prio s t)) - {t})"
    and unl: "\<not> b \<Longrightarrow> unlinked s' t"
  shows "sched_inv s' (Q(prio s t := xs))"
proof -
  note D = sched_invD [OF inv]
  have p: "prio s t < 256" using t by (simp add: in_range_def)
  have fields: "prio s' x = prio s x" "in_range s' x = in_range s x" for x
    using no_sched_fields [OF frame [of x]] by (simp_all add: prio_def in_range_def)
  have "sched_queue s' (ksReadyQueues s' ! i) ((Q(prio s t := xs)) i)" if i: "i < 256" for i
  proof (cases "i = prio s t")
    case True
    then show ?thesis using rep qs p D(2) by simp
  next
    case False
    have "sched_queue s' (ksReadyQueues s ! i) (Q i) = sched_queue s (ksReadyQueues s ! i) (Q i)"
      by (rule sched_queue_cong, rule local) (use D(4) [OF i] D(4) [OF p] False in auto)
    then show ?thesis using False qs D(3) [OF i] by simp
  qed
  moreover have "x \<in> set ((Q(prio s t := xs)) i) \<longleftrightarrow> queued s' x \<and> prio s' x = i" if "i < 256" for x i
    using set D(4) [OF that, of x] D(4) [OF p, of x] by (auto simp: flag fields)
  moreover have "in_range s' x" if "queued s' x" for x
    using that t D(5) [of x] by (simp add: flag fields split: if_splits)
  moreover have "unlinked s' x" if "\<not> queued s' x" for x
  proof (cases "x = t")
    case False
    then have "\<not> queued s x" using that flag by simp
    moreover from this have "tcb_at s' x = tcb_at s x" using False D(4) [OF p, of x] local by simp
    ultimately show ?thesis using D(6) [of x] by (simp add: unlinked_def sc_nx_def sc_pv_def)
  qed (use that flag unl in simp)
  ultimately show ?thesis using bm qs D(2) by (simp add: sched_inv_def)
qed

lemma prio_index:
  assumes "sched_inv s Q" "in_range s t"
  shows "unat (ready_queues_index (tcbDomain (tcb_at s t)) (tcbPriority (tcb_at s t))) = prio s t"
    "index_checked (ksReadyQueues s) (ready_queues_index (tcbDomain (tcb_at s t)) (tcbPriority (tcb_at s t)))
       = Some (ksReadyQueues s ! prio s t)"
  using assms sched_invD(2) [OF assms(1)]
  by (simp_all add: ready_queues_index_def in_range_def prio_def index_checked_def)

text \<open>The tail of all three operations: write the queue record back and set the flag.\<close>

lemma finish_queue_op:
  assumes inv: "sched_inv s Q" and t: "in_range s t"
    and s1: "s1 = s\<lparr>ksReadyQueuesL1Bitmap := l1, ksReadyQueuesL2Bitmap := l2\<rparr>"
    and fr: "tcb_frame no_sc_links (insert t (set (Q (prio s t)))) s1 s2"
    and s3: "s3 = set_tcbQueued t b (s2\<lparr>ksReadyQueues := (ksReadyQueues s2)[prio s t := q]\<rparr>)"
    and bm: "bitmaps s1 (\<lambda>i. (Q(prio s t := xs)) i \<noteq> [])"
    and rep: "sched_queue s2 q xs"
    and set: "set xs = (if b then insert t (set (Q (prio s t))) else set (Q (prio s t)) - {t})"
    and unl: "\<not> b \<Longrightarrow> unlinked s2 t"
  shows "sched_inv s3 (Q(prio s t := xs))" "sched_frame s s3"
proof -
  have s2: "s2 = s1\<lparr>ks_tcbs := ks_tcbs s2\<rparr>"
    and keep: "no_sc_links (tcb_at s2 x) = no_sc_links (tcb_at s1 x)"
    and out: "x \<notin> insert t (set (Q (prio s t))) \<Longrightarrow> tcb_at s2 x = tcb_at s1 x" for x
    using fr by (auto simp: tcb_frame_def)
  have eq: "s3 = set_tcbQueued t b (s\<lparr>ksReadyQueuesL1Bitmap := l1, ksReadyQueuesL2Bitmap := l2,
      ks_tcbs := ks_tcbs s2, ksReadyQueues := (ksReadyQueues s)[prio s t := q]\<rparr>)"
    unfolding s3 by (subst s2, subst (2) s2) (simp add: s1)
  have ns: "no_sched (no_sc_links v) = no_sched v" for v by (simp add: no_sched_def no_sc_links_def)
  have ns2: "no_sched (tcbState_update (\<lambda>st. st\<lparr>tcbQueued := b\<rparr>) v) = no_sched v" for v
    by (simp add: no_sched_def)
  have tcb3: "tcb_at s3 x = (if x = t then tcbState_update (\<lambda>st. st\<lparr>tcbQueued := b\<rparr>) (tcb_at s2 t) else tcb_at s2 x)" for x
    by (simp add: eq set_tcbQueued_def)
  have frame: "no_sched (tcb_at s3 x) = no_sched (tcb_at s x)" for x
    using arg_cong [OF keep [of x], of no_sched] by (cases "x = t") (simp_all add: tcb3 ns ns2 s1)
  have q2: "queued s2 x = queued s x" for x
    using arg_cong [OF keep [of x], of "\<lambda>t. tcbQueued (tcbState t)"]
    by (simp add: queued_def no_sc_links_def s1)
  show "sched_frame s s3"
    using frame by (simp add: sched_frame_def eq set_sched_def set_tcbQueued_def upd_tcb_def)
  have "sc_nx s3 = sc_nx s2" "sc_pv s3 = sc_pv s2" by (auto simp: sc_nx_def sc_pv_def tcb3)
  then have sq: "sched_queue s3 q' ys = sched_queue s2 q' ys" for q' ys
    by (simp add: sched_queue_def)
  show "sched_inv s3 (Q(prio s t := xs))"
  proof (rule sched_inv_change [OF inv t frame, where q = q and b = b])
    show "queued s3 x = (if x = t then b else queued s x)" for x
      using q2 [of x] by (simp add: queued_def tcb3)
    show "tcb_at s3 x = tcb_at s x" if "x \<notin> insert t (set (Q (prio s t)))" for x
      using out [OF that] that by (simp add: tcb3 s1)
    show "bitmaps s3 (\<lambda>i. (Q(prio s t := xs)) i \<noteq> [])"
      using bm by (simp add: bitmaps_def eq s1 set_tcbQueued_def)
    show "sched_queue s3 q xs" using rep sq by simp
    show "\<not> b \<Longrightarrow> unlinked s3 t" using unl by (simp add: unlinked_def sc_nx_def sc_pv_def tcb3)
  qed (use set eq in \<open>simp_all add: set_tcbQueued_def\<close>)
qed

section \<open>The queue operations keep the invariant\<close>

lemma not_in_own_queue: "sched_inv s Q \<Longrightarrow> in_range s t \<Longrightarrow> \<not> queued s t \<Longrightarrow> t \<notin> set (Q (prio s t))"
  using sched_invD(4) [of s Q "prio s t" t] by (simp add: in_range_def)

lemma sched_queue_bitmaps [simp]:
  "sched_queue (s\<lparr>ksReadyQueuesL1Bitmap := l1, ksReadyQueuesL2Bitmap := l2\<rparr>) q xs = sched_queue s q xs"
  "unlinked (s\<lparr>ksReadyQueuesL1Bitmap := l1, ksReadyQueuesL2Bitmap := l2\<rparr>) t = unlinked s t"
  by (simp_all add: sched_queue_def sc_nx_def [abs_def] sc_pv_def [abs_def] unlinked_def)

lemma maybe_add_to_bitmap:
  assumes inv: "sched_inv s Q" and t: "in_range s t"
  obtains l1 l2 where
    "(if Q (prio s t) = [] then add_to_bitmap 0 (tcbPriority (tcb_at s t)) s else Some s) =
       Some (s\<lparr>ksReadyQueuesL1Bitmap := l1, ksReadyQueuesL2Bitmap := l2\<rparr>)"
    "\<And>xs. xs \<noteq> [] \<Longrightarrow>
       bitmaps (s\<lparr>ksReadyQueuesL1Bitmap := l1, ksReadyQueuesL2Bitmap := l2\<rparr>) (\<lambda>i. (Q(prio s t := xs)) i \<noteq> [])"
proof (cases "Q (prio s t) = []")
  case True
  have p: "unat (tcbPriority (tcb_at s t)) < 256" using t by (simp add: in_range_def prio_def)
  have "(\<lambda>i. (Q(prio s t := xs)) i \<noteq> []) = (\<lambda>i. Q i \<noteq> [])(unat (tcbPriority (tcb_at s t)) := True)"
    if "xs \<noteq> []" for xs using that by (auto simp: prio_def)
  with add_to_bitmap_ok [OF sched_invD(1) [OF inv] p] that True show ?thesis by auto
next
  case False
  then have "(\<lambda>i. (Q(prio s t := xs)) i \<noteq> []) = (\<lambda>i. Q i \<noteq> [])" if "xs \<noteq> []" for xs
    using that by auto
  with False sched_invD(1) [OF inv] that [of "ksReadyQueuesL2Bitmap s" "ksReadyQueuesL1Bitmap s"]
  show ?thesis by simp
qed

lemma set_ready_queue_Some:
  "unat i < length (ksReadyQueues s) \<Longrightarrow>
   set_ready_queue i q s = Some (s\<lparr>ksReadyQueues := (ksReadyQueues s)[unat i := q]\<rparr>)"
  by (simp add: set_ready_queue_def)

lemma sched_enqueue_inv:
  assumes inv: "sched_inv s Q" and t: "in_range s t" "\<not> queued s t" "t \<noteq> 0"
  shows "\<exists>s'. sched_enqueue t s = Some s' \<and> sched_inv s' (Q(prio s t := t # Q (prio s t))) \<and> sched_frame s s'"
proof -
  note idx = prio_index [OF inv t(1)] and p = t(1) [unfolded in_range_def, THEN conjunct2]
  let ?q = "ksReadyQueues s ! prio s t"
  obtain l1 l2 where bm: "(if Q (prio s t) = [] then add_to_bitmap 0 (tcbPriority (tcb_at s t)) s else Some s) =
       Some (s\<lparr>ksReadyQueuesL1Bitmap := l1, ksReadyQueuesL2Bitmap := l2\<rparr>)"
    "\<And>xs. xs \<noteq> [] \<Longrightarrow> bitmaps (s\<lparr>ksReadyQueuesL1Bitmap := l1, ksReadyQueuesL2Bitmap := l2\<rparr>)
       (\<lambda>i. (Q(prio s t := xs)) i \<noteq> [])"
    using maybe_add_to_bitmap [OF inv t(1)] by blast
  let ?s1 = "s\<lparr>ksReadyQueuesL1Bitmap := l1, ksReadyQueuesL2Bitmap := l2\<rparr>"
  have rep: "sched_queue ?s1 ?q (Q (prio s t))" using sched_invD(3) [OF inv p] by simp
  obtain q s2 where s2: "queue_prepend ?q t ?s1 = Some (q, s2)" "sched_queue s2 q (t # Q (prio s t))"
    "tcb_frame no_sc_links (insert t (set (Q (prio s t)))) ?s1 s2"
    using queue_prepend_rep [OF rep not_in_own_queue [OF inv t(1,2)] t(3)] sched_invD(6) [OF inv t(2)] by auto
  let ?s3 = "set_tcbQueued t True (s2\<lparr>ksReadyQueues := (ksReadyQueues s2)[prio s t := q]\<rparr>)"
  have empty: "queue_empty ?q \<longleftrightarrow> Q (prio s t) = []"
    using queue_rep_ends(1) [OF rep [unfolded sched_queue_def]] by (simp add: queue_empty_def)
  have len: "ksReadyQueues s2 = ksReadyQueues s"
    using tcb_frame_queues [OF s2(3)] by simp
  have "sched_enqueue t s = Some ?s3"
    using t(1,2) idx bm(1) s2(1) empty len p sched_invD(2) [OF inv]
    by (simp add: sched_enqueue_def queued_def in_range_def Let_def set_ready_queue_Some)
  moreover have "sched_inv ?s3 (Q(prio s t := t # Q (prio s t)))" "sched_frame s ?s3"
    using finish_queue_op [where b = True, OF inv t(1) refl s2(3) refl bm(2) s2(2)] by simp_all
  ultimately show ?thesis by blast
qed

lemma sched_append_prepared:
  assumes "sched_queue s q xs" "x \<notin> set xs" "x \<noteq> 0"
  shows "\<exists>s'. s' = set_tcbSchedNext x 0 (set_tcbSchedPrev x (last_of 0 xs)
      (if xs = [] then s else set_tcbSchedNext (last_of 0 xs) x s)) \<and>
    sched_queue s' \<lparr> q_head = first_of (xs @ [x]) 0, q_tail = x \<rparr> (xs @ [x]) \<and>
    tcb_frame no_sc_links (insert x (set xs)) s s'"
proof -
  let ?h1 = "if xs = [] then s else set_tcbSchedNext (last_of 0 xs) x s"
  let ?h2 = "set_tcbSchedNext x 0 (set_tcbSchedPrev x (last_of 0 xs) ?h1)"
  have "dll (sc_nx ?h2) (sc_pv ?h2) (xs @ [x])"
    by (rule sc_links.push_back [OF _ assms(2,3) refl])
      (use assms(1) in \<open>simp_all add: sched_queue_def queue_rep_def sc_links.link_laws\<close>)
  moreover have "tcb_frame no_sc_links (insert x (set xs)) s ?h2"
    by (cases "xs = []") (simp_all add: last_of_nonempty)
  ultimately show ?thesis by (auto simp: sched_queue_def queue_rep_def)
qed

lemma queue_record:
  "q\<lparr>q_head := a, q_tail := b\<rparr> = \<lparr> q_head = a, q_tail = b \<rparr>"
  "q\<lparr>q_tail := b\<rparr> = \<lparr> q_head = q_head q, q_tail = b \<rparr>"
  by (cases q; simp)+

lemma sched_append_inv:
  assumes inv: "sched_inv s Q" and t: "in_range s t" "\<not> queued s t" "t \<noteq> 0"
  shows "\<exists>s'. sched_append t s = Some s' \<and> sched_inv s' (Q(prio s t := Q (prio s t) @ [t])) \<and> sched_frame s s'"
proof -
  note idx = prio_index [OF inv t(1)] and p = t(1) [unfolded in_range_def, THEN conjunct2]
  let ?q = "ksReadyQueues s ! prio s t" and ?xs = "Q (prio s t)"
  obtain l1 l2 where bm: "(if Q (prio s t) = [] then add_to_bitmap 0 (tcbPriority (tcb_at s t)) s else Some s) =
       Some (s\<lparr>ksReadyQueuesL1Bitmap := l1, ksReadyQueuesL2Bitmap := l2\<rparr>)"
    "\<And>xs. xs \<noteq> [] \<Longrightarrow> bitmaps (s\<lparr>ksReadyQueuesL1Bitmap := l1, ksReadyQueuesL2Bitmap := l2\<rparr>)
       (\<lambda>i. (Q(prio s t := xs)) i \<noteq> [])"
    using maybe_add_to_bitmap [OF inv t(1)] by blast
  let ?s1 = "s\<lparr>ksReadyQueuesL1Bitmap := l1, ksReadyQueuesL2Bitmap := l2\<rparr>"
  have rep: "sched_queue ?s1 ?q ?xs" using sched_invD(3) [OF inv p] by simp
  note ends = queue_rep_ends [OF rep [unfolded sched_queue_def]]
  have ht: "q_head ?q = first_of ?xs 0" "q_tail ?q = last_of 0 ?xs"
    using rep by (simp_all add: sched_queue_def queue_rep_def)
  obtain s2 where s2: "s2 = set_tcbSchedNext t 0 (set_tcbSchedPrev t (last_of 0 ?xs)
      (if ?xs = [] then ?s1 else set_tcbSchedNext (last_of 0 ?xs) t ?s1))"
    "sched_queue s2 \<lparr> q_head = first_of (?xs @ [t]) 0, q_tail = t \<rparr> (?xs @ [t])"
    "tcb_frame no_sc_links (insert t (set ?xs)) ?s1 s2"
    using sched_append_prepared [OF rep not_in_own_queue [OF inv t(1,2)] t(3)] by blast
  let ?q2 = "\<lparr> q_head = first_of (?xs @ [t]) 0, q_tail = t \<rparr>"
  let ?s3 = "set_tcbQueued t True (s2\<lparr>ksReadyQueues := (ksReadyQueues s2)[prio s t := ?q2]\<rparr>)"
  have len: "ksReadyQueues s2 = ksReadyQueues s" using tcb_frame_queues [OF s2(3)] by simp
  have rq: "unat (ready_queues_index 0 (tcbPriority (tcb_at s t))) = prio s t"
      "index_checked (ksReadyQueues s) (ready_queues_index 0 (tcbPriority (tcb_at s t))) = Some ?q"
    using idx t(1) by (simp_all add: in_range_def)
  have "sched_append t s = Some ?s3"
  proof (cases "?xs = []")
    case True
    then have e: "q_head ?q = 0" "q_tail ?q = 0" using ends by simp_all
    have b: "add_to_bitmap 0 (tcbPriority (tcb_at s t)) s = Some ?s1" using bm(1) True by simp
    have s2': "s2 = set_tcbSchedNext t 0 (set_tcbSchedPrev t 0 ?s1)" using s2(1) True by simp
    have q2: "?q2 = ?q\<lparr>q_head := t, q_tail := t\<rparr>" by (simp add: True queue_record)
    show ?thesis unfolding q2
      using t(1,2) rq e b len p sched_invD(2) [OF inv] s2'
      by (simp add: sched_append_def queued_def in_range_def Let_def set_ready_queue_Some)
  next
    case False
    then have e: "q_head ?q \<noteq> 0" "q_tail ?q \<noteq> 0" using ends by simp_all
    have s1: "?s1 = s" using bm(1) False by simp
    have s2': "s2 = set_tcbSchedNext t 0 (set_tcbSchedPrev t (q_tail ?q) (set_tcbSchedNext (q_tail ?q) t s))"
      using s2(1) False unfolding s1 ht(2) by simp
    have q2: "?q2 = ?q\<lparr>q_tail := t\<rparr>" using False ht by (simp add: queue_record first_of_nonempty)
    show ?thesis unfolding q2
      using t(1,2) rq e len p sched_invD(2) [OF inv] s2'
      by (simp add: sched_append_def queued_def in_range_def Let_def set_ready_queue_Some)
  qed
  moreover have "sched_inv ?s3 (Q(prio s t := ?xs @ [t]))" "sched_frame s ?s3"
    using finish_queue_op [where b = True, OF inv t(1) refl s2(3) refl bm(2) s2(2)] by simp_all
  ultimately show ?thesis by blast
qed

abbreviation set_bitmaps :: "word64 list \<Rightarrow> word64 list list \<Rightarrow> kstate \<Rightarrow> kstate" where
  "set_bitmaps l1 l2 s \<equiv> s\<lparr>ksReadyQueuesL1Bitmap := l1, ksReadyQueuesL2Bitmap := l2\<rparr>"

lemma tcb_frame_bitmaps:
  assumes "tcb_frame k A s s'"
  shows "tcb_frame k A (set_bitmaps l1 l2 s) (set_bitmaps l1 l2 s')"
    "ksReadyQueuesL1Bitmap s' = ksReadyQueuesL1Bitmap s"
    "ksReadyQueuesL2Bitmap s' = ksReadyQueuesL2Bitmap s"
proof -
  have eq: "s' = s\<lparr>ks_tcbs := ks_tcbs s'\<rparr>" using assms by (simp add: tcb_frame_def)
  show "ksReadyQueuesL1Bitmap s' = ksReadyQueuesL1Bitmap s" by (subst eq) simp
  show "ksReadyQueuesL2Bitmap s' = ksReadyQueuesL2Bitmap s" by (subst eq) simp
  have "set_bitmaps l1 l2 s' = (set_bitmaps l1 l2 s)\<lparr>ks_tcbs := ks_tcbs s'\<rparr>" by (subst eq) simp
  then show "tcb_frame k A (set_bitmaps l1 l2 s) (set_bitmaps l1 l2 s')"
    using assms by (simp add: tcb_frame_def)
qed

lemma sched_dequeue_run:
  assumes inv: "sched_inv s Q" and t: "queued s t"
  obtains as bs q s2 where "Q (prio s t) = as @ t # bs" "t \<notin> set as \<union> set bs"
    "sched_queue s2 q (as @ bs)" "unlinked s2 t"
    "tcb_frame no_sc_links (insert t (set (Q (prio s t)))) s s2"
    "sched_dequeue t s = (let s3 = set_tcbQueued t False (s2\<lparr>ksReadyQueues := (ksReadyQueues s2)[prio s t := q]\<rparr>)
       in if as @ bs = [] then remove_from_bigmap 0 (tcbPriority (tcb_at s t)) s3 else Some s3)"
proof -
  have r: "in_range s t" using sched_invD(5) [OF inv t] .
  note idx = prio_index [OF inv r] and p = r [unfolded in_range_def, THEN conjunct2]
  let ?q = "ksReadyQueues s ! prio s t"
  have "t \<in> set (Q (prio s t))" using sched_invD(4) [OF inv p, of t] t by simp
  then obtain as bs where Q: "Q (prio s t) = as @ t # bs" by (meson split_list)
  have rep: "sched_queue s ?q (as @ t # bs)" using sched_invD(3) [OF inv p] Q by simp
  then have "distinct (as @ t # bs)" unfolding sched_queue_def queue_rep_def by (blast dest: dll_distinct)
  then have dist: "t \<notin> set as \<union> set bs" by simp
  obtain q s2 where s2: "queue_remove ?q t s = Some (q, s2)" "sched_queue s2 q (as @ bs)" "unlinked s2 t"
    "tcb_frame no_sc_links (set (as @ t # bs)) s s2"
    using queue_remove_rep [OF rep] by blast
  have empty: "q_head q = 0 \<longleftrightarrow> as @ bs = []"
    using queue_rep_ends(1) [OF s2(2) [unfolded sched_queue_def]] .
  have fr: "tcb_frame no_sc_links (insert t (set (Q (prio s t)))) s s2"
    by (rule tcb_frame_mono [OF s2(4)]) (auto simp: Q)
  have "sched_dequeue t s = (let s3 = set_tcbQueued t False (s2\<lparr>ksReadyQueues := (ksReadyQueues s2)[prio s t := q]\<rparr>)
       in if as @ bs = [] then remove_from_bigmap 0 (tcbPriority (tcb_at s t)) s3 else Some s3)"
    using r t idx s2(1) empty tcb_frame_queues [OF s2(4)] p sched_invD(2) [OF inv]
    by (simp add: sched_dequeue_def queued_def in_range_def Let_def set_ready_queue_Some)
  with that Q dist s2(2,3) fr show ?thesis by blast
qed

lemma sched_dequeue_inv:
  assumes inv: "sched_inv s Q" and t: "queued s t"
  shows "\<exists>s' as bs. Q (prio s t) = as @ t # bs \<and> sched_dequeue t s = Some s' \<and>
    sched_inv s' (Q(prio s t := as @ bs)) \<and> sched_frame s s'"
proof -
  have r: "in_range s t" using sched_invD(5) [OF inv t] .
  let ?pr = "tcbPriority (tcb_at s t)"
  obtain as bs q s2 where Q: "Q (prio s t) = as @ t # bs" and dist: "t \<notin> set as \<union> set bs"
    and s2: "sched_queue s2 q (as @ bs)" "unlinked s2 t"
    "tcb_frame no_sc_links (insert t (set (Q (prio s t)))) s s2"
    and run: "sched_dequeue t s = (let s3 = set_tcbQueued t False (s2\<lparr>ksReadyQueues := (ksReadyQueues s2)[prio s t := q]\<rparr>)
       in if as @ bs = [] then remove_from_bigmap 0 ?pr s3 else Some s3)"
    by (rule sched_dequeue_run [OF inv t])
  define s3 where "s3 = set_tcbQueued t False (s2\<lparr>ksReadyQueues := (ksReadyQueues s2)[prio s t := q]\<rparr>)"
  define Q' where "Q' = Q(prio s t := as @ bs)"
  have bm3: "bitmaps s3 P = bitmaps s P" for P
    using tcb_frame_bitmaps(2,3) [OF s2(3)] by (simp add: bitmaps_def set_tcbQueued_def s3_def)
  have pr: "unat ?pr < 256" "unat ?pr = prio s t" using r by (simp_all add: prio_def in_range_def)
  have "\<exists>l1 l2. sched_dequeue t s = Some (set_bitmaps l1 l2 s3) \<and>
    bitmaps (set_bitmaps l1 l2 s3) (\<lambda>i. Q' i \<noteq> [])"
  proof (cases "as @ bs = []")
    case True
    then have "(\<lambda>i. Q' i \<noteq> []) = (\<lambda>i. Q i \<noteq> [])(unat ?pr := False)"
      unfolding Q'_def pr(2) by (simp add: fun_eq_iff)
    moreover have "bitmaps s3 (\<lambda>i. Q i \<noteq> [])" "Q (unat ?pr) \<noteq> []"
      using bm3 sched_invD(1) [OF inv] Q pr(2) by simp_all
    ultimately show ?thesis
      using remove_from_bigmap_ok [of s3 "\<lambda>i. Q i \<noteq> []" ?pr] pr(1) True run by (simp add: s3_def Let_def)
  next
    case False
    then have "(\<lambda>i. Q' i \<noteq> []) = (\<lambda>i. Q i \<noteq> [])" using Q by (simp add: Q'_def fun_eq_iff)
    moreover have "sched_dequeue t s = Some s3" unfolding run Let_def if_not_P [OF False] s3_def ..
    ultimately show ?thesis using bm3 sched_invD(1) [OF inv]
      by (intro exI [of _ "ksReadyQueuesL1Bitmap s3"] exI [of _ "ksReadyQueuesL2Bitmap s3"]) simp
  qed
  then obtain l1 l2 where bm: "sched_dequeue t s = Some (set_bitmaps l1 l2 s3)"
    "bitmaps (set_bitmaps l1 l2 s3) (\<lambda>i. Q' i \<noteq> [])" by blast
  have s4: "set_bitmaps l1 l2 s3 = set_tcbQueued t False ((set_bitmaps l1 l2 s2)\<lparr>ksReadyQueues :=
      (ksReadyQueues (set_bitmaps l1 l2 s2))[prio s t := q]\<rparr>)"
    by (simp add: s3_def set_tcbQueued_def upd_tcb_def)
  have bm1: "bitmaps (set_bitmaps l1 l2 s) (\<lambda>i. (Q(prio s t := as @ bs)) i \<noteq> [])"
    using bm(2) by (simp add: bitmaps_def Q'_def)
  have set': "set (as @ bs) = set (Q (prio s t)) - {t}" using Q dist by auto
  have "sched_inv (set_bitmaps l1 l2 s3) (Q(prio s t := as @ bs))" "sched_frame s (set_bitmaps l1 l2 s3)"
    using finish_queue_op [OF inv r refl tcb_frame_bitmaps(1) [OF s2(3)] s4 bm1] s2(1,2) set' by simp_all
  with Q bm(1) show ?thesis by blast
qed

section \<open>Choosing\<close>

lemma sched_inv_cong:
  assumes "ks_tcbs s' = ks_tcbs s" "ksReadyQueues s' = ksReadyQueues s"
    "ksReadyQueuesL1Bitmap s' = ksReadyQueuesL1Bitmap s" "ksReadyQueuesL2Bitmap s' = ksReadyQueuesL2Bitmap s"
  shows "sched_inv s' Q = sched_inv s Q"
  using assms
  by (simp add: sched_inv_def bitmaps_def sched_queue_def sc_nx_def [abs_def] sc_pv_def [abs_def]
      queued_def prio_def in_range_def unlinked_def)

lemma sched_inv_globals [simp]:
  "sched_inv (s\<lparr>ttbr0_el1 := v\<rparr>) Q = sched_inv s Q"
  "sched_inv (s\<lparr>ksCurThread := v\<rparr>) Q = sched_inv s Q"
  "sched_inv (s\<lparr>ksSchedulerAction := v\<rparr>) Q = sched_inv s Q"
  "sched_inv (s\<lparr>ksDomScheduleIdx := i, ksWorkUnitsCompleted := n, ksCurDomain := v, ksDomainTime := w\<rparr>) Q
     = sched_inv s Q"
  by (rule sched_inv_cong; simp)+

definition ready_runnable :: "kstate \<Rightarrow> bool" where
  "ready_runnable s \<longleftrightarrow> (\<forall>t. queued s t \<longrightarrow> is_schedulable s t)"

lemma thread_globals [simp]:
  "queued (s\<lparr>ttbr0_el1 := v\<rparr>) = queued s" "prio (s\<lparr>ttbr0_el1 := v\<rparr>) = prio s"
  "queued (s\<lparr>ksCurThread := v\<rparr>) = queued s" "prio (s\<lparr>ksCurThread := v\<rparr>) = prio s"
  "queued (s\<lparr>ksSchedulerAction := v\<rparr>) = queued s" "prio (s\<lparr>ksSchedulerAction := v\<rparr>) = prio s"
  "is_schedulable (s\<lparr>ttbr0_el1 := v\<rparr>) = is_schedulable s"
  "is_schedulable (s\<lparr>ksCurThread := v\<rparr>) = is_schedulable s"
  "is_schedulable (s\<lparr>ksSchedulerAction := v\<rparr>) = is_schedulable s"
  by (simp_all add: queued_def prio_def is_schedulable_def is_runnable_def get_state_def fun_eq_iff)

lemma sched_inv_head:
  assumes "sched_inv s Q" "p < 256" "Q p = t # ts"
  shows "q_head (ksReadyQueues s ! p) = t" "queued s t" "prio s t = p" "t \<noteq> 0"
proof -
  note D = sched_invD [OF assms(1)]
  show "q_head (ksReadyQueues s ! p) = t" "t \<noteq> 0"
    using D(3) [OF assms(2)] assms(3) by (auto simp: sched_queue_def queue_rep_def dll_def)
  show "queued s t" "prio s t = p" using D(4) [OF assms(2), of t] assms(3) by simp_all
qed

lemma sched_inv_distinct: "sched_inv s Q \<Longrightarrow> i < 256 \<Longrightarrow> distinct (Q i)"
  using sched_invD(3) [of s Q i] by (auto simp: sched_queue_def queue_rep_def dll_distinct)

lemma sched_dequeue_head:
  assumes "sched_inv s Q" "p < 256" "Q p = t # ts"
  shows "\<exists>s'. sched_dequeue t s = Some s' \<and> sched_inv s' (Q(p := ts)) \<and> sched_frame s s'"
proof -
  note h = sched_inv_head [OF assms]
  obtain s' as bs where s': "Q (prio s t) = as @ t # bs" "sched_dequeue t s = Some s'"
    "sched_inv s' (Q(prio s t := as @ bs))" "sched_frame s s'"
    using sched_dequeue_inv [OF assms(1) h(2)] by blast
  have "as = []" using s'(1) sched_inv_distinct [OF assms(1,2)] assms(3) h(3) by (cases as) auto
  with s' assms(3) h(3) show ?thesis by auto
qed

lemma switch_to_this_run:
  assumes "vspace_wf s"
  shows "\<exists>v. switch_to_this t s = map_option (\<lambda>s. s\<lparr>ksCurThread := t\<rparr>) (sched_dequeue t (s\<lparr>ttbr0_el1 := v\<rparr>))"
  using set_vm_root_result [OF assms, of "capability (ks_ctes s (get_cspace t TCB_VTABLE))"]
  by (auto simp: switch_to_this_def set_current_thread_def map_option_case split: option.splits bind_splits)

lemma sched_frame_cur:
  assumes "sched_frame s s'" shows "sched_frame (s\<lparr>ksCurThread := t\<rparr>) (s'\<lparr>ksCurThread := t\<rparr>)"
proof -
  have eq: "s' = set_sched s' s" using assms by (simp add: sched_frame_def)
  have "set_sched (s'\<lparr>ksCurThread := t\<rparr>) (s\<lparr>ksCurThread := t\<rparr>) = (set_sched s' s)\<lparr>ksCurThread := t\<rparr>"
    by (simp add: set_sched_def)
  with arg_cong [OF eq, of "\<lambda>s. s\<lparr>ksCurThread := t\<rparr>"] show ?thesis
    using assms by (simp add: sched_frame_def)
qed

lemma switch_to_queued:
  assumes "sched_inv s Q" "vspace_wf s" "p < 256" "Q p = t # ts"
  shows "\<exists>s' v. switch_to_this t s = Some s' \<and> sched_inv s' (Q(p := ts)) \<and> ksCurThread s' = t \<and>
    sched_frame (s\<lparr>ttbr0_el1 := v, ksCurThread := t\<rparr>) s'"
proof -
  obtain v where v: "switch_to_this t s =
      map_option (\<lambda>s. s\<lparr>ksCurThread := t\<rparr>) (sched_dequeue t (s\<lparr>ttbr0_el1 := v\<rparr>))"
    using switch_to_this_run [OF assms(2)] by blast
  obtain s' where s': "sched_dequeue t (s\<lparr>ttbr0_el1 := v\<rparr>) = Some s'" "sched_inv s' (Q(p := ts))"
    "sched_frame (s\<lparr>ttbr0_el1 := v\<rparr>) s'"
    using sched_dequeue_head [of "s\<lparr>ttbr0_el1 := v\<rparr>" Q p t ts] assms by auto
  have "sched_frame (s\<lparr>ttbr0_el1 := v, ksCurThread := t\<rparr>) (s'\<lparr>ksCurThread := t\<rparr>)"
    using s'(3) by (rule sched_frame_cur)
  with v s' show ?thesis by auto
qed

lemma word_nonzero_bit: "w \<noteq> 0 \<Longrightarrow> \<exists>b < 64. bit (w :: word64) b"
  using leading_zeros_msb by blast

lemma bitmap_ok_zero:
  assumes ok: "bitmap_ok l1 l2s P"
  shows "l1 = 0 \<longleftrightarrow> (\<forall>i < 256. \<not> P i)"
proof
  assume 0: "l1 = 0"
  show "\<forall>i < 256. \<not> P i"
  proof (intro allI impI)
    fix i :: nat assume i: "i < 256"
    then have "l2s ! (3 - i div 64) = 0" using ok 0 by (auto simp: bitmap_ok_def less_mult_imp_div_less)
    moreover have "bit (l2s ! (3 - i div 64)) (i mod 64) = P i" using ok i by (simp add: bitmap_ok_def)
    ultimately show "\<not> P i" by simp
  qed
next
  assume none: "\<forall>i < 256. \<not> P i"
  show "l1 = 0"
  proof (rule ccontr)
    assume "l1 \<noteq> 0"
    then obtain j where "bit l1 j" using word_nonzero_bit by blast
    then have j: "j < 4" "l2s ! (3 - j) \<noteq> 0" using ok by (simp_all add: bitmap_ok_def)
    then obtain b where b: "b < 64" "bit (l2s ! (3 - j)) b" using word_nonzero_bit by blast
    have "64 * j + b < 256" using j(1) b(1) by simp
    moreover have "(64 * j + b) div 64 = j" "(64 * j + b) mod 64 = b" using b(1) by simp_all
    ultimately have "P (64 * j + b)" using ok b(2) unfolding bitmap_ok_def by metis
    with none \<open>64 * j + b < 256\<close> show False by simp
  qed
qed

lemma choose_thread_cases:
  assumes inv: "sched_inv s Q" and run: "ready_runnable s" and vs: "vspace_wf s" and idle: "ksIdleThread s \<noteq> 0"
  shows "(\<forall>i < 256. Q i = []) \<and>
      choose_thread s = Some (s\<lparr>ttbr0_el1 := global_user_ttbr s, ksCurThread := ksIdleThread s\<rparr>) \<or>
    (\<exists>p < 256. \<exists>t ts s' v. Q p = t # ts \<and> (\<forall>j < 256. p < j \<longrightarrow> Q j = []) \<and> choose_thread s = Some s' \<and>
      sched_inv s' (Q(p := ts)) \<and> ksCurThread s' = t \<and> sched_frame (s\<lparr>ttbr0_el1 := v, ksCurThread := t\<rparr>) s')"
proof -
  obtain l1 l2s where l: "ksReadyQueuesL1Bitmap s = [l1]" "bitmap_ok l1 l2s (\<lambda>i. Q i \<noteq> [])"
    using sched_invD(1) [OF inv] by (auto simp: bitmaps_def)
  show ?thesis
  proof (cases "\<forall>i < 256. Q i = []")
    case True
    then have "l1 = 0" using bitmap_ok_zero [OF l(2)] by simp
    with l True idle show ?thesis
      by (simp add: choose_thread_def index_checked_def set_current_user_vspace_root_def get_idle_thread_def
          set_current_thread_def global_user_ttbr_def)
  next
    case False
    then obtain i where i: "i < 256" "Q i \<noteq> []" by blast
    obtain p where p: "p < 256" "get_highest_prio 0 s = Some (of_nat p)" "Q p \<noteq> []"
        "\<forall>j < 256. p < j \<longrightarrow> Q j = []"
      using get_highest_prio_bitmap [OF sched_invD(1) [OF inv] i] by auto
    then obtain t ts where t: "Q p = t # ts" by (cases "Q p") auto
    note h = sched_inv_head [OF inv p(1) t]
    have "l1 \<noteq> 0" using bitmap_ok_zero [OF l(2)] False by simp
    then have "choose_thread s = switch_to_this t s"
      using l(1) p(1,2) h run sched_invD(2) [OF inv]
      by (simp add: choose_thread_def index_checked_def ready_queues_index_def ready_runnable_def)
    with switch_to_queued [OF inv vs p(1) t] p t show ?thesis by metis
  qed
qed

lemma queued_iff:
  "sched_inv s Q \<Longrightarrow> queued s x \<longleftrightarrow> prio s x < 256 \<and> x \<in> set (Q (prio s x))"
  using sched_invD(4) [of s Q "prio s x" x] sched_invD(5) [of s Q x] by (auto simp: in_range_def)

text \<open>The three queue operations without the case split on the flag.\<close>

lemma sched_enqueue_any:
  assumes inv: "sched_inv s Q" and t: "in_range s t" "t \<noteq> 0"
  shows "\<exists>s' Q'. sched_enqueue t s = Some s' \<and> sched_inv s' Q' \<and> sched_frame s s' \<and>
    (\<forall>x. queued s' x \<longleftrightarrow> x = t \<or> queued s x)"
proof (cases "queued s t")
  case True
  then have "sched_enqueue t s = Some s" by (simp add: sched_enqueue_def queued_def)
  with inv True show ?thesis by (intro exI [of _ s] exI [of _ Q]) auto
next
  case False
  obtain s' where s': "sched_enqueue t s = Some s'" "sched_inv s' (Q(prio s t := t # Q (prio s t)))" "sched_frame s s'"
    using sched_enqueue_inv [OF inv t(1) False t(2)] by blast
  have "queued s' x \<longleftrightarrow> x = t \<or> queued s x" for x
    unfolding queued_iff [OF s'(2)] queued_iff [OF inv] sched_frame_fields(1) [OF s'(3)]
    using t(1) by (auto simp: in_range_def)
  with s' show ?thesis by blast
qed

lemma sched_append_any:
  assumes inv: "sched_inv s Q" and t: "in_range s t" "t \<noteq> 0"
  shows "\<exists>s' Q'. sched_append t s = Some s' \<and> sched_inv s' Q' \<and> sched_frame s s' \<and>
    (\<forall>x. queued s' x \<longleftrightarrow> x = t \<or> queued s x)"
proof (cases "queued s t")
  case True
  then have "sched_append t s = Some s" by (simp add: sched_append_def queued_def)
  with inv True show ?thesis by (intro exI [of _ s] exI [of _ Q]) auto
next
  case False
  obtain s' where s': "sched_append t s = Some s'" "sched_inv s' (Q(prio s t := Q (prio s t) @ [t]))" "sched_frame s s'"
    using sched_append_inv [OF inv t(1) False t(2)] by blast
  have "queued s' x \<longleftrightarrow> x = t \<or> queued s x" for x
    unfolding queued_iff [OF s'(2)] queued_iff [OF inv] sched_frame_fields(1) [OF s'(3)]
    using t(1) by (auto simp: in_range_def)
  with s' show ?thesis by blast
qed

lemma sched_dequeue_any:
  assumes inv: "sched_inv s Q"
  shows "\<exists>s' Q'. sched_dequeue t s = Some s' \<and> sched_inv s' Q' \<and> sched_frame s s' \<and>
    (\<forall>x. queued s' x \<longleftrightarrow> queued s x \<and> x \<noteq> t)"
proof (cases "queued s t")
  case False
  then have "sched_dequeue t s = Some s" by (simp add: sched_dequeue_def queued_def)
  with inv False show ?thesis by (intro exI [of _ s] exI [of _ Q]) auto
next
  case True
  obtain s' as bs where s': "Q (prio s t) = as @ t # bs" "sched_dequeue t s = Some s'"
    "sched_inv s' (Q(prio s t := as @ bs))" "sched_frame s s'"
    using sched_dequeue_inv [OF inv True] by blast
  have p: "prio s t < 256" using sched_invD(5) [OF inv True] by (simp add: in_range_def)
  have d: "t \<notin> set as" "t \<notin> set bs" using sched_inv_distinct [OF inv p] s'(1) by auto
  have "queued s' x \<longleftrightarrow> queued s x \<and> x \<noteq> t" for x
    unfolding queued_iff [OF s'(3)] queued_iff [OF inv] sched_frame_fields(1) [OF s'(4)]
    using s'(1) d by (cases "x = t"; cases "prio s x = prio s t") auto
  with s' show ?thesis by blast
qed

lemma switch_to_this_any:
  assumes inv: "sched_inv s Q" and vs: "vspace_wf s"
  shows "\<exists>s' Q' v. switch_to_this t s = Some s' \<and> sched_inv s' Q' \<and>
    sched_frame (s\<lparr>ttbr0_el1 := v, ksCurThread := t\<rparr>) s' \<and> (\<forall>x. queued s' x \<longleftrightarrow> queued s x \<and> x \<noteq> t)"
proof -
  obtain v where v: "switch_to_this t s =
      map_option (\<lambda>s. s\<lparr>ksCurThread := t\<rparr>) (sched_dequeue t (s\<lparr>ttbr0_el1 := v\<rparr>))"
    using switch_to_this_run [OF vs] by blast
  obtain s' Q' where s': "sched_dequeue t (s\<lparr>ttbr0_el1 := v\<rparr>) = Some s'" "sched_inv s' Q'"
    "sched_frame (s\<lparr>ttbr0_el1 := v\<rparr>) s'" "\<And>x. queued s' x \<longleftrightarrow> queued s x \<and> x \<noteq> t"
    using sched_dequeue_any [of "s\<lparr>ttbr0_el1 := v\<rparr>" Q t] inv by auto
  from sched_frame_cur [OF s'(3), of t] v s' show ?thesis by auto
qed

section \<open>The outcome of scheduling\<close>

definition outranks :: "kstate \<Rightarrow> bool" where
  "outranks s \<longleftrightarrow> (\<forall>x. queued s x \<longrightarrow> prio s x \<le> prio s (ksCurThread s))"

definition sched_outcome :: "kstate \<Rightarrow> bool" where
  "sched_outcome s \<longleftrightarrow> (\<exists>Q. sched_inv s Q) \<and> ready_runnable s \<and>
     (ksCurThread s = ksIdleThread s \<and> (\<forall>x. \<not> queued s x) \<or>
      is_schedulable s (ksCurThread s) \<and> \<not> queued s (ksCurThread s) \<and> outranks s)"

lemma ready_runnable_mono:
  assumes "ready_runnable s" "sched_frame s s'" "\<And>x. queued s' x \<Longrightarrow> queued s x \<or> is_schedulable s x"
  shows "ready_runnable s'"
  using assms sched_frame_fields(7) [OF assms(2)] by (auto simp: ready_runnable_def)

lemma choose_thread_outcome:
  assumes inv: "sched_inv s Q" and run: "ready_runnable s" and vs: "vspace_wf s" and idle: "ksIdleThread s \<noteq> 0"
  shows "\<exists>s'. choose_thread s = Some s' \<and> sched_outcome s' \<and> ksIdleThread s' = ksIdleThread s"
  using choose_thread_cases [OF assms]
proof (elim disjE exE conjE)
  let ?s = "s\<lparr>ttbr0_el1 := global_user_ttbr s, ksCurThread := ksIdleThread s\<rparr>"
  assume "\<forall>i < 256. Q i = []" "choose_thread s = Some ?s"
  moreover from this have "\<not> queued s x" for x using queued_iff [OF inv] by auto
  ultimately show ?thesis using inv run by (auto simp: sched_outcome_def ready_runnable_def)
next
  fix p t ts s' v
  assume p: "p < 256" and Q: "Q p = t # ts" and top: "\<forall>j < 256. p < j \<longrightarrow> Q j = []"
    and s': "choose_thread s = Some s'" "sched_inv s' (Q(p := ts))" "ksCurThread s' = t"
      "sched_frame (s\<lparr>ttbr0_el1 := v, ksCurThread := t\<rparr>) s'"
  note h = sched_inv_head [OF inv p Q] and F = sched_frame_fields [OF s'(4)]
  have pr: "prio s' x = prio s x" for x using F(1) by simp
  have sub: "queued s' x \<Longrightarrow> queued s x" for x
    unfolding queued_iff [OF s'(2)] queued_iff [OF inv] pr using Q by (auto split: if_splits)
  have "t \<notin> set ts" using sched_inv_distinct [OF inv p] Q by simp
  then have nq: "\<not> queued s' t" unfolding queued_iff [OF s'(2)] pr using h(3) by simp
  have "prio s' x \<le> prio s' t" if "queued s' x" for x
  proof -
    have "prio s x < 256" "Q (prio s x) \<noteq> []" using sub [OF that] queued_iff [OF inv] by auto
    with top have "\<not> p < prio s x" by auto
    then show ?thesis using pr h(3) by simp
  qed
  moreover have "ready_runnable s'" "is_schedulable s' t"
    using run h(2) sub F(7) by (auto simp: ready_runnable_def)
  moreover have "ksIdleThread s' = ksIdleThread s" using sched_frame_globals(2) [OF s'(4)] by simp
  ultimately show ?thesis using s' nq by (auto simp: sched_outcome_def outranks_def)
qed

lemma next_domain_run:
  "next_domain s = Some (s\<lparr>ksDomScheduleIdx := 0, ksWorkUnitsCompleted := 0, ksCurDomain := 0, ksDomainTime := 60\<rparr>)"
proof -
  have "ksDomScheduleIdx s + 1 = 0" if "\<not> KS_DOM_SCHEDULE_LENGTH \<le> ksDomScheduleIdx s + 1"
    using that unfolding KS_DOM_SCHEDULE_LENGTH_def by (metis linorder_not_le word_less_1)
  then show ?thesis by (auto simp: next_domain_def ksDomSchedule_def index_checked_def Let_def)
qed

lemma schedule_choose_outcome:
  assumes "sched_inv s Q" "ready_runnable s" "vspace_wf s" "ksIdleThread s \<noteq> 0"
  shows "\<exists>s'. schedule_choose_new_thread s = Some s' \<and> sched_outcome s' \<and> ksIdleThread s' = ksIdleThread s"
proof -
  let ?s = "s\<lparr>ksDomScheduleIdx := 0, ksWorkUnitsCompleted := 0, ksCurDomain := 0, ksDomainTime := 60\<rparr>"
  have "ready_runnable ?s" "vspace_wf ?s"
    using assms(2,3) by (simp_all add: ready_runnable_def queued_def is_schedulable_def is_runnable_def
        get_state_def vspace_wf_def)
  then show ?thesis
    using choose_thread_outcome [of ?s Q] choose_thread_outcome [OF assms] assms(1,4)
    by (auto simp: schedule_choose_new_thread_def next_domain_run)
qed

lemma is_highest_prio_correct:
  assumes inv: "sched_inv s Q" and p: "unat pr < 256"
  shows "is_highest_prio 0 pr s = Some (\<forall>x. queued s x \<longrightarrow> prio s x \<le> unat pr)"
proof -
  obtain l1 l2s where l: "ksReadyQueuesL1Bitmap s = [l1]" "bitmap_ok l1 l2s (\<lambda>i. Q i \<noteq> [])"
    using sched_invD(1) [OF inv] by (auto simp: bitmaps_def)
  show ?thesis
  proof (cases "l1 = 0")
    case True
    then have "\<not> queued s x" for x using bitmap_ok_zero [OF l(2)] queued_iff [OF inv, of x] by auto
    with True l(1) show ?thesis by (simp add: is_highest_prio_def index_checked_def)
  next
    case False
    then obtain i where i: "i < 256" "Q i \<noteq> []" using bitmap_ok_zero [OF l(2)] by auto
    obtain h where h: "h < 256" "get_highest_prio 0 s = Some (of_nat h)" "Q h \<noteq> []" "\<forall>j < 256. h < j \<longrightarrow> Q j = []"
      using get_highest_prio_bitmap [OF sched_invD(1) [OF inv] i] by auto
    obtain t ts where t: "Q h = t # ts" using h(3) by (cases "Q h") auto
    have top: "prio s x \<le> h" if "queued s x" for x
    proof -
      have "prio s x < 256" "Q (prio s x) \<noteq> []" using that queued_iff [OF inv, of x] by auto
      with h(4) show ?thesis by (meson not_le)
    qed
    have "(\<forall>x. queued s x \<longrightarrow> prio s x \<le> unat pr) \<longleftrightarrow> h \<le> unat pr"
      using top sched_inv_head(2,3) [OF inv h(1) t] order_trans by metis
    moreover have "of_nat h \<le> pr \<longleftrightarrow> h \<le> unat pr" using h(1) by (simp add: word_le_nat_alt)
    ultimately show ?thesis using False l(1) h(2) by (simp add: is_highest_prio_def index_checked_def)
  qed
qed

definition sched_pre :: "kstate \<Rightarrow> bool" where
  "sched_pre s \<longleftrightarrow> (\<exists>Q. sched_inv s Q) \<and> ready_runnable s \<and> vspace_wf s \<and>
     ksCurThread s \<noteq> 0 \<and> ksIdleThread s \<noteq> 0 \<and> ksCurDomain s = 0 \<and>
     (is_schedulable s (ksCurThread s) \<longrightarrow> in_range s (ksCurThread s))"

definition action_ok :: "kstate \<Rightarrow> bool" where
  "action_ok s \<longleftrightarrow> (let a = ksSchedulerAction s in a \<notin> {0, 1} \<longrightarrow> is_schedulable s a \<and> in_range s a \<and>
     (ksCurThread s \<noteq> ksIdleThread s \<longrightarrow>
       (\<forall>x. queued s x \<and> x \<noteq> a \<longrightarrow> prio s x \<le> prio s (ksCurThread s))))"

lemma sched_pre_step:
  assumes pre: "ready_runnable s" "vspace_wf s" and fr: "sched_frame s s'" and t: "is_schedulable s t"
    and q: "\<forall>x. queued s' x \<longleftrightarrow> x = t \<or> queued s x"
  shows "ready_runnable s'" "vspace_wf s'"
  using ready_runnable_mono [OF pre(1) fr] q t pre(2) sched_frame_globals [OF fr]
  by (auto simp: vspace_wf_def)

lemma requeue_candidate:
  assumes inv: "sched_inv s Q" and pre: "ready_runnable s" "vspace_wf s" "ksIdleThread s \<noteq> 0"
    and c: "is_schedulable s c" "in_range s c" "c \<noteq> 0"
  shows "\<exists>s'. do { s \<leftarrow> sched_enqueue c s; schedule_choose_new_thread (s\<lparr>ksSchedulerAction := v\<rparr>) } = Some s' \<and>
      sched_outcome s'"
    "\<exists>s'. do { s \<leftarrow> sched_append c s; schedule_choose_new_thread (s\<lparr>ksSchedulerAction := v\<rparr>) } = Some s' \<and>
      sched_outcome s'"
proof -
  have *: "\<exists>s'. schedule_choose_new_thread (s1\<lparr>ksSchedulerAction := v\<rparr>) = Some s' \<and> sched_outcome s'"
    if "sched_inv s1 Q1" "sched_frame s s1" "\<forall>x. queued s1 x \<longleftrightarrow> x = c \<or> queued s x" for s1 Q1
  proof -
    have "ready_runnable s1" "vspace_wf s1" using sched_pre_step [OF pre(1,2) that(2) c(1) that(3)] .
    then have "ready_runnable (s1\<lparr>ksSchedulerAction := v\<rparr>)" "vspace_wf (s1\<lparr>ksSchedulerAction := v\<rparr>)"
      by (simp_all add: ready_runnable_def queued_def is_schedulable_def is_runnable_def get_state_def vspace_wf_def)
    then show ?thesis
      using schedule_choose_outcome [of "s1\<lparr>ksSchedulerAction := v\<rparr>" Q1] that(1) pre(3)
        sched_frame_globals(2) [OF that(2)] by auto
  qed
  show "\<exists>s'. do { s \<leftarrow> sched_enqueue c s; schedule_choose_new_thread (s\<lparr>ksSchedulerAction := v\<rparr>) } = Some s' \<and>
      sched_outcome s'"
    using sched_enqueue_any [OF inv c(2,3)] * by auto
  show "\<exists>s'. do { s \<leftarrow> sched_append c s; schedule_choose_new_thread (s\<lparr>ksSchedulerAction := v\<rparr>) } = Some s' \<and>
      sched_outcome s'"
    using sched_append_any [OF inv c(2,3)] * by auto
qed

lemma switch_outcome:
  assumes inv: "sched_inv s Q" and pre: "ready_runnable s" "vspace_wf s" and c: "is_schedulable s c"
    and top: "\<forall>x. queued s x \<longrightarrow> prio s x \<le> prio s c"
  shows "\<exists>s'. switch_to_this c s = Some s' \<and> sched_outcome s'"
proof -
  obtain s' Q' v where s': "switch_to_this c s = Some s'" "sched_inv s' Q'"
    "sched_frame (s\<lparr>ttbr0_el1 := v, ksCurThread := c\<rparr>) s'" "\<forall>x. queued s' x \<longleftrightarrow> queued s x \<and> x \<noteq> c"
    using switch_to_this_any [OF inv pre(2)] by blast
  note F = sched_frame_fields [OF s'(3)] sched_frame_globals [OF s'(3)]
  have "ready_runnable s'" using pre(1) F(7) s'(4) by (auto simp: ready_runnable_def)
  moreover have "outranks s'" using top s'(4) F by (auto simp: outranks_def)
  ultimately show ?thesis using s' F c by (auto simp: sched_outcome_def)
qed

lemma schedule_candidate:
  assumes inv: "sched_inv s Q" and pre: "ready_runnable s" "vspace_wf s" "ksIdleThread s \<noteq> 0" "ksCurDomain s = 0"
    and c: "is_schedulable s c" "in_range s c" "c \<noteq> 0" and ff: "ff \<longleftrightarrow> cur = ksIdleThread s \<or> prio s c < prio s cur"
    and top: "cur \<noteq> ksIdleThread s \<Longrightarrow> \<forall>x. queued s x \<and> x \<noteq> c \<longrightarrow> prio s x \<le> prio s cur"
  shows "\<exists>s'. do {
      highest \<leftarrow> (if ff then is_highest_prio (ksCurDomain s) (tcbPriority (tcb_at s c)) s else Some True);
      if ff \<and> \<not> highest then do {
        s \<leftarrow> sched_enqueue c s;
        schedule_choose_new_thread (s\<lparr>ksSchedulerAction := SCHEDULER_ACTION_CHOOSE_NEW_THREAD\<rparr>)
      } else if w \<and> tcbPriority (tcb_at s c) = tcbPriority (tcb_at s cur) then do {
        s \<leftarrow> sched_append c s;
        schedule_choose_new_thread (s\<lparr>ksSchedulerAction := SCHEDULER_ACTION_CHOOSE_NEW_THREAD\<rparr>)
      } else switch_to_this c s } = Some s' \<and> sched_outcome s'" (is "\<exists>s'. ?run = Some s' \<and> _")
proof -
  note req = requeue_candidate [OF inv pre(1-3) c, of SCHEDULER_ACTION_CHOOSE_NEW_THREAD]
  let ?hi = "\<forall>x. queued s x \<longrightarrow> prio s x \<le> prio s c"
  have pc: "prio s c < 256" using c(2) by (simp add: in_range_def)
  have hp: "is_highest_prio 0 (tcbPriority (tcb_at s c)) s = Some ?hi"
    using is_highest_prio_correct [OF inv, of "tcbPriority (tcb_at s c)"] pc by (simp add: prio_def)
  have hi: ?hi if "\<not> ff"
  proof (intro allI impI)
    fix x assume x: "queued s x"
    from that ff have "cur \<noteq> ksIdleThread s" "prio s cur \<le> prio s c" by auto
    with top x show "prio s x \<le> prio s c" by (cases "x = c") (auto intro: order_trans)
  qed
  have sw: "\<exists>s'. switch_to_this c s = Some s' \<and> sched_outcome s'" if ?hi
    using switch_outcome [OF inv pre(1,2) c(1) that] .
  show ?thesis
  proof (cases ?hi)
    case True
    then show ?thesis using hp pre(4) req(2) sw by simp
  next
    case False
    with hi have ff by blast
    with False show ?thesis using hp pre(4) req(1) by simp
  qed
qed

lemma schedule_outcome:
  assumes pre: "sched_pre s" and act: "action_ok s" "ksSchedulerAction s \<noteq> SCHEDULER_ACTION_RESUME_CURRENT_THREAD"
  shows "\<exists>s'. schedule s = Some s' \<and> sched_outcome s' \<and> ksSchedulerAction s' = SCHEDULER_ACTION_RESUME_CURRENT_THREAD"
proof -
  let ?cur = "ksCurThread s" and ?a = "ksSchedulerAction s"
  obtain Q where inv: "sched_inv s Q" and run: "ready_runnable s" and vs: "vspace_wf s"
    and nz: "?cur \<noteq> 0" "ksIdleThread s \<noteq> 0" and dm: "ksCurDomain s = 0"
    and cur: "is_schedulable s ?cur \<Longrightarrow> in_range s ?cur"
    using pre by (auto simp: sched_pre_def)
  obtain s1 Q1 where s1: "(if is_schedulable s ?cur then sched_enqueue ?cur s else Some s) = Some s1"
    "sched_inv s1 Q1" "sched_frame s s1" "ready_runnable s1" "vspace_wf s1"
    "\<forall>x. queued s1 x \<longrightarrow> x = ?cur \<or> queued s x"
  proof (cases "is_schedulable s ?cur")
    case True
    then show ?thesis
      using sched_enqueue_any [OF inv cur [OF True] nz(1)] sched_pre_step [OF run vs _ True] that by auto
  next
    case False
    then show ?thesis using that [of s Q] inv run vs by auto
  qed
  note F = sched_frame_fields [OF s1(3)] sched_frame_globals [OF s1(3)]
  have rs: "sched_outcome (x\<lparr>ksSchedulerAction := v\<rparr>)" if "sched_outcome x" for x v
    using that by (simp add: sched_outcome_def ready_runnable_def outranks_def)
  show ?thesis
  proof (cases "?a = SCHEDULER_ACTION_CHOOSE_NEW_THREAD")
    case True
    then show ?thesis
      using schedule_choose_outcome [OF s1(2,4,5)] s1(1) F nz rs act(2)
      by (auto simp: schedule_def get_currenct_thread_def convert_to_mut_type_ref_def)
  next
    case False
    then have a: "is_schedulable s ?a" "in_range s ?a" "?a \<noteq> 0"
      and top: "?cur \<noteq> ksIdleThread s \<Longrightarrow> \<forall>x. queued s x \<and> x \<noteq> ?a \<longrightarrow> prio s x \<le> prio s ?cur"
      using act by (auto simp: action_ok_def Let_def SCHEDULER_ACTION_CHOOSE_NEW_THREAD_def
          SCHEDULER_ACTION_RESUME_CURRENT_THREAD_def)
    let ?ff = "?cur = ksIdleThread s \<or> tcbPriority (tcb_at s1 ?a) < tcbPriority (tcb_at s1 ?cur)"
    have "?ff \<longleftrightarrow> ?cur = ksIdleThread s1 \<or> prio s1 ?a < prio s1 ?cur"
      using F by (simp add: prio_def word_less_nat_alt)
    moreover have "\<forall>x. queued s1 x \<and> x \<noteq> ?a \<longrightarrow> prio s1 x \<le> prio s1 ?cur" if "?cur \<noteq> ksIdleThread s1"
      using top s1(6) F that by auto
    ultimately obtain s' where s': "do {
        highest \<leftarrow> (if ?ff then is_highest_prio (ksCurDomain s1) (tcbPriority (tcb_at s1 ?a)) s1 else Some True);
        if ?ff \<and> \<not> highest then do {
          s \<leftarrow> sched_enqueue ?a s1;
          schedule_choose_new_thread (s\<lparr>ksSchedulerAction := SCHEDULER_ACTION_CHOOSE_NEW_THREAD\<rparr>)
        } else if is_schedulable s ?cur \<and> tcbPriority (tcb_at s1 ?a) = tcbPriority (tcb_at s1 ?cur) then do {
          s \<leftarrow> sched_append ?a s1;
          schedule_choose_new_thread (s\<lparr>ksSchedulerAction := SCHEDULER_ACTION_CHOOSE_NEW_THREAD\<rparr>)
        } else switch_to_this ?a s1 } = Some s'" "sched_outcome s'"
      using schedule_candidate [OF s1(2,4,5), of ?a ?ff ?cur "is_schedulable s ?cur"] a F nz dm by auto
    have e: "get_currenct_thread s = Some ?cur" "get_idle_thread s1 = Some (ksIdleThread s)"
      "convert_to_mut_type_ref ?a = Some ?a" "ksSchedulerAction s1 = ?a" "is_schedulable s1 ?a"
      using nz a F by (simp_all add: get_currenct_thread_def get_idle_thread_def convert_to_mut_type_ref_def)
    show ?thesis
      unfolding schedule_def Let_def if_P [OF act(2)] e(1) bind.bind_lunit s1(1) e(2-4) if_not_P [OF False]
        kassert_def if_P [OF e(5)] s'(1)
      using rs [OF s'(2)] by simp
  qed
qed

end
