(* ===== verification/SchedulerProps.thy ===== *)
theory SchedulerProps
  imports SchedulerInv
begin

text \<open>
  The scheduling operations as their callers see them: each of them succeeds in a well-formed scheduler
  state, keeps it well formed, and changes nothing but the ready queues, their bitmaps, the queue links of
  threads and the scheduler action (\<^term>\<open>resched_frame\<close>).  On top of that, the properties of
  \<open>schedule\<close>, of the timer and of stopping and restarting a thread.
\<close>

section \<open>Frames of the scheduling operations\<close>

definition resched_frame :: "kstate \<Rightarrow> kstate \<Rightarrow> bool" where
  "resched_frame s s' \<longleftrightarrow> s' = (set_sched s' s)\<lparr>ksSchedulerAction := ksSchedulerAction s'\<rparr> \<and>
     (\<forall>p. no_sched (tcb_at s' p) = no_sched (tcb_at s p))"

definition sched_ok :: "kstate \<Rightarrow> bool" where
  "sched_ok s \<longleftrightarrow> (\<exists>Q. sched_inv s Q) \<and>
     (ksSchedulerAction s \<notin> {0, 1} \<longrightarrow> in_range s (ksSchedulerAction s))"

lemma resched_frame_refl [simp]: "resched_frame s s"
  by (simp add: resched_frame_def set_sched_def)

lemma sched_frame_resched:
  assumes "sched_frame s s'"
  shows "resched_frame s s'"
proof -
  have eq: "s' = set_sched s' s" using assms by (simp add: sched_frame_def)
  have "ksSchedulerAction s' = ksSchedulerAction s" using sched_frame_globals(3) [OF assms] .
  then have "s' = (set_sched s' s)\<lparr>ksSchedulerAction := ksSchedulerAction s'\<rparr>"
    by (subst eq, simp add: set_sched_def)
  then show ?thesis using assms by (simp add: resched_frame_def sched_frame_def)
qed

lemma resched_frame_action [simp]: "resched_frame s (s\<lparr>ksSchedulerAction := v\<rparr>)"
  by (simp add: resched_frame_def set_sched_def)

lemma resched_frame_trans:
  assumes "resched_frame s s'" "resched_frame s' s''"
  shows "resched_frame s s''"
proof -
  have e1: "s' = (set_sched s' s)\<lparr>ksSchedulerAction := ksSchedulerAction s'\<rparr>"
    and e2: "s'' = (set_sched s'' s')\<lparr>ksSchedulerAction := ksSchedulerAction s''\<rparr>"
    using assms by (simp_all add: resched_frame_def)
  have "set_sched s'' s' = (set_sched s'' s)\<lparr>ksSchedulerAction := ksSchedulerAction s'\<rparr>"
    by (subst e1) (simp add: set_sched_def)
  with e2 have "s'' = (set_sched s'' s)\<lparr>ksSchedulerAction := ksSchedulerAction s''\<rparr>"
    by (simp add: set_sched_def)
  then show ?thesis using assms by (simp add: resched_frame_def)
qed

lemma resched_frame_fields:
  assumes "resched_frame s s'"
  shows "prio s' t = prio s t" "in_range s' t = in_range s t" "get_state s' t = get_state s t"
    "tcbPriority (tcb_at s' t) = tcbPriority (tcb_at s t)"
    "tcbDomain (tcb_at s' t) = tcbDomain (tcb_at s t)"
    "tcbArch (tcb_at s' t) = tcbArch (tcb_at s t)"
    "is_schedulable s' t = is_schedulable s t"
    "tcbTimeSlice (tcb_at s' t) = tcbTimeSlice (tcb_at s t)"
  using assms no_sched_fields [of "tcb_at s' t" "tcb_at s t"]
  by (simp_all add: resched_frame_def prio_def in_range_def get_state_def is_schedulable_def is_runnable_def)

lemma resched_frame_globals:
  assumes "resched_frame s s'"
  shows "ksCurThread s' = ksCurThread s" "ksIdleThread s' = ksIdleThread s"
    "ksDomainTime s' = ksDomainTime s" "ksCurDomain s' = ksCurDomain s" "ks_ctes s' = ks_ctes s"
    "vspace_wf s' = vspace_wf s" "ks_eps s' = ks_eps s" "ks_ntfns s' = ks_ntfns s" "ks_bufs s' = ks_bufs s"
    "ks_ptes s' = ks_ptes s" "ks_pools s' = ks_pools s" "armKSASIDTable s' = armKSASIDTable s"
proof -
  have eq: "s' = (set_sched s' s)\<lparr>ksSchedulerAction := ksSchedulerAction s'\<rparr>"
    using assms by (simp add: resched_frame_def)
  show "ksCurThread s' = ksCurThread s" "ksIdleThread s' = ksIdleThread s"
    "ksDomainTime s' = ksDomainTime s" "ksCurDomain s' = ksCurDomain s" "ks_ctes s' = ks_ctes s"
    "vspace_wf s' = vspace_wf s" "ks_eps s' = ks_eps s" "ks_ntfns s' = ks_ntfns s" "ks_bufs s' = ks_bufs s"
    "ks_ptes s' = ks_ptes s" "ks_pools s' = ks_pools s" "armKSASIDTable s' = armKSASIDTable s"
    by (subst eq, simp add: set_sched_def vspace_wf_def)+
qed

lemma sched_ok_frame:
  assumes "sched_ok s" "sched_inv s' Q" "sched_frame s s'"
  shows "sched_ok s'"
  using assms sched_frame_fields(2) [OF assms(3)] sched_frame_globals(3) [OF assms(3)]
  by (auto simp: sched_ok_def)

lemma sched_enqueue_ok:
  assumes ok: "sched_ok s" and t: "in_range s t" "t \<noteq> 0"
  shows "\<exists>s'. sched_enqueue t s = Some s' \<and> sched_ok s' \<and> resched_frame s s' \<and> queued s' t"
proof -
  obtain Q where "sched_inv s Q" using ok by (auto simp: sched_ok_def)
  from sched_enqueue_any [OF this t] obtain s' Q' where "sched_enqueue t s = Some s'" "sched_inv s' Q'"
    "sched_frame s s'" "queued s' t" by auto
  with sched_ok_frame [OF ok] sched_frame_resched show ?thesis by blast
qed

lemma sched_append_ok:
  assumes ok: "sched_ok s" and t: "in_range s t" "t \<noteq> 0"
  shows "\<exists>s'. sched_append t s = Some s' \<and> sched_ok s' \<and> resched_frame s s' \<and> queued s' t"
proof -
  obtain Q where "sched_inv s Q" using ok by (auto simp: sched_ok_def)
  from sched_append_any [OF this t] obtain s' Q' where "sched_append t s = Some s'" "sched_inv s' Q'"
    "sched_frame s s'" "queued s' t" by auto
  with sched_ok_frame [OF ok] sched_frame_resched show ?thesis by blast
qed

lemma sched_dequeue_ok:
  assumes ok: "sched_ok s"
  shows "\<exists>s'. sched_dequeue t s = Some s' \<and> sched_ok s' \<and> resched_frame s s' \<and> \<not> queued s' t \<and>
    ksSchedulerAction s' = ksSchedulerAction s"
proof -
  obtain Q where "sched_inv s Q" using ok by (auto simp: sched_ok_def)
  from sched_dequeue_any [OF this] obtain s' Q' where "sched_dequeue t s = Some s'" "sched_inv s' Q'"
    "sched_frame s s'" "\<not> queued s' t" by blast
  with sched_ok_frame [OF ok] sched_frame_resched sched_frame_globals(3) show ?thesis by blast
qed

lemma reschedule_required_ok:
  assumes ok: "sched_ok s"
  shows "\<exists>s'. reschedule_required s = Some s' \<and> sched_ok s' \<and> resched_frame s s' \<and> ksSchedulerAction s' = 1"
proof (cases "ksSchedulerAction s \<in> {0, 1}")
  case True
  then show ?thesis using ok
    by (auto simp: reschedule_required_def SCHEDULER_ACTION_RESUME_CURRENT_THREAD_def
        SCHEDULER_ACTION_CHOOSE_NEW_THREAD_def sched_ok_def)
next
  case False
  let ?a = "ksSchedulerAction s"
  have "in_range s ?a" "?a \<noteq> 0" using ok False by (auto simp: sched_ok_def)
  from sched_enqueue_ok [OF ok this] obtain s1 where s1: "sched_enqueue ?a s = Some s1" "sched_ok s1"
    "resched_frame s s1" by blast
  have "resched_frame s (s1\<lparr>ksSchedulerAction := 1\<rparr>)"
    using resched_frame_trans [OF s1(3) resched_frame_action] .
  with False s1 show ?thesis
    by (auto simp: reschedule_required_def SCHEDULER_ACTION_RESUME_CURRENT_THREAD_def
        SCHEDULER_ACTION_CHOOSE_NEW_THREAD_def convert_to_mut_type_ref_def sched_ok_def)
qed

lemma schedule_tcb_ok:
  assumes "sched_ok s"
  shows "\<exists>s'. schedule_tcb t s = Some s' \<and> sched_ok s' \<and> resched_frame s s'"
  using assms reschedule_required_ok [OF assms] by (auto simp: schedule_tcb_def)

lemma possible_switch_to_ok:
  assumes ok: "sched_ok s" and t: "in_range s t" "t \<noteq> 0"
  shows "\<exists>s'. possible_switch_to t s = Some s' \<and> sched_ok s' \<and> resched_frame s s'"
proof -
  have act: "sched_ok (s\<lparr>ksSchedulerAction := t\<rparr>)" using ok t by (simp add: sched_ok_def in_range_def)
  obtain s1 where s1: "reschedule_required s = Some s1" "sched_ok s1" "resched_frame s s1"
    using reschedule_required_ok [OF ok] by blast
  have "in_range s1 t" using t(1) resched_frame_fields(2) [OF s1(3)] by simp
  from sched_enqueue_ok [OF s1(2) this t(2)] obtain s2 where "sched_enqueue t s1 = Some s2" "sched_ok s2"
    "resched_frame s1 s2" by blast
  then show ?thesis
    using s1 act sched_enqueue_ok [OF ok t] resched_frame_trans [OF s1(3)]
    by (auto simp: possible_switch_to_def)
qed

text \<open>An update of a thread that leaves its priority, its domain and its links alone.\<close>

definition sched_key :: "tcb_t \<Rightarrow> word64 \<times> word64 \<times> ptr \<times> ptr \<times> bool" where
  "sched_key t = (tcbPriority t, tcbDomain t, tcbSchedNext t, tcbSchedPrev t, tcbQueued (tcbState t))"

lemma sched_inv_key:
  assumes "\<And>p. sched_key (tcb_at s' p) = sched_key (tcb_at s p)" "ksReadyQueues s' = ksReadyQueues s"
    "ksReadyQueuesL1Bitmap s' = ksReadyQueuesL1Bitmap s" "ksReadyQueuesL2Bitmap s' = ksReadyQueuesL2Bitmap s"
  shows "sched_inv s' Q = sched_inv s Q" "in_range s' t = in_range s t" "queued s' t = queued s t"
    "prio s' t = prio s t"
  using assms
  by (simp_all add: sched_inv_def bitmaps_def sched_queue_def sc_nx_def [abs_def] sc_pv_def [abs_def]
      queued_def prio_def in_range_def unlinked_def sched_key_def)

lemma sched_inv_upd_tcb:
  assumes "sched_key (f (tcb_at s p)) = sched_key (tcb_at s p)"
  shows "sched_inv (upd_tcb p f s) Q = sched_inv s Q" "in_range (upd_tcb p f s) t = in_range s t"
    "queued (upd_tcb p f s) t = queued s t" "prio (upd_tcb p f s) t = prio s t"
    "sched_ok (upd_tcb p f s) = sched_ok s"
proof -
  have k: "sched_key (tcb_at (upd_tcb p f s) q) = sched_key (tcb_at s q)" for q using assms by simp
  show "sched_inv (upd_tcb p f s) Q = sched_inv s Q" "in_range (upd_tcb p f s) t = in_range s t"
    "queued (upd_tcb p f s) t = queued s t" "prio (upd_tcb p f s) t = prio s t"
    for Q t using sched_inv_key [OF k] by simp_all
  then show "sched_ok (upd_tcb p f s) = sched_ok s" by (simp add: sched_ok_def)
qed

lemma set_thread_state_ok:
  assumes "sched_ok s"
  shows "\<exists>s'. set_thread_state t st s = Some s' \<and> sched_ok s' \<and> resched_frame (set_tsType t st s) s'"
proof -
  have "sched_ok (set_tsType t st s)"
    using assms sched_inv_upd_tcb(5) [of "tcbState_update (\<lambda>ts. ts\<lparr>tsType := st\<rparr>)" s t]
    by (simp add: set_tsType_def sched_key_def)
  from schedule_tcb_ok [OF this] show ?thesis by (auto simp: set_thread_state_def)
qed

section \<open>The timer\<close>

definition tick :: "kstate \<Rightarrow> kstate option" where
  "tick s = do { s \<leftarrow> timer_tick s; s \<leftarrow> schedule s; activateThread s }"

primrec ticks :: "nat \<Rightarrow> kstate \<Rightarrow> kstate option" where
  "ticks 0 s = Some s"
| "ticks (Suc n) s = do { s \<leftarrow> tick s; ticks n s }"

definition round_robin :: "nat \<Rightarrow> ptr list \<Rightarrow> kstate \<Rightarrow> bool" where
  "round_robin p xs s \<longleftrightarrow>
     (\<exists>Q. sched_inv s Q \<and> Q p = xs \<and> (\<forall>j < 256. p < j \<longrightarrow> Q j = [])) \<and>
     (\<forall>x. x = ksCurThread s \<or> queued s x \<longrightarrow> get_state s x = ThreadStateRunning) \<and>
     \<not> queued s (ksCurThread s) \<and> in_range s (ksCurThread s) \<and> prio s (ksCurThread s) = p \<and>
     ksCurThread s \<noteq> 0 \<and> ksIdleThread s \<noteq> 0 \<and> vspace_wf s \<and>
     ksSchedulerAction s = SCHEDULER_ACTION_RESUME_CURRENT_THREAD"

lemma running_schedulable: "get_state s t = ThreadStateRunning \<Longrightarrow> is_schedulable s t"
  by (simp add: is_schedulable_def is_runnable_def)

lemma activateThread_running:
  "ksCurThread s \<noteq> 0 \<Longrightarrow> get_state s (ksCurThread s) = ThreadStateRunning \<Longrightarrow> activateThread s = Some s"
  by (simp add: activateThread_def get_currenct_thread_def convert_to_mut_type_ref_def)

lemma tick_within_slice:
  assumes rr: "round_robin p xs s" and sl: "1 < tcbTimeSlice (tcb_at s (ksCurThread s))"
  shows "\<exists>s'. tick s = Some s' \<and> round_robin p xs s' \<and> ksCurThread s' = ksCurThread s \<and>
    tcbTimeSlice (tcb_at s' (ksCurThread s)) = tcbTimeSlice (tcb_at s (ksCurThread s)) - 1"
proof -
  let ?c = "ksCurThread s"
  let ?f = "\<lambda>t. t\<lparr>tcbTimeSlice := tcbTimeSlice t - 1\<rparr>"
  let ?s = "upd_tcb ?c ?f s"
  have k: "sched_key (?f (tcb_at s ?c)) = sched_key (tcb_at s ?c)" by (simp add: sched_key_def)
  note K = sched_inv_upd_tcb [of ?f s ?c, OF k]
  have st: "get_state ?s x = get_state s x" for x by (simp add: get_state_def)
  have vs: "vspace_wf ?s = vspace_wf s" by (simp add: vspace_wf_def upd_tcb_def)
  have "timer_tick s = Some ?s"
    using rr sl by (simp add: timer_tick_def round_robin_def get_currenct_thread_def convert_to_mut_type_ref_def)
  moreover have "schedule ?s = Some ?s"
    using rr by (simp add: schedule_def round_robin_def upd_tcb_def)
  moreover have "activateThread ?s = Some ?s"
    using activateThread_running [of ?s] rr st by (simp add: round_robin_def)
  moreover have "round_robin p xs ?s" using rr unfolding round_robin_def K st vs by simp
  ultimately show ?thesis by (auto simp: tick_def)
qed

lemma schedule_rotates:
  assumes inv: "sched_inv s Q" and q: "Q p = t # ts" "\<forall>j < 256. p < j \<longrightarrow> Q j = []" "p < 256"
    and pre: "ready_runnable s" "vspace_wf s" "ksIdleThread s \<noteq> 0" "ksCurThread s \<noteq> 0"
    and cur: "queued s (ksCurThread s)"
  shows "\<exists>s'. schedule (s\<lparr>ksSchedulerAction := SCHEDULER_ACTION_CHOOSE_NEW_THREAD\<rparr>) = Some s' \<and>
    sched_inv s' (Q(p := ts)) \<and> ksCurThread s' = t \<and>
    ksSchedulerAction s' = SCHEDULER_ACTION_RESUME_CURRENT_THREAD \<and>
    ksIdleThread s' = ksIdleThread s \<and> vspace_wf s' \<and>
    (\<forall>x. get_state s' x = get_state s x \<and> prio s' x = prio s x \<and> in_range s' x = in_range s x)"
proof -
  let ?a = "s\<lparr>ksSchedulerAction := SCHEDULER_ACTION_CHOOSE_NEW_THREAD\<rparr>"
  let ?d = "?a\<lparr>ksDomScheduleIdx := 0, ksWorkUnitsCompleted := 0, ksCurDomain := 0, ksDomainTime := 60\<rparr>"
  let ?s = "if ksDomainTime s = 0 then ?d else ?a"
  have run: "schedule ?a = map_option (\<lambda>s. s\<lparr>ksSchedulerAction := SCHEDULER_ACTION_RESUME_CURRENT_THREAD\<rparr>) (choose_thread ?s)"
    using pre(1,4) cur
    by (simp add: schedule_def get_currenct_thread_def convert_to_mut_type_ref_def ready_runnable_def
        sched_enqueue_def queued_def schedule_choose_new_thread_def next_domain_run
        SCHEDULER_ACTION_CHOOSE_NEW_THREAD_def SCHEDULER_ACTION_RESUME_CURRENT_THREAD_def map_conv_bind_option comp_def)
  have d: "sched_inv ?s Q" "ready_runnable ?s" "vspace_wf ?s" "ksIdleThread ?s = ksIdleThread s"
    "get_state ?s = get_state s" "prio ?s = prio s" "in_range ?s = in_range s"
    using inv pre by (simp_all add: ready_runnable_def queued_def is_schedulable_def is_runnable_def
        get_state_def vspace_wf_def prio_def in_range_def fun_eq_iff)
  obtain p' t' ts' s' v where c: "p' < 256" "Q p' = t' # ts'" "\<forall>j < 256. p' < j \<longrightarrow> Q j = []"
    "choose_thread ?s = Some s'" "sched_inv s' (Q(p' := ts'))" "ksCurThread s' = t'"
    "sched_frame (?s\<lparr>ttbr0_el1 := v, ksCurThread := t'\<rparr>) s'"
    using choose_thread_cases [OF d(1-3)] d(4) pre(3) q by auto
  have p: "p' = p" using c(1-3) q by (metis linorder_neqE_nat list.distinct(1))
  note F = sched_frame_fields [OF c(7)] sched_frame_globals [OF c(7)]
  show ?thesis
    using run c F d p q
    by (intro exI [of _ "s'\<lparr>ksSchedulerAction := SCHEDULER_ACTION_RESUME_CURRENT_THREAD\<rparr>"])
      (simp add: get_state_def in_range_def vspace_wf_def fun_eq_iff)
qed

lemma tick_end_of_slice:
  assumes rr: "round_robin p xs s" and sl: "\<not> 1 < tcbTimeSlice (tcb_at s (ksCurThread s))"
  shows "\<exists>s'. tick s = Some s' \<and> round_robin p (tl (xs @ [ksCurThread s])) s' \<and>
    ksCurThread s' = hd (xs @ [ksCurThread s])"
proof -
  let ?c = "ksCurThread s" and ?f = "\<lambda>t. t\<lparr>tcbTimeSlice := CONFIG_TIME_SLICE\<rparr>"
  let ?s = "upd_tcb ?c ?f s"
  obtain Q where Q: "sched_inv s Q" "Q p = xs" "\<forall>j < 256. p < j \<longrightarrow> Q j = []" using rr by (auto simp: round_robin_def)
  have R: "\<forall>x. x = ?c \<or> queued s x \<longrightarrow> get_state s x = ThreadStateRunning" "\<not> queued s ?c" "in_range s ?c" "prio s ?c = p"
    "?c \<noteq> 0" "ksIdleThread s \<noteq> 0" "vspace_wf s" "ksSchedulerAction s = SCHEDULER_ACTION_RESUME_CURRENT_THREAD"
    using rr by (auto simp: round_robin_def)
  have k: "sched_key (?f (tcb_at s ?c)) = sched_key (tcb_at s ?c)" by (simp add: sched_key_def)
  note K = sched_inv_upd_tcb [of ?f s ?c, OF k]
  have st: "get_state ?s x = get_state s x" for x by (simp add: get_state_def)
  have vs: "vspace_wf ?s = vspace_wf s" by (simp add: vspace_wf_def upd_tcb_def)
  obtain s1 where s1: "sched_append ?c ?s = Some s1" "sched_inv s1 (Q(p := xs @ [?c]))" "sched_frame ?s s1"
    using sched_append_inv [of ?s Q ?c] Q R unfolding K by auto
  note F = sched_frame_fields [OF s1(3)] sched_frame_globals [OF s1(3)]
  let ?s1 = "s1\<lparr>ksSchedulerAction := SCHEDULER_ACTION_CHOOSE_NEW_THREAD\<rparr>"
  have p: "p < 256" using R(3,4) by (simp add: in_range_def)
  have q1: "queued s1 x \<longleftrightarrow> x = ?c \<or> queued s x" for x
    unfolding queued_iff [OF s1(2)] queued_iff [OF Q(1)] F(1) K(4) using R(4) p Q(2) by auto
  have run1: "get_state s1 x = ThreadStateRunning" if "queued s1 x" for x using that q1 R(1) F(3) st by auto
  then have "ready_runnable s1" using running_schedulable by (auto simp: ready_runnable_def)
  moreover obtain t ts where tt: "xs @ [?c] = t # ts" by (cases "xs @ [?c]") auto
  ultimately obtain s' where s': "schedule ?s1 = Some s'" "sched_inv s' (Q(p := ts))" "ksCurThread s' = t"
    "ksSchedulerAction s' = SCHEDULER_ACTION_RESUME_CURRENT_THREAD" "ksIdleThread s' = ksIdleThread s" "vspace_wf s'"
    "\<forall>x. get_state s' x = get_state s1 x \<and> prio s' x = prio s1 x \<and> in_range s' x = in_range s1 x"
    using schedule_rotates [OF s1(2), of p t ts] Q(3) p R F q1 vs by auto
  have t: "queued s1 t" "prio s1 t = p" "t \<noteq> 0" using sched_inv_head(2-4) [OF s1(2) p, of t ts] tt by simp_all
  have d: "distinct (t # ts)" using sched_inv_distinct [OF s1(2) p] tt by simp
  have q': "queued s' x \<longrightarrow> queued s1 x" for x
    unfolding queued_iff [OF s'(2)] queued_iff [OF s1(2)] using s'(7) tt by auto
  have nq: "\<not> queued s' t" unfolding queued_iff [OF s'(2)] using s'(7) t d by auto
  have "timer_tick s = Some ?s1"
    using R sl s1(1) F by (simp add: timer_tick_def get_currenct_thread_def convert_to_mut_type_ref_def reschedule_required_def)
  moreover have "activateThread s' = Some s'"
    using activateThread_running [of s'] s' t run1 by simp
  moreover have "round_robin p ts s'"
    unfolding round_robin_def
    by (intro conjI exI [of _ "Q(p := ts)"]) (use s' t nq q' run1 R(6) Q(3) sched_invD(5) [OF s1(2) t(1)] in auto)
  ultimately show ?thesis using s' tt by (auto simp: tick_def)
qed

lemma ticks_add: "ticks (m + n) s = ticks m s \<bind> ticks n"
  by (induction m arbitrary: s) (auto simp: bind_assoc)

lemma slice_ends:
  "round_robin p xs s \<Longrightarrow> \<exists>n s'. ticks n s = Some s' \<and> round_robin p (tl (xs @ [ksCurThread s])) s' \<and>
    ksCurThread s' = hd (xs @ [ksCurThread s])"
proof (induction "unat (tcbTimeSlice (tcb_at s (ksCurThread s)))" arbitrary: s rule: less_induct)
  case less
  let ?sl = "tcbTimeSlice (tcb_at s (ksCurThread s))"
  show ?case
  proof (cases "1 < ?sl")
    case True
    then obtain s1 where s1: "tick s = Some s1" "round_robin p xs s1" "ksCurThread s1 = ksCurThread s"
      "tcbTimeSlice (tcb_at s1 (ksCurThread s)) = ?sl - 1" using tick_within_slice [OF less.prems] by blast
    have "unat (?sl - 1) < unat ?sl" by (rule measure_unat) (use True in auto)
    then obtain n s' where "ticks n s1 = Some s'" "round_robin p (tl (xs @ [ksCurThread s1])) s'"
      "ksCurThread s' = hd (xs @ [ksCurThread s1])" using less.hyps [OF _ s1(2)] s1(3,4) by auto
    then show ?thesis using s1 by (intro exI [of _ "Suc n"] exI [of _ s']) simp
  next
    case False
    then obtain s1 where "tick s = Some s1" "round_robin p (tl (xs @ [ksCurThread s])) s1"
      "ksCurThread s1 = hd (xs @ [ksCurThread s])" using tick_end_of_slice [OF less.prems] by blast
    then show ?thesis by (intro exI [of _ "Suc 0"] exI [of _ s1]) simp
  qed
qed

lemma round_robin_runs:
  "round_robin p (as @ x # bs) s \<Longrightarrow> \<exists>n s'. ticks n s = Some s' \<and> ksCurThread s' = x"
proof (induction as arbitrary: s bs)
  case Nil
  then show ?case using slice_ends [of p "x # bs" s] by auto
next
  case (Cons a as)
  obtain n s1 where s1: "ticks n s = Some s1" "round_robin p (as @ x # bs @ [ksCurThread s]) s1"
    using slice_ends [OF Cons.prems] by auto
  obtain m s' where "ticks m s1 = Some s'" "ksCurThread s' = x" using Cons.IH [OF s1(2)] by blast
  with s1(1) show ?case by (intro exI [of _ "n + m"] exI [of _ s']) (simp add: ticks_add)
qed

section \<open>Stopping and restarting\<close>

lemma resched_frame_arch: "resched_frame s s' \<Longrightarrow> tcbArch (tcb_at s' t) = tcbArch (tcb_at s t)"
  by (rule resched_frame_fields(6))

lemma suspend_run:
  assumes ok: "sched_ok s"
  shows "\<exists>s'. suspend p s = Some s' \<and> sched_ok s' \<and> resched_frame (set_tsType p ThreadStateInactive s) s' \<and>
    \<not> queued s' p"
proof -
  have same: "upd_tcb p (\<lambda>t. t\<lparr>tcbArch := (tcbArch (tcb_at s p))(34 := tcbArch (tcb_at s p) 34)\<rparr>) s = s"
    by (simp add: upd_tcb_def)
  obtain s1 where s1: "set_thread_state p ThreadStateInactive s = Some s1" "sched_ok s1"
    "resched_frame (set_tsType p ThreadStateInactive s) s1" using set_thread_state_ok [OF ok] by blast
  obtain s2 where s2: "sched_dequeue p s1 = Some s2" "sched_ok s2" "resched_frame s1 s2" "\<not> queued s2 p"
    using sched_dequeue_ok [OF s1(2)] by blast
  have "suspend p s = sched_dequeue p s1"
    using s1(1) same by (simp add: suspend_def get_register_def set_register_def)
  then show ?thesis using s2 resched_frame_trans [OF s1(3) s2(3)] by auto
qed

lemma resched_frame_ctes:
  "sched_ok (s\<lparr>ks_ctes := h\<rparr>) = sched_ok s"
proof -
  have k: "\<And>p. sched_key (tcb_at (s\<lparr>ks_ctes := h\<rparr>) p) = sched_key (tcb_at s p)" by simp
  show ?thesis using sched_inv_key [OF k] by (simp add: sched_ok_def)
qed

lemma restart_run:
  assumes ok: "sched_ok s" and p: "in_range s p" "p \<noteq> 0" and st: "get_state s p = ThreadStateInactive"
  shows "\<exists>s'. restart p s = Some s' \<and> sched_ok s' \<and> get_state s' p = ThreadStateRestart \<and>
    tcbArch (tcb_at s' p) = tcbArch (tcb_at s p)"
proof -
  let ?s = "setup_reply_master p s"
  have tc: "tcb_at ?s = tcb_at s" and ok0: "sched_ok ?s"
    using ok by (simp_all add: setup_reply_master_def Let_def resched_frame_ctes)
  let ?s1 = "set_tsType p ThreadStateRestart ?s"
  have ok1: "sched_ok ?s1"
    using ok0 sched_inv_upd_tcb(5) [of "tcbState_update (\<lambda>ts. ts\<lparr>tsType := ThreadStateRestart\<rparr>)" ?s p]
    by (simp add: set_tsType_def sched_key_def)
  have p1: "in_range ?s1 p" using p(1) tc by (simp add: set_tsType_def in_range_def prio_def)
  have sch: "is_schedulable ?s1 p" by (simp add: is_schedulable_def is_runnable_def get_state_def set_tsType_def)
  obtain s2 where s2: "sched_enqueue p ?s1 = Some s2" "sched_ok s2" "resched_frame ?s1 s2"
    using sched_enqueue_ok [OF ok1 p1 p(2)] by blast
  have p2: "in_range s2 p" using p1 resched_frame_fields(2) [OF s2(3)] by simp
  obtain s3 where s3: "possible_switch_to p s2 = Some s3" "sched_ok s3" "resched_frame s2 s3"
    using possible_switch_to_ok [OF s2(2) p2 p(2)] by blast
  note fr = resched_frame_trans [OF s2(3) s3(3)]
  have "restart p s = Some s3"
    using st sch s2(1) s3(1) by (simp add: restart_def is_stopped_def set_thread_state_def schedule_tcb_def Let_def)
  then show ?thesis
    using s3(2) resched_frame_fields(3,6) [OF fr, of p] tc by (auto simp: set_tsType_def get_state_def)
qed

section \<open>Sample states\<close>

definition sample_thread :: "word64 \<Rightarrow> bool \<Rightarrow> tcb_t" where
  "sample_thread pr q = empty_tcb\<lparr>tcbPriority := pr, tcbArch := (\<lambda>_. 0)(32 := 0x8000, 34 := 0x4000),
     tcbState := (tcbState empty_tcb)\<lparr>tsType := ThreadStateRunning, tcbQueued := q\<rparr>\<rparr>"

definition sample_sched :: kstate where
  "sample_sched = empty_kstate\<lparr>
     ks_tcbs := (\<lambda>_. empty_tcb)(0x1000 := sample_thread 5 False, 0x2000 := sample_thread 9 False),
     ksCurThread := 0x1000, ksIdleThread := 0x500, ksSchedulerAction := 0x2000\<rparr>"

definition sample_ready :: kstate where
  "sample_ready = empty_kstate\<lparr>
     ks_tcbs := (\<lambda>_. empty_tcb)(0x1000 := sample_thread 5 False, 0x2000 := sample_thread 5 True),
     ksReadyQueues := (replicate 256 \<lparr>q_head = 0, q_tail = 0\<rparr>)[5 := \<lparr>q_head = 0x2000, q_tail = 0x2000\<rparr>],
     ksReadyQueuesL1Bitmap := [1], ksReadyQueuesL2Bitmap := [[0, 0, 0, 32]],
     ksCurThread := 0x1000, ksIdleThread := 0x500, ksSchedulerAction := 0\<rparr>"

lemma sample_sched_inv: "sched_inv sample_sched (\<lambda>_. [])"
  by (simp add: sched_inv_def bitmaps_def bitmap_ok_def sched_queue_def queue_rep_def dll_def queued_def
      unlinked_def sc_nx_def sc_pv_def sample_sched_def sample_thread_def empty_kstate_def empty_tcb_def nth_Cons'
      less_mult_imp_div_less)

lemma sample_bitmap: "bitmap_ok 1 [0, 0, 0, 32] (\<lambda>i. ((\<lambda>_. [])(5 := [0x2000 :: ptr])) i \<noteq> [])"
proof -
  have five: "bit (32 :: word64) n \<longleftrightarrow> n = 5" for n
    using bit_exp_iff [of 5 n, where 'a = word64] by auto
  have "bit ([0, 0, 0, 32 :: word64] ! (3 - i div 64)) (i mod 64) \<longleftrightarrow> i = 5" if "i < 256" for i :: nat
  proof -
    have "i div 64 \<in> {0, 1, 2, 3}" using that by auto
    then consider "3 - i div 64 < 3" "i \<noteq> 5" | "i < 64" by fastforce
    then show ?thesis using five [of i] by cases (simp_all add: nth_Cons')
  qed
  moreover have "bit (1 :: word64) j \<longleftrightarrow> j < 4 \<and> [0, 0, 0, 32 :: word64] ! (3 - j) \<noteq> 0" for j
    by (auto simp: bit_1_iff nth_Cons')
  ultimately show ?thesis by (simp add: bitmap_ok_def)
qed

lemma sample_ready_inv: "sched_inv sample_ready ((\<lambda>_. [])(5 := [0x2000]))"
  using sample_bitmap
  by (auto simp: sched_inv_def bitmaps_def sched_queue_def queue_rep_def dll_def queued_def prio_def in_range_def
      unlinked_def sc_nx_def sc_pv_def sample_ready_def sample_thread_def empty_kstate_def empty_tcb_def
      nth_list_update)

lemma sample_wf: "vspace_wf sample_sched" "vspace_wf sample_ready"
  by (simp_all add: sample_sched_def sample_ready_def empty_kstate_def vspace_wf_def)

lemma sample_pre: "sched_pre sample_sched" "action_ok sample_sched"
  using sample_sched_inv sample_wf
  by (auto simp: sched_pre_def action_ok_def ready_runnable_def queued_def in_range_def prio_def is_schedulable_def
      is_runnable_def get_state_def sample_sched_def sample_thread_def empty_kstate_def empty_tcb_def)

lemma sample_round_robin: "round_robin 5 [0x2000] sample_ready"
  unfolding round_robin_def
  by (intro conjI exI [of _ "(\<lambda>_. [])(5 := [0x2000])"] sample_ready_inv sample_wf)
    (auto simp: queued_def in_range_def prio_def get_state_def sample_ready_def sample_thread_def empty_kstate_def
      empty_tcb_def SCHEDULER_ACTION_RESUME_CURRENT_THREAD_def)

section \<open>Properties of the scheduler\<close>

text \<open>
  C12: In a well-formed scheduler state \<open>schedule\<close> returns; when a scheduling decision is pending it leaves
  the scheduler well formed with nothing pending, and the thread it made current is either a schedulable thread
  that is out of the ready queues and has at least the priority of every thread still in them, or the idle
  thread, and then the ready queues are empty.
\<close>

theorem schedule_picks_highest:
  assumes "sched_pre s" "action_ok s"
  shows "\<exists>s'. schedule s = Some s' \<and> ksSchedulerAction s' = SCHEDULER_ACTION_RESUME_CURRENT_THREAD \<and>
    (ksSchedulerAction s = SCHEDULER_ACTION_RESUME_CURRENT_THREAD \<longrightarrow> s' = s) \<and>
    (ksSchedulerAction s \<noteq> SCHEDULER_ACTION_RESUME_CURRENT_THREAD \<longrightarrow> sched_outcome s')"
proof (cases "ksSchedulerAction s = SCHEDULER_ACTION_RESUME_CURRENT_THREAD")
  case True
  then have "schedule s = Some s" by (simp add: schedule_def)
  with True show ?thesis by simp
next
  case False
  then show ?thesis using schedule_outcome [OF assms] by auto
qed

theorem schedule_picks_highest_witness:
  "sched_pre sample_sched \<and> action_ok sample_sched \<and> (\<exists>s'. schedule sample_sched = Some s' \<and> sched_outcome s')"
  using schedule_picks_highest [OF sample_pre] sample_pre
  by (auto simp: sample_sched_def SCHEDULER_ACTION_RESUME_CURRENT_THREAD_def)

text \<open>
  C15: The search in the two-level bitmap returns, for every non-empty set of ready threads, the highest
  priority whose ready queue is not empty.
\<close>

theorem get_highest_prio_correct:
  assumes "sched_inv s Q" "i < 256" "Q i \<noteq> []"
  shows "\<exists>p < 256. get_highest_prio 0 s = Some (of_nat p) \<and> Q p \<noteq> [] \<and> (\<forall>j < 256. p < j \<longrightarrow> Q j = [])"
  using get_highest_prio_bitmap [OF sched_invD(1) [OF assms(1)] assms(2,3)] by simp

theorem get_highest_prio_correct_witness: "get_highest_prio 0 sample_ready = Some 5"
proof -
  obtain p where p: "get_highest_prio 0 sample_ready = Some (of_nat p)" "((\<lambda>_. [])(5 := [0x2000 :: ptr])) p \<noteq> []"
    using get_highest_prio_correct [OF sample_ready_inv, of 5] by auto
  then have "p = 5" by (auto split: if_splits)
  with p(1) show ?thesis by simp
qed

text \<open>
  C13: The doubly linked ready queues with their two-level bitmap implement the abstract family of queues that
  maps each priority to a list of threads: enqueueing puts a thread at the front of the list of its priority,
  appending at the back, and dequeueing takes exactly that thread out of its list.
\<close>

theorem ready_queues_refine:
  assumes "sched_inv s Q" "in_range s t" "t \<noteq> 0"
  shows "(\<not> queued s t \<longrightarrow> (\<exists>s'. sched_enqueue t s = Some s' \<and> sched_inv s' (Q(prio s t := t # Q (prio s t))))) \<and>
    (\<not> queued s t \<longrightarrow> (\<exists>s'. sched_append t s = Some s' \<and> sched_inv s' (Q(prio s t := Q (prio s t) @ [t])))) \<and>
    (queued s t \<longrightarrow> (\<exists>s'. sched_dequeue t s = Some s' \<and> sched_inv s' (Q(prio s t := remove1 t (Q (prio s t))))))"
proof -
  have "\<exists>s'. sched_dequeue t s = Some s' \<and> sched_inv s' (Q(prio s t := remove1 t (Q (prio s t))))" if q: "queued s t"
  proof -
    obtain s' as bs where s': "Q (prio s t) = as @ t # bs" "sched_dequeue t s = Some s'"
      "sched_inv s' (Q(prio s t := as @ bs))" using sched_dequeue_inv [OF assms(1) q] by blast
    have "t \<notin> set as" using sched_inv_distinct [OF assms(1), of "prio s t"] assms(2) s'(1) by (auto simp: in_range_def)
    then have "remove1 t (Q (prio s t)) = as @ bs" using s'(1) by (simp add: remove1_append)
    with s' show ?thesis by auto
  qed
  then show ?thesis
    using sched_enqueue_inv [OF assms(1,2) _ assms(3)] sched_append_inv [OF assms(1,2) _ assms(3)] by blast
qed

theorem ready_queues_refine_witness:
  "\<exists>s'. sched_dequeue 0x2000 sample_ready = Some s' \<and> sched_inv s' ((\<lambda>_. [])(5 := []))"
  using ready_queues_refine [OF sample_ready_inv, of "0x2000"]
  by (simp add: in_range_def prio_def queued_def sample_ready_def sample_thread_def empty_tcb_def)

text \<open>
  C14: Round robin is free of starvation: among running threads of the highest ready priority, every queued
  thread becomes the current thread after finitely many timer ticks, each followed by \<open>schedule\<close> and
  \<open>activateThread\<close> as at the end of a kernel entry.
\<close>

theorem round_robin_no_starvation:
  assumes "round_robin p xs s" "x \<in> set xs"
  shows "\<exists>n s'. ticks n s = Some s' \<and> ksCurThread s' = x"
  using round_robin_runs assms by (metis split_list)

theorem round_robin_no_starvation_witness:
  "round_robin 5 [0x2000] sample_ready \<and> (\<exists>n s'. ticks n sample_ready = Some s' \<and> ksCurThread s' = 0x2000)"
  using round_robin_no_starvation [OF sample_round_robin, of "0x2000"] sample_round_robin by simp

text \<open>
  C16: Stopping a running thread and restarting it resumes the thread at the program counter held in its fault
  register, not at the one it was running at: \<open>suspend\<close> saves the fault register into itself and the next
  program counter is lost.
\<close>

theorem restart_resumes_at_fault_ip:
  assumes ok: "sched_ok s" and p: "in_range s p" "p \<noteq> 0" and st: "get_state s p = ThreadStateRunning"
  shows "\<exists>s1 s2 s3. suspend p s = Some s1 \<and> restart p s1 = Some s2 \<and>
    activateThread (s2\<lparr>ksCurThread := p\<rparr>) = Some s3 \<and>
    get_register (tcbArch (tcb_at s3 p)) NextIP = get_register (tcbArch (tcb_at s p)) FaultIP"
proof -
  obtain s1 where s1: "suspend p s = Some s1" "sched_ok s1" "resched_frame (set_tsType p ThreadStateInactive s) s1"
    using suspend_run [OF ok] by blast
  note F = resched_frame_fields [OF s1(3)]
  have "in_range s1 p" "get_state s1 p = ThreadStateInactive"
    using F p(1) by (simp_all add: set_tsType_def in_range_def prio_def get_state_def)
  from restart_run [OF s1(2) this(1) p(2) this(2)] obtain s2 where s2: "restart p s1 = Some s2" "sched_ok s2"
    "get_state s2 p = ThreadStateRestart" "tcbArch (tcb_at s2 p) = tcbArch (tcb_at s1 p)" by blast
  let ?c = "s2\<lparr>ksCurThread := p\<rparr>"
  let ?u = "upd_tcb p (\<lambda>t. t\<lparr>tcbArch := (tcbArch t)(32 := tcbArch t 34)\<rparr>) ?c"
  have ok3: "sched_ok ?u"
    using s2(2) sched_inv_upd_tcb(5) [of "\<lambda>t. t\<lparr>tcbArch := (tcbArch t)(32 := tcbArch t 34)\<rparr>" ?c p]
    by (simp add: sched_key_def sched_ok_def in_range_def)
  obtain s3 where s3: "set_thread_state p ThreadStateRunning ?u = Some s3"
    "resched_frame (set_tsType p ThreadStateRunning ?u) s3" using set_thread_state_ok [OF ok3] by blast
  have "activateThread ?c = Some s3"
    using s2(3) s3(1) p(2)
    by (simp add: activateThread_def get_currenct_thread_def convert_to_mut_type_ref_def get_state_def
        get_register_def set_register_def upd_tcb_def)
  moreover have "tcbArch (tcb_at s3 p) 32 = tcbArch (tcb_at s p) 34"
    using resched_frame_arch [OF s3(2), of p] s2(4) F(6) [of p] by (simp add: set_tsType_def)
  ultimately show ?thesis using s1 s2 by (auto simp: get_register_def)
qed

theorem restart_resumes_at_fault_ip_witness:
  "get_register (tcbArch (tcb_at sample_ready 0x1000)) NextIP = Some 0x8000 \<and> (\<exists>s1 s2 s3. suspend 0x1000 sample_ready = Some s1 \<and> restart 0x1000 s1 = Some s2 \<and>
    activateThread (s2\<lparr>ksCurThread := 0x1000\<rparr>) = Some s3 \<and>
    get_register (tcbArch (tcb_at s3 0x1000)) NextIP = Some 0x4000)"
proof -
  have "sched_ok sample_ready" using sample_ready_inv by (auto simp: sched_ok_def sample_ready_def)
  from restart_resumes_at_fault_ip [OF this, of "0x1000"] show ?thesis
    by (simp add: in_range_def prio_def get_state_def get_register_def sample_ready_def sample_thread_def empty_tcb_def)
qed

end
