(* ===== verification/Message.thy ===== *)
theory Message
  imports Scheduler
begin

text \<open>
  Message passing at the level of threads (\<^verbatim>\<open>sel4_task/src/tcb.rs\<close>): the message information word
  (\<^verbatim>\<open>sel4_common/src/message_info.rs\<close>), the lookup of IPC buffers, of the extra capabilities of a message
  and of the receive slot, and the operations that copy message registers and fault descriptions from one thread
  to another.  An IPC buffer is addressed by its kernel virtual address; buffers do not overlap.
\<close>

section \<open>Message information\<close>

type_synonym seL4_MessageInfo = word64

definition SEL4_MSG_MAX_LENGTH :: word64 where "SEL4_MSG_MAX_LENGTH = 120"
definition SEL4_MSG_MAX_EXTRA_CAPS :: nat where "SEL4_MSG_MAX_EXTRA_CAPS = 3"
definition MESSAGE_ID_SYSCALL :: nat where "MESSAGE_ID_SYSCALL = 0"
definition MESSAGE_ID_EXCEPTION :: nat where "MESSAGE_ID_EXCEPTION = 1"

definition mi_new :: "word64 \<Rightarrow> word64 \<Rightarrow> word64 \<Rightarrow> word64 \<Rightarrow> seL4_MessageInfo" where
  "mi_new label capsUnwrapped extraCaps len =
     push_bit 12 (take_bit 52 label) OR push_bit 9 (take_bit 3 capsUnwrapped) OR
     push_bit 7 (take_bit 2 extraCaps) OR take_bit 7 len"

definition mi_get_label :: "seL4_MessageInfo \<Rightarrow> word64" where "mi_get_label w = drop_bit 12 w"
definition mi_get_capsUnwrapped :: "seL4_MessageInfo \<Rightarrow> word64" where
  "mi_get_capsUnwrapped w = take_bit 3 (drop_bit 9 w)"
definition mi_get_extraCaps :: "seL4_MessageInfo \<Rightarrow> word64" where
  "mi_get_extraCaps w = take_bit 2 (drop_bit 7 w)"
definition mi_get_length :: "seL4_MessageInfo \<Rightarrow> word64" where "mi_get_length w = take_bit 7 w"

definition mi_set_capsUnwrapped :: "word64 \<Rightarrow> seL4_MessageInfo \<Rightarrow> seL4_MessageInfo" where
  "mi_set_capsUnwrapped v w = (w AND NOT (push_bit 9 (mask 3))) OR push_bit 9 (take_bit 3 v)"
definition mi_set_extraCaps :: "word64 \<Rightarrow> seL4_MessageInfo \<Rightarrow> seL4_MessageInfo" where
  "mi_set_extraCaps v w = (w AND NOT (push_bit 7 (mask 2))) OR push_bit 7 (take_bit 2 v)"
definition mi_set_length :: "word64 \<Rightarrow> seL4_MessageInfo \<Rightarrow> seL4_MessageInfo" where
  "mi_set_length v w = (w AND NOT (mask 7)) OR take_bit 7 v"

definition from_word_security :: "word64 \<Rightarrow> seL4_MessageInfo" where
  "from_word_security w =
    (if mi_get_length w > SEL4_MSG_MAX_LENGTH then mi_set_length SEL4_MSG_MAX_LENGTH w else w)"

section \<open>Words of an IPC buffer\<close>

text \<open>
  \<open>copy_mrs\<close> walks the buffers as arrays of words: word 0 is the tag, word \<open>i + 1\<close> the message word \<open>i\<close>, and
  the fields after the message follow in the order of the structure.
\<close>

definition buf_get_word :: "seL4_IPCBuffer \<Rightarrow> nat \<Rightarrow> word64 option" where
  "buf_get_word b k =
    (if k = 0 then Some (buf_tag b)
     else if k < 121 then nth_opt (buf_msg b) (k - 1)
     else if k = 121 then Some (buf_userData b)
     else if k < 125 then nth_opt (caps_or_badges b) (k - 122)
     else if k = 125 then Some (receiveCNode b)
     else if k = 126 then Some (receiveIndex b)
     else if k = 127 then Some (receiveDepth b)
     else None)"

definition buf_set_word :: "nat \<Rightarrow> word64 \<Rightarrow> seL4_IPCBuffer \<Rightarrow> seL4_IPCBuffer option" where
  "buf_set_word k v b =
    (if k = 0 then Some (b\<lparr>buf_tag := v\<rparr>)
     else if k < 121 then Some (b\<lparr>buf_msg := (buf_msg b)[k - 1 := v]\<rparr>)
     else if k = 121 then Some (b\<lparr>buf_userData := v\<rparr>)
     else if k < 125 then Some (b\<lparr>caps_or_badges := (caps_or_badges b)[k - 122 := v]\<rparr>)
     else if k = 125 then Some (b\<lparr>receiveCNode := v\<rparr>)
     else if k = 126 then Some (b\<lparr>receiveIndex := v\<rparr>)
     else if k = 127 then Some (b\<lparr>receiveDepth := v\<rparr>)
     else None)"

definition set_buf_msg :: "ptr \<Rightarrow> nat \<Rightarrow> word64 \<Rightarrow> kstate \<Rightarrow> kstate option" where
  "set_buf_msg b i v s = do {
     kassert (i < length (buf_msg (ks_bufs s b)));
     Some (upd_buf b (\<lambda>u. u\<lparr>buf_msg := (buf_msg u)[i := v]\<rparr>) s)
   }"

definition get_extra_cptr :: "seL4_IPCBuffer \<Rightarrow> nat \<Rightarrow> word64 option" where
  "get_extra_cptr b i = nth_opt (caps_or_badges b) i"

definition set_reg :: "ptr \<Rightarrow> ArchReg \<Rightarrow> word64 \<Rightarrow> kstate \<Rightarrow> kstate option" where
  "set_reg p r v s = do {
     a \<leftarrow> set_register (tcbArch (tcb_at s p)) r v;
     Some (upd_tcb p (\<lambda>t. t\<lparr>tcbArch := a\<rparr>) s)
   }"

definition get_reg :: "ptr \<Rightarrow> ArchReg \<Rightarrow> kstate \<Rightarrow> word64 option" where
  "get_reg p r s = get_register (tcbArch (tcb_at s p)) r"

section \<open>Lookups\<close>

record lookupSlot_raw_ret_t =
  ls_status :: exception_t
  ls_slot :: ptr

definition lookup_slot :: "ptr \<Rightarrow> word64 \<Rightarrow> kstate \<Rightarrow> lookupSlot_raw_ret_t option" where
  "lookup_slot p cap_ptr s = do {
     let thread_root = capability (ks_ctes s (get_cspace p TCB_CTABLE));
     res \<leftarrow> resolve_address_bits (ks_ctes s) thread_root cap_ptr WORD_BITS;
     Some \<lparr> ls_status = ra_status res, ls_slot = ra_slot res \<rparr>
   }"

definition buffer_address :: "cap \<Rightarrow> word64 \<Rightarrow> ptr option" where
  "buffer_address buffer_cap w_buffer_ptr = do {
     page_bits \<leftarrow> pageBitsForSize (ucast (capFSize buffer_cap));
     convert_to_mut_type_ref (capFBasePtr buffer_cap + (w_buffer_ptr AND mask_bits page_bits))
   }"

definition buffer_rights_ok :: "cap \<Rightarrow> bool \<Rightarrow> bool" where
  "buffer_rights_ok buffer_cap is_receiver \<longleftrightarrow>
     capFVMRights buffer_cap = vm_rights_word VMReadWrite \<or>
     \<not> is_receiver \<and> capFVMRights buffer_cap = vm_rights_word VMReadOnly"

definition lookup_ipc_buffer :: "ptr \<Rightarrow> bool \<Rightarrow> kstate \<Rightarrow> ptr option option" where
  "lookup_ipc_buffer p is_receiver s =
    (let w_buffer_ptr = tcbIPCBuffer (tcb_at s p);
         buffer_cap = capability (ks_ctes s (get_cspace p TCB_BUFFER)) in
     if \<not> is_cap_frame_cap buffer_cap then Some None
     else if capFIsDevice buffer_cap then Some None
     else if buffer_rights_ok buffer_cap is_receiver
       then map_option Some (buffer_address buffer_cap w_buffer_ptr)
     else Some None)"

definition lookup_mut_ipc_buffer :: "ptr \<Rightarrow> bool \<Rightarrow> kstate \<Rightarrow> ptr option option" where
  "lookup_mut_ipc_buffer p is_receiver s =
    (let w_buffer_ptr = tcbIPCBuffer (tcb_at s p);
         buffer_cap = capability (ks_ctes s (get_cspace p TCB_BUFFER)) in
     if \<not> is_cap_frame_cap buffer_cap then Some None
     else if buffer_rights_ok buffer_cap is_receiver
       then map_option Some (buffer_address buffer_cap w_buffer_ptr)
     else Some None)"

text \<open>The loop over the extra capabilities of a message: \<open>n\<close> iterations are left and the next index is \<open>i\<close>.\<close>

primrec extra_caps_loop ::
  "nat \<Rightarrow> ptr \<Rightarrow> seL4_IPCBuffer \<Rightarrow> nat \<Rightarrow> ptr list \<Rightarrow> kstate \<Rightarrow> ((exception_t \<times> word64) option \<times> ptr list) option" where
  "extra_caps_loop 0 p buf i res s =
     Some (None, if i < SEL4_MSG_MAX_EXTRA_CAPS then res[i := 0] else res)"
| "extra_caps_loop (Suc n) p buf i res s = do {
     cptr \<leftarrow> get_extra_cptr buf i;
     lu_ret \<leftarrow> lookup_slot p cptr s;
     if ls_status lu_ret \<noteq> EXCEPTION_NONE then Some (Some (ls_status lu_ret, cptr), res)
     else do {
       kassert (i < length res);
       extra_caps_loop n p buf (i + 1) (res[i := ls_slot lu_ret]) s
     }
   }"

definition lookup_extra_caps :: "ptr \<Rightarrow> ptr list \<Rightarrow> kstate \<Rightarrow> (exception_t \<times> ptr list \<times> kstate) option" where
  "lookup_extra_caps p res s = do {
     w \<leftarrow> get_reg p MsgInfo s;
     let info = from_word_security w;
     b \<leftarrow> lookup_ipc_buffer p False s;
     case b of
       None \<Rightarrow> Some (EXCEPTION_NONE, res[0 := 0], s)
     | Some buffer \<Rightarrow> do {
         (r, res) \<leftarrow> extra_caps_loop (unat (mi_get_extraCaps info)) p (ks_bufs s buffer) 0 res s;
         case r of
           Some (st, cptr) \<Rightarrow> Some (st, res, s\<lparr>current_fault := seL4_Fault_CapFault cptr False\<rparr>)
         | None \<Rightarrow> Some (EXCEPTION_NONE, res, s)
       }
   }"

definition lookup_extra_caps_with_buf ::
  "ptr \<Rightarrow> ptr list \<Rightarrow> ptr option \<Rightarrow> kstate \<Rightarrow> (seL4_Fault option \<times> ptr list) option" where
  "lookup_extra_caps_with_buf p res buf s = do {
     w \<leftarrow> get_reg p MsgInfo s;
     let info = from_word_security w;
     case buf of
       None \<Rightarrow> Some (None, res)
     | Some buffer \<Rightarrow> do {
         (r, res) \<leftarrow> extra_caps_loop (unat (mi_get_extraCaps info)) p (ks_bufs s buffer) 0 res s;
         Some (map_option (\<lambda>(_, cptr). seL4_Fault_CapFault cptr False) r, res)
       }
   }"

definition get_receive_slot :: "ptr \<Rightarrow> kstate \<Rightarrow> ptr option option" where
  "get_receive_slot p s = do {
     b \<leftarrow> lookup_ipc_buffer p True s;
     case b of
       None \<Rightarrow> Some None
     | Some buffer \<Rightarrow> do {
         let buf = ks_bufs s buffer;
         lu_ret \<leftarrow> lookup_slot p (receiveCNode buf) s;
         if ls_status lu_ret \<noteq> EXCEPTION_NONE then Some None
         else do {
           let cnode_cap = capability (ks_ctes s (ls_slot lu_ret));
           lus_ret \<leftarrow> resolve_address_bits (ks_ctes s) cnode_cap (receiveIndex buf) (receiveDepth buf);
           if ra_status lus_ret \<noteq> EXCEPTION_NONE \<or> ra_bitsRemaining lus_ret \<noteq> 0 then Some None
           else map_option Some (convert_to_mut_type_ref (ra_slot lus_ret))
         }
       }
   }"

section \<open>Message registers\<close>

definition set_mr :: "ptr \<Rightarrow> nat \<Rightarrow> word64 \<Rightarrow> kstate \<Rightarrow> (nat \<times> kstate) option" where
  "set_mr p offset reg s =
    (if offset \<ge> MSG_REGISTER_NUM then do {
       b \<leftarrow> lookup_mut_ipc_buffer p True s;
       case b of
         Some ipc_buffer \<Rightarrow> do {
           s \<leftarrow> set_buf_msg ipc_buffer offset reg s;
           Some (offset + 1, s)
         }
       | None \<Rightarrow> Some (MSG_REGISTER_NUM, s)
     } else do {
       s \<leftarrow> set_reg p (Msg offset) reg s;
       Some (offset + 1, s)
     })"

definition CAP_FAULT_LOOKUP_FAILURE_TYPE :: nat where "CAP_FAULT_LOOKUP_FAILURE_TYPE = 3"

fun lookup_fault_tag :: "lookup_fault \<Rightarrow> word64" where
  "lookup_fault_tag invalid_root = 0"
| "lookup_fault_tag (missing_capability _) = 1"
| "lookup_fault_tag (depth_mismatch _ _) = 2"
| "lookup_fault_tag (guard_mismatch _ _ _) = 3"

definition set_lookup_fault_mrs :: "ptr \<Rightarrow> nat \<Rightarrow> lookup_fault \<Rightarrow> kstate \<Rightarrow> (nat \<times> kstate) option" where
  "set_lookup_fault_mrs p offset fault s = do {
     (i, s) \<leftarrow> set_mr p offset (lookup_fault_tag fault + 1) s;
     kassert (offset = CAP_FAULT_LOOKUP_FAILURE_TYPE \<or> offset = 1);
     case fault of
       invalid_root \<Rightarrow> Some (i, s)
     | missing_capability bl \<Rightarrow> set_mr p (offset + 1) (ucast bl) s
     | depth_mismatch bf bl \<Rightarrow> do {
         (_, s) \<leftarrow> set_mr p (offset + 1) (ucast bl) s;
         set_mr p (offset + 2) (ucast bf) s
       }
     | guard_mismatch gf bl bf \<Rightarrow> do {
         (_, s) \<leftarrow> set_mr p (offset + 1) (ucast bl) s;
         (_, s) \<leftarrow> set_mr p (offset + 2) gf s;
         set_mr p (offset + 3) (ucast bf) s
       }
   }"

text \<open>The two loops of \<open>copy_mrs\<close>: over registers, then over the words of the buffers.\<close>

primrec copy_regs :: "nat list \<Rightarrow> ptr \<Rightarrow> (nat \<Rightarrow> ArchReg) \<Rightarrow> ptr \<Rightarrow> (nat \<Rightarrow> ArchReg) \<Rightarrow> kstate \<Rightarrow> kstate option" where
  "copy_regs [] src f dst g s = Some s"
| "copy_regs (i # is) src f dst g s = do {
     v \<leftarrow> get_reg src (f i) s;
     s \<leftarrow> set_reg dst (g i) v s;
     copy_regs is src f dst g s
   }"

primrec copy_words :: "nat list \<Rightarrow> ptr \<Rightarrow> ptr \<Rightarrow> kstate \<Rightarrow> kstate option" where
  "copy_words [] send_ptr recv_ptr s = Some s"
| "copy_words (i # is) send_ptr recv_ptr s = do {
     v \<leftarrow> buf_get_word (ks_bufs s send_ptr) (i + 1);
     b \<leftarrow> buf_set_word (i + 1) v (ks_bufs s recv_ptr);
     copy_words is send_ptr recv_ptr (upd_buf recv_ptr (\<lambda>_. b) s)
   }"

definition copy_mrs :: "ptr \<Rightarrow> ptr \<Rightarrow> nat \<Rightarrow> kstate \<Rightarrow> (nat \<times> kstate) option" where
  "copy_mrs self receiver len s = do {
     let n = min len MSG_REGISTER_NUM;
     s \<leftarrow> copy_regs [0 ..< n] self Msg receiver Msg s;
     send_buffer \<leftarrow> lookup_ipc_buffer self False s;
     recv_buffer \<leftarrow> lookup_mut_ipc_buffer receiver True s;
     case (send_buffer, recv_buffer) of
       (Some send_ptr, Some recv_ptr) \<Rightarrow> do {
         s \<leftarrow> copy_words [n ..< len] send_ptr recv_ptr s;
         Some (max n len, s)
       }
     | _ \<Rightarrow> Some (n, s)
   }"

primrec fault_words :: "nat list \<Rightarrow> ptr \<Rightarrow> nat \<Rightarrow> ptr \<Rightarrow> kstate \<Rightarrow> kstate option" where
  "fault_words [] self ident buffer s = Some s"
| "fault_words (i # is) self ident buffer s = do {
     v \<leftarrow> get_reg self (FaultMessage ident i) s;
     s \<leftarrow> set_buf_msg buffer i v s;
     fault_words is self ident buffer s
   }"

definition copy_fault_mrs :: "ptr \<Rightarrow> ptr \<Rightarrow> nat \<Rightarrow> nat \<Rightarrow> kstate \<Rightarrow> kstate option" where
  "copy_fault_mrs self receiver ident len s = do {
     let n = min len MSG_REGISTER_NUM;
     s \<leftarrow> copy_regs [0 ..< n] self (FaultMessage ident) receiver Msg s;
     b \<leftarrow> lookup_mut_ipc_buffer receiver True s;
     case b of
       Some buffer \<Rightarrow> fault_words [n ..< len] self ident buffer s
     | None \<Rightarrow> Some s
   }"

primrec reply_words :: "nat list \<Rightarrow> ptr \<Rightarrow> nat \<Rightarrow> ptr \<Rightarrow> kstate \<Rightarrow> kstate option" where
  "reply_words [] buffer ident receiver s = Some s"
| "reply_words (i # is) buffer ident receiver s = do {
     v \<leftarrow> nth_opt (buf_msg (ks_bufs s buffer)) i;
     s \<leftarrow> set_reg receiver (FaultMessage ident i) v s;
     reply_words is buffer ident receiver s
   }"

definition copy_fault_mrs_for_reply :: "ptr \<Rightarrow> ptr \<Rightarrow> nat \<Rightarrow> nat \<Rightarrow> kstate \<Rightarrow> kstate option" where
  "copy_fault_mrs_for_reply self receiver ident len s = do {
     let n = min len MSG_REGISTER_NUM;
     s \<leftarrow> copy_regs [0 ..< n] self Msg receiver (FaultMessage ident) s;
     b \<leftarrow> lookup_ipc_buffer self False s;
     case b of
       Some buffer \<Rightarrow> reply_words [n ..< len] buffer ident receiver s
     | None \<Rightarrow> Some s
   }"

definition copy_syscall_fault_mrs :: "ptr \<Rightarrow> ptr \<Rightarrow> kstate \<Rightarrow> kstate option" where
  "copy_syscall_fault_mrs self receiver = copy_fault_mrs self receiver MESSAGE_ID_SYSCALL N_SYSCALL_MESSAGE"

definition copy_exeception_fault_mrs :: "ptr \<Rightarrow> ptr \<Rightarrow> kstate \<Rightarrow> kstate option" where
  "copy_exeception_fault_mrs self receiver =
     copy_fault_mrs self receiver MESSAGE_ID_EXCEPTION N_EXCEPTON_MESSAGE"

definition set_fault_mrs :: "ptr \<Rightarrow> ptr \<Rightarrow> kstate \<Rightarrow> (nat \<times> kstate) option" where
  "set_fault_mrs self receiver s = (case tcbFault (tcb_at s self) of
       seL4_Fault_CapFault addr in_recv \<Rightarrow> do {
         ip \<leftarrow> get_reg self FaultIP s;
         (_, s) \<leftarrow> set_mr receiver 0 ip s;
         (_, s) \<leftarrow> set_mr receiver 1 addr s;
         (_, s) \<leftarrow> set_mr receiver 2 (of_bool in_recv) s;
         set_lookup_fault_mrs receiver CAP_FAULT_LOOKUP_FAILURE_TYPE (tcbLookupFailure (tcb_at s self)) s
       }
     | seL4_Fault_UnknownSyscall num \<Rightarrow> do {
         s \<leftarrow> copy_syscall_fault_mrs self receiver s;
         set_mr receiver N_SYSCALL_MESSAGE num s
       }
     | seL4_Fault_UserException num code \<Rightarrow> do {
         s \<leftarrow> copy_exeception_fault_mrs self receiver s;
         (_, s) \<leftarrow> set_mr receiver N_EXCEPTON_MESSAGE (ucast num) s;
         set_mr receiver (N_EXCEPTON_MESSAGE + 1) (ucast code) s
       }
     | seL4_Fault_VMFault addr fsr instr \<Rightarrow> do {
         ip \<leftarrow> get_reg self FaultIP s;
         (_, s) \<leftarrow> set_mr receiver 0 ip s;
         (_, s) \<leftarrow> set_mr receiver 1 addr s;
         (_, s) \<leftarrow> set_mr receiver 2 (of_bool instr) s;
         set_mr receiver 3 (ucast fsr) s
       }
     | seL4_Fault_NullFault \<Rightarrow> None)"

definition setup_caller_cap :: "ptr \<Rightarrow> ptr \<Rightarrow> bool \<Rightarrow> kstate \<Rightarrow> kstate option" where
  "setup_caller_cap self sender can_grant s = do {
     s \<leftarrow> set_thread_state sender ThreadStateBlockedOnReply s;
     let reply_slot = get_cspace sender TCB_REPLY;
     let master_cap = capability (ks_ctes s reply_slot);
     kassert (is_cap_reply_cap master_cap);
     kassert (capReplyMaster master_cap);
     kassert (capReplyCanGrant master_cap);
     kassert (capReplyTCBPtr master_cap = sender);
     let caller_slot = get_cspace self TCB_CALLER;
     kassert (capability (ks_ctes s caller_slot) = cap_null_cap);
     on_ctes (cte_insert (cap_reply_cap sender can_grant False) reply_slot caller_slot) s
   }"

end
