(* ===== verification/Notification.thy ===== *)
theory Notification
  imports Message
begin

text \<open>
  Queues of blocked threads: the operations of notifications
  (\<^verbatim>\<open>sel4_ipc/src/notification.rs\<close>) and of endpoints (\<^verbatim>\<open>sel4_ipc/src/endpoint.rs\<close>)
  that only move threads in and out of a queue, and the binding of a notification to a thread
  (\<^verbatim>\<open>kernel/src/syscall/utils.rs\<close>).  The loops that wake every waiting thread follow the links stored in the
  threads; they are partial functions, defined where the walk along the links ends.
\<close>

section \<open>Notifications\<close>

definition get_ntfn_state :: "ptr \<Rightarrow> kstate \<Rightarrow> NtfnState" where
  "get_ntfn_state n s = ntfn_state (ks_ntfns s n)"

definition set_ntfn_state :: "ptr \<Rightarrow> NtfnState \<Rightarrow> kstate \<Rightarrow> kstate" where
  "set_ntfn_state n st = upd_ntfn n (\<lambda>x. x\<lparr>ntfn_state := st\<rparr>)"

definition get_ntfn_queue :: "ptr \<Rightarrow> kstate \<Rightarrow> tcb_queue_t" where
  "get_ntfn_queue n s = \<lparr> q_head = ntfnQueue_head (ks_ntfns s n), q_tail = ntfnQueue_tail (ks_ntfns s n) \<rparr>"

definition set_ntfn_queue :: "ptr \<Rightarrow> tcb_queue_t \<Rightarrow> kstate \<Rightarrow> kstate" where
  "set_ntfn_queue n q = upd_ntfn n (\<lambda>x. x\<lparr>ntfnQueue_head := q_head q, ntfnQueue_tail := q_tail q\<rparr>)"

definition active_ntfn :: "ptr \<Rightarrow> word64 \<Rightarrow> kstate \<Rightarrow> kstate" where
  "active_ntfn n badge = upd_ntfn n (\<lambda>x. x\<lparr>ntfn_state := NtfnState_Active, ntfnMsgIdentifier := badge\<rparr>)"

definition cancel_signal :: "ptr \<Rightarrow> ptr \<Rightarrow> kstate \<Rightarrow> kstate option" where
  "cancel_signal n tcb s = do {
     (queue, s) \<leftarrow> ep_dequeue (get_ntfn_queue n s) tcb s;
     let s = set_ntfn_queue n queue s;
     let s = (if q_head queue = 0 then set_ntfn_state n NtfnState_Idle s else s);
     set_thread_state tcb ThreadStateInactive s
   }"

text \<open>The loop of \<open>cacncel_all_signal\<close> and of \<open>cancel_all_ipc\<close>, started at the thread \<open>t\<close>.\<close>

partial_function (option) wake_all :: "ptr \<Rightarrow> kstate \<Rightarrow> kstate option" where
  "wake_all t s =
    (if t = 0 then Some s
     else do {
       s \<leftarrow> set_thread_state t ThreadStateRestart s;
       s \<leftarrow> sched_enqueue t s;
       wake_all (tcbEPNext (tcb_at s t)) s
     })"

definition cancel_all_signal :: "ptr \<Rightarrow> kstate \<Rightarrow> kstate option" where
  "cancel_all_signal n s =
    (if get_ntfn_state n s = NtfnState_Waiting then do {
       let t = ntfnQueue_head (ks_ntfns s n);
       let s = set_ntfn_state n NtfnState_Idle s;
       let s = set_ntfn_queue n \<lparr> q_head = 0, q_tail = 0 \<rparr> s;
       s \<leftarrow> wake_all t s;
       reschedule_required s
     } else Some s)"

definition bind_tcb :: "ptr \<Rightarrow> ptr \<Rightarrow> kstate \<Rightarrow> kstate" where
  "bind_tcb n tcb = upd_ntfn n (\<lambda>x. x\<lparr>ntfnBoundTCB := tcb\<rparr>)"

definition unbind_tcb :: "ptr \<Rightarrow> kstate \<Rightarrow> kstate" where
  "unbind_tcb n = upd_ntfn n (\<lambda>x. x\<lparr>ntfnBoundTCB := 0\<rparr>)"

definition safe_unbind_tcb :: "ptr \<Rightarrow> kstate \<Rightarrow> kstate" where
  "safe_unbind_tcb n s =
    (let tcb = ntfnBoundTCB (ks_ntfns s n); s = unbind_tcb n s in
     if tcb \<noteq> 0 then unbind_notification_tcb tcb s else s)"

definition do_bind_notification :: "ptr \<Rightarrow> ptr \<Rightarrow> kstate \<Rightarrow> kstate" where
  "do_bind_notification tcb n s = bind_notification_tcb tcb n (bind_tcb n tcb s)"

definition do_unbind_notification :: "ptr \<Rightarrow> ptr \<Rightarrow> kstate \<Rightarrow> kstate" where
  "do_unbind_notification tcb n s = unbind_notification_tcb tcb (unbind_tcb n s)"

definition safe_unbind_notification :: "ptr \<Rightarrow> kstate \<Rightarrow> kstate" where
  "safe_unbind_notification tcb s =
    (let n = tcbBoundNotification (tcb_at s tcb) in
     if n \<noteq> 0 then do_unbind_notification tcb n s else s)"

definition receive_signal :: "ptr \<Rightarrow> ptr \<Rightarrow> bool \<Rightarrow> kstate \<Rightarrow> kstate option" where
  "receive_signal n recv_thread is_blocking s = (case get_ntfn_state n s of
       NtfnState_Active \<Rightarrow> do {
         s \<leftarrow> set_reg recv_thread Badge (ntfnMsgIdentifier (ks_ntfns s n)) s;
         Some (set_ntfn_state n NtfnState_Idle s)
       }
     | _ \<Rightarrow>
         if is_blocking then do {
           let s = upd_tcb recv_thread (tcbState_update (\<lambda>ts. ts\<lparr>blockingObject := n\<rparr>)) s;
           s \<leftarrow> set_thread_state recv_thread ThreadStateBlockedOnNotification s;
           (queue, s) \<leftarrow> ep_append (get_ntfn_queue n s) recv_thread s;
           let s = set_ntfn_state n NtfnState_Waiting s;
           Some (set_ntfn_queue n queue s)
         } else set_reg recv_thread Badge 0 s)"

definition complete_signal :: "ptr \<Rightarrow> kstate \<Rightarrow> (bool \<times> kstate) option" where
  "complete_signal tcb s =
    (let n = tcbBoundNotification (tcb_at s tcb) in
     if n \<noteq> 0 \<and> get_ntfn_state n s = NtfnState_Active then do {
       s \<leftarrow> set_reg tcb Badge (ntfnMsgIdentifier (ks_ntfns s n)) s;
       Some (True, set_ntfn_state n NtfnState_Idle s)
     } else Some (False, s))"

section \<open>Endpoints\<close>

definition get_ep_state :: "ptr \<Rightarrow> kstate \<Rightarrow> EPState" where
  "get_ep_state e s = ep_state (ks_eps s e)"

definition set_ep_state :: "ptr \<Rightarrow> EPState \<Rightarrow> kstate \<Rightarrow> kstate" where
  "set_ep_state e st = upd_ep e (\<lambda>x. x\<lparr>ep_state := st\<rparr>)"

definition get_ep_queue :: "ptr \<Rightarrow> kstate \<Rightarrow> tcb_queue_t" where
  "get_ep_queue e s = \<lparr> q_head = epQueue_head (ks_eps s e), q_tail = epQueue_tail (ks_eps s e) \<rparr>"

definition set_ep_queue :: "ptr \<Rightarrow> tcb_queue_t \<Rightarrow> kstate \<Rightarrow> kstate" where
  "set_ep_queue e q = upd_ep e (\<lambda>x. x\<lparr>epQueue_head := q_head q, epQueue_tail := q_tail q\<rparr>)"

definition cancel_ipc_ep :: "ptr \<Rightarrow> ptr \<Rightarrow> kstate \<Rightarrow> kstate option" where
  "cancel_ipc_ep e tcb s = do {
     (queue, s) \<leftarrow> ep_dequeue (get_ep_queue e s) tcb s;
     let s = set_ep_queue e queue s;
     let s = (if q_head queue = 0 then set_ep_state e EPState_Idle s else s);
     set_thread_state tcb ThreadStateInactive s
   }"

definition cancel_all_ipc :: "ptr \<Rightarrow> kstate \<Rightarrow> kstate option" where
  "cancel_all_ipc e s = (case get_ep_state e s of
       EPState_Idle \<Rightarrow> Some s
     | _ \<Rightarrow> do {
         let t = epQueue_head (ks_eps s e);
         let s = set_ep_state e EPState_Idle s;
         let s = set_ep_queue e \<lparr> q_head = 0, q_tail = 0 \<rparr> s;
         s \<leftarrow> wake_all t s;
         reschedule_required s
       })"

text \<open>The loop of \<open>cancel_badged_sends\<close>, with the queue it takes threads from.\<close>

partial_function (option) cancel_badged_loop ::
  "word64 \<Rightarrow> tcb_queue_t \<Rightarrow> ptr \<Rightarrow> kstate \<Rightarrow> (tcb_queue_t \<times> kstate) option" where
  "cancel_badged_loop badge queue thread s =
    (if thread = 0 then Some (queue, s)
     else do {
       let thread_ptr = tcbEPNext (tcb_at s thread);
       (queue, s) \<leftarrow>
         (if blockingIPCBadge (tcbState (tcb_at s thread)) = badge then do {
            s \<leftarrow> set_thread_state thread ThreadStateRestart s;
            s \<leftarrow> sched_enqueue thread s;
            ep_dequeue queue thread s
          } else Some (queue, s));
       cancel_badged_loop badge queue thread_ptr s
     })"

definition cancel_badged_sends :: "ptr \<Rightarrow> word64 \<Rightarrow> kstate \<Rightarrow> kstate option" where
  "cancel_badged_sends e badge s = (case get_ep_state e s of
       EPState_Send \<Rightarrow> do {
         let queue = get_ep_queue e s;
         let s = set_ep_state e EPState_Idle s;
         let s = set_ep_queue e \<lparr> q_head = 0, q_tail = 0 \<rparr> s;
         (queue, s) \<leftarrow> cancel_badged_loop badge queue (q_head queue) s;
         let s = set_ep_queue e queue s;
         let s = (if q_head queue \<noteq> 0 then set_ep_state e EPState_Send s else s);
         reschedule_required s
       }
     | _ \<Rightarrow> Some s)"

end
