(* ===== verification/Finalise.thy ===== *)
theory Finalise
  imports Notification
begin

text \<open>
  Deleting capabilities: the finalisation of the object behind a capability
  (\<^verbatim>\<open>kernel/src/interfaces_impl/cspace.rs\<close>), the deletion and revocation of slots
  (\<^verbatim>\<open>sel4_cspace/src/cte.rs\<close>), the cancellation of a blocked thread's operation
  (\<^verbatim>\<open>sel4_ipc/src/transfer.rs\<close>) and the interrupt table (\<^verbatim>\<open>kernel/src/interrupt/mod.rs\<close>).
  \<open>finalise\<close>, \<open>delete_all\<close> and \<open>reduce_zombie\<close> call each other; their definitions carry fuel, which bounds
  the depth of the calls.
\<close>

section \<open>Interrupts\<close>

datatype IRQState = IRQInactive | IRQSignal | IRQTimer | IRQReserved

fun irq_state_word :: "IRQState \<Rightarrow> word64" where
  "irq_state_word IRQInactive = 0"
| "irq_state_word IRQSignal = 1"
| "irq_state_word IRQTimer = 2"
| "irq_state_word IRQReserved = 3"

definition irq_state_of_word :: "word64 \<Rightarrow> IRQState option" where
  "irq_state_of_word w =
    (if w = 0 then Some IRQInactive else if w = 1 then Some IRQSignal
     else if w = 2 then Some IRQTimer else if w = 3 then Some IRQReserved else None)"

definition get_irq_state :: "word64 \<Rightarrow> kstate \<Rightarrow> IRQState option" where
  "get_irq_state irq s = index_checked (int_state_irq_table s) irq \<bind> irq_state_of_word"

definition mask_interrupt :: "bool \<Rightarrow> word64 \<Rightarrow> kstate \<Rightarrow> kstate" where
  "mask_interrupt disable irq s = s\<lparr>gic_enabled := (gic_enabled s)(irq := \<not> disable)\<rparr>"

definition set_irq_state_by_index :: "IRQState \<Rightarrow> word64 \<Rightarrow> kstate \<Rightarrow> kstate option" where
  "set_irq_state_by_index st index s = do {
     table \<leftarrow> update_checked (int_state_irq_table s) index (irq_state_word st);
     Some (mask_interrupt (st = IRQInactive) index (s\<lparr>int_state_irq_table := table\<rparr>))
   }"

definition set_irq_state_by_irq :: "IRQState \<Rightarrow> word64 \<Rightarrow> kstate \<Rightarrow> kstate option" where
  "set_irq_state_by_irq st irq s = do {
     table \<leftarrow> update_checked (int_state_irq_table s) irq (irq_state_word st);
     Some (mask_interrupt (st = IRQInactive) irq (s\<lparr>int_state_irq_table := table\<rparr>))
   }"

definition is_irq_active :: "word64 \<Rightarrow> kstate \<Rightarrow> bool option" where
  "is_irq_active index s = map_option (\<lambda>st. st \<noteq> IRQInactive) (get_irq_state index s)"

definition is_irq_pending :: "kstate \<Rightarrow> bool" where
  "is_irq_pending s = False"

definition get_irq_handler_slot :: "word64 \<Rightarrow> kstate \<Rightarrow> ptr option" where
  "get_irq_handler_slot irq s = do {
     node \<leftarrow> convert_to_mut_type_ref (int_state_irq_node_ptr s);
     get_offset_slot node irq
   }"

section \<open>Finalising objects\<close>

record FinaliseCapRet =
  remainder :: cap
  cleanupInfo :: cap

abbreviation fc_nothing :: FinaliseCapRet where
  "fc_nothing \<equiv> \<lparr> remainder = cap_null_cap, cleanupInfo = cap_null_cap \<rparr>"

definition current_vspace_cap :: "kstate \<Rightarrow> cap option" where
  "current_vspace_cap s = do {
     cur \<leftarrow> get_currenct_thread s;
     Some (capability (ks_ctes s (get_cspace cur TCB_VTABLE)))
   }"

definition deleteASID :: "word64 \<Rightarrow> ptr \<Rightarrow> kstate \<Rightarrow> kstate option" where
  "deleteASID asid vspace s = do { c \<leftarrow> current_vspace_cap s; delete_asid asid vspace c s }"

definition deleteASIDPool :: "word64 \<Rightarrow> ptr \<Rightarrow> kstate \<Rightarrow> kstate option" where
  "deleteASIDPool asid_base pool s = do { c \<leftarrow> current_vspace_cap s; delete_asid_pool asid_base pool c s }"

definition arch_finalise_cap :: "cap \<Rightarrow> bool \<Rightarrow> kstate \<Rightarrow> (FinaliseCapRet \<times> kstate) option" where
  "arch_finalise_cap c final s = do {
     s \<leftarrow> (case c of
         cap_frame_cap asid base sz addr rights dev \<Rightarrow>
           if asid \<noteq> 0 then unmap_page (ucast sz) (ucast asid) addr base s else Some s
       | cap_vspace_cap asid base mapped \<Rightarrow>
           if final \<and> mapped then deleteASID (ucast asid) base s else Some s
       | cap_page_table_cap asid base mapped addr \<Rightarrow>
           if final \<and> mapped then unmap_page_table (ucast asid) addr base s else Some s
       | cap_asid_pool_cap asid_base pool \<Rightarrow>
           if final then deleteASIDPool (ucast asid_base) pool s else Some s
       | _ \<Rightarrow> Some s);
     Some (fc_nothing, s)
   }"

text \<open>
  The capabilities that \<open>finalise_cap\<close> handles before it looks at \<open>_exposed\<close>; \<open>None\<close> in the result is the
  branch that goes on to the second match.
\<close>

definition finalise_immediate :: "cap \<Rightarrow> bool \<Rightarrow> kstate \<Rightarrow> (FinaliseCapRet option \<times> kstate) option" where
  "finalise_immediate c final s =
    (if is_arch_cap c then map_option (\<lambda>(r, s). (Some r, s)) (arch_finalise_cap c final s)
     else case c of
       cap_endpoint_cap badge cgr cg cr cs ep \<Rightarrow> do {
         s \<leftarrow> (if final then do { e \<leftarrow> convert_to_mut_type_ref ep; cancel_all_ipc e s } else Some s);
         Some (Some fc_nothing, s)
       }
     | cap_notification_cap badge cr cs np \<Rightarrow> do {
         s \<leftarrow> (if final then do {
             n \<leftarrow> convert_to_mut_type_ref np;
             cancel_all_signal n (safe_unbind_tcb n s)
           } else Some s);
         Some (Some fc_nothing, s)
       }
     | cap_reply_cap t cg m \<Rightarrow> Some (Some fc_nothing, s)
     | cap_null_cap \<Rightarrow> Some (Some fc_nothing, s)
     | cap_domain_cap \<Rightarrow> Some (Some fc_nothing, s)
     | _ \<Rightarrow> Some (None, s))"

definition post_cap_deletion :: "cap \<Rightarrow> kstate \<Rightarrow> kstate option" where
  "post_cap_deletion c s = (case c of
       cap_irq_handler_cap irq \<Rightarrow> set_irq_state_by_index IRQInactive (ucast irq) s
     | _ \<Rightarrow> Some s)"

definition set_empty :: "ptr \<Rightarrow> cap \<Rightarrow> kstate \<Rightarrow> kstate option" where
  "set_empty slot cleanup_info s =
    (if capability (ks_ctes s slot) \<noteq> cap_null_cap
     then post_cap_deletion cleanup_info (s\<lparr>ks_ctes := empty_slot slot (ks_ctes s)\<rparr>)
     else Some s)"

text \<open>\<open>delete_one\<close> finalises with \<open>_exposed\<close> set, which panics in every branch behind \<open>finalise_immediate\<close>.\<close>

definition delete_one :: "ptr \<Rightarrow> kstate \<Rightarrow> kstate option" where
  "delete_one slot s =
    (if capability (ks_ctes s slot) \<noteq> cap_null_cap then do {
       final \<leftarrow> is_final_cap (ks_ctes s) slot;
       (r, s) \<leftarrow> finalise_immediate (capability (ks_ctes s slot)) final s;
       fc_ret \<leftarrow> r;
       removable \<leftarrow> cap_removable (remainder fc_ret) slot;
       kassert (removable \<and> cleanupInfo fc_ret = cap_null_cap);
       set_empty slot cap_null_cap s
     } else Some s)"

definition deleting_irq_handler :: "word64 \<Rightarrow> kstate \<Rightarrow> kstate option" where
  "deleting_irq_handler irq s = do { slot \<leftarrow> get_irq_handler_slot irq s; delete_one slot s }"

definition delete_caller_cap :: "ptr \<Rightarrow> kstate \<Rightarrow> kstate option" where
  "delete_caller_cap p s = delete_one (get_cspace p TCB_CALLER) s"

definition cancel_ipc :: "ptr \<Rightarrow> kstate \<Rightarrow> kstate option" where
  "cancel_ipc p s = (case get_state s p of
       ThreadStateBlockedOnSend \<Rightarrow> do {
         e \<leftarrow> convert_to_mut_type_ref (blockingObject (tcbState (tcb_at s p)));
         kassert (get_ep_state e s \<noteq> EPState_Idle);
         cancel_ipc_ep e p s
       }
     | ThreadStateBlockedOnReceive \<Rightarrow> do {
         e \<leftarrow> convert_to_mut_type_ref (blockingObject (tcbState (tcb_at s p)));
         kassert (get_ep_state e s \<noteq> EPState_Idle);
         cancel_ipc_ep e p s
       }
     | ThreadStateBlockedOnNotification \<Rightarrow> do {
         n \<leftarrow> convert_to_mut_type_ref (blockingObject (tcbState (tcb_at s p)));
         cancel_signal n p s
       }
     | ThreadStateBlockedOnReply \<Rightarrow> do {
         let s = upd_tcb p (\<lambda>t. t\<lparr>tcbFault := seL4_Fault_NullFault\<rparr>) s;
         let caller_slot_ptr = mdbNext (cteMDBNode (ks_ctes s (get_cspace p TCB_REPLY)));
         if caller_slot_ptr \<noteq> 0 then delete_one caller_slot_ptr s else Some s
       }
     | _ \<Rightarrow> Some s)"

definition TCB_CNODE_ENTRIES :: word64 where "TCB_CNODE_ENTRIES = 5"

definition finalise_cap :: "cap \<Rightarrow> bool \<Rightarrow> bool \<Rightarrow> kstate \<Rightarrow> (FinaliseCapRet \<times> kstate) option" where
  "finalise_cap c final exposed s = do {
     (r, s) \<leftarrow> finalise_immediate c final s;
     case r of
       Some fc_ret \<Rightarrow> Some (fc_ret, s)
     | None \<Rightarrow> do {
         kassert (\<not> exposed);
         case c of
           cap_cnode_cap guard gsize radix cptr \<Rightarrow>
             Some (if final then fc_nothing\<lparr>remainder := zombie_new (shl 1 (ucast radix)) (ucast radix) cptr\<rparr>
                   else fc_nothing, s)
         | cap_thread_cap tcb \<Rightarrow>
             if final then do {
               t \<leftarrow> convert_to_mut_type_ref tcb;
               let cte_ptr = get_cspace t TCB_CTABLE;
               let s = safe_unbind_notification t s;
               s \<leftarrow> cancel_ipc t s;
               s \<leftarrow> suspend t s;
               Some (fc_nothing\<lparr>remainder := zombie_new TCB_CNODE_ENTRIES ZOMBIE_TYPE_ZOMBIE_TCB cte_ptr\<rparr>, s)
             } else Some (fc_nothing, s)
         | cap_zombie_cap zid zt \<Rightarrow> Some (fc_nothing\<lparr>remainder := c\<rparr>, s)
         | cap_irq_handler_cap irq \<Rightarrow>
             if final then do {
               s \<leftarrow> deleting_irq_handler (ucast irq) s;
               Some (fc_nothing\<lparr>cleanupInfo := c\<rparr>, s)
             } else Some (fc_nothing, s)
         | _ \<Rightarrow> Some (fc_nothing, s)
       }
   }"

section \<open>Preemption\<close>

definition CONFIG_MAX_NUM_WORK_UNITS_PER_PREEMPTION :: word64 where
  "CONFIG_MAX_NUM_WORK_UNITS_PER_PREEMPTION = 100"

definition preemption_point :: "kstate \<Rightarrow> exception_t \<times> kstate" where
  "preemption_point s =
    (let s = s\<lparr>ksWorkUnitsCompleted := ksWorkUnitsCompleted s + 1\<rparr> in
     if ksWorkUnitsCompleted s \<ge> CONFIG_MAX_NUM_WORK_UNITS_PER_PREEMPTION then
       let s = s\<lparr>ksWorkUnitsCompleted := 0\<rparr> in
       (if is_irq_pending s then EXCEPTION_PREEMTED else EXCEPTION_NONE, s)
     else (EXCEPTION_NONE, s))"

section \<open>Deleting slots\<close>

record finaliseSlot_ret =
  fs_status :: exception_t
  fs_success :: bool
  fs_cleanupInfo :: cap

text \<open>
  The three functions call each other: emptying a slot that holds the last capability to a CNode or a thread
  turns it into a zombie, whose slots are emptied one by one from the last one.  Each body takes the functions
  it calls as arguments; the recursion below ties them together with the fuel.
\<close>

type_synonym slot_op = "ptr \<Rightarrow> bool \<Rightarrow> kstate \<Rightarrow> (exception_t \<times> kstate) option"
type_synonym finalise_op = "ptr \<Rightarrow> bool \<Rightarrow> kstate \<Rightarrow> (finaliseSlot_ret \<times> kstate) option"

definition finalise_body :: "slot_op \<Rightarrow> finalise_op \<Rightarrow> finalise_op" where
  "finalise_body reduce_zombie finalise slot immediate s =
    (let c = capability (ks_ctes s slot) in
     if c = cap_null_cap
     then Some (\<lparr> fs_status = EXCEPTION_NONE, fs_success = True, fs_cleanupInfo = cap_null_cap \<rparr>, s)
     else do {
       final \<leftarrow> is_final_cap (ks_ctes s) slot;
       (fc_ret, s) \<leftarrow> finalise_cap c final False s;
       removable \<leftarrow> cap_removable (remainder fc_ret) slot;
       if removable
       then Some (\<lparr> fs_status = EXCEPTION_NONE, fs_success = True, fs_cleanupInfo = cleanupInfo fc_ret \<rparr>, s)
       else do {
         let s = s\<lparr>ks_ctes := set_capability slot (remainder fc_ret) (ks_ctes s)\<rparr>;
         if \<not> immediate \<and> cap_cyclic_zombie (remainder fc_ret) slot
         then Some (\<lparr> fs_status = EXCEPTION_NONE, fs_success = False, fs_cleanupInfo = cleanupInfo fc_ret \<rparr>, s)
         else do {
           (status, s) \<leftarrow> reduce_zombie slot immediate s;
           if status \<noteq> EXCEPTION_NONE
           then Some (\<lparr> fs_status = status, fs_success = False, fs_cleanupInfo = cap_null_cap \<rparr>, s)
           else case preemption_point s of (status, s) \<Rightarrow>
             if status \<noteq> EXCEPTION_NONE
             then Some (\<lparr> fs_status = status, fs_success = False, fs_cleanupInfo = cap_null_cap \<rparr>, s)
             else finalise slot immediate s
         }
       }
     })"

definition delete_all_body :: "finalise_op \<Rightarrow> slot_op" where
  "delete_all_body finalise slot exposed s = do {
     (fs_ret, s) \<leftarrow> finalise slot exposed s;
     if fs_status fs_ret \<noteq> EXCEPTION_NONE then Some (fs_status fs_ret, s)
     else do {
       s \<leftarrow> (if exposed \<or> fs_success fs_ret then set_empty slot (fs_cleanupInfo fs_ret) s else Some s);
       Some (EXCEPTION_NONE, s)
     }
   }"

definition reduce_zombie_body :: "slot_op \<Rightarrow> slot_op" where
  "reduce_zombie_body delete_all slot immediate s = do {
     let c = capability (ks_ctes s slot);
     kassert (is_cap_zombie_cap c);
     let ptr = get_zombie_ptr c;
     let k = get_zombie_number c;
     let zombie_type = capZombieType c;
     kassert (k > 0);
     if immediate then do {
       let end_slot = ptr + 32 * (k - 1);
       (status, s) \<leftarrow> delete_all end_slot False s;
       if status \<noteq> EXCEPTION_NONE then Some (status, s)
       else
         let c = capability (ks_ctes s slot) in
         case c of
           cap_null_cap \<Rightarrow> Some (EXCEPTION_NONE, s)
         | cap_zombie_cap zid zt \<Rightarrow>
             if ptr = get_zombie_ptr c \<and> get_zombie_number c = k \<and> zt = zombie_type then do {
               kassert (capability (ks_ctes s end_slot) = cap_null_cap);
               Some (EXCEPTION_NONE, s\<lparr>ks_ctes := set_capability slot (set_zombie_number c (k - 1)) (ks_ctes s)\<rparr>)
             } else do {
               kassert (get_zombie_ptr c = slot \<and> ptr \<noteq> slot);
               Some (EXCEPTION_NONE, s)
             }
         | _ \<Rightarrow> None
     } else do {
       kassert (ptr \<noteq> slot);
       next_slot \<leftarrow> convert_to_mut_type_ref ptr;
       let cap1 = capability (ks_ctes s next_slot);
       let cap2 = c;
       Some (EXCEPTION_NONE, s\<lparr>ks_ctes := cte_swap cap1 next_slot cap2 slot (ks_ctes s)\<rparr>)
     }
   }"

fun finalise :: "nat \<Rightarrow> finalise_op" and delete_all :: "nat \<Rightarrow> slot_op" and reduce_zombie :: "nat \<Rightarrow> slot_op" where
  "finalise 0 = (\<lambda>slot immediate s. None)"
| "finalise (Suc n) = finalise_body (reduce_zombie n) (finalise n)"
| "delete_all 0 = (\<lambda>slot exposed s. None)"
| "delete_all (Suc n) = delete_all_body (finalise n)"
| "reduce_zombie 0 = (\<lambda>slot immediate s. None)"
| "reduce_zombie (Suc n) = reduce_zombie_body (delete_all n)"

section \<open>Revocation\<close>

definition get_volatile_value :: "cte_heap \<Rightarrow> ptr \<Rightarrow> word64" where
  "get_volatile_value h slot =
    (let raw_value = mdbNext (cteMDBNode (h slot));
         v = shl (shr raw_value 2 AND mask_bits 46) 2 in
     if v AND shl 1 46 \<noteq> 0 then v OR 0xffffff8000000000 else v)"

fun revoke :: "nat \<Rightarrow> nat \<Rightarrow> ptr \<Rightarrow> kstate \<Rightarrow> (exception_t \<times> kstate) option" where
  "revoke 0 m slot s = None"
| "revoke (Suc n) m slot s =
    (let cte = get_volatile_value (ks_ctes s) slot in
     if cte = 0 then Some (EXCEPTION_NONE, s)
     else do {
       parent \<leftarrow> is_mdb_parent_of (ks_ctes s) slot cte;
       if \<not> parent then Some (EXCEPTION_NONE, s)
       else do {
         (status, s) \<leftarrow> delete_all m cte True s;
         if status \<noteq> EXCEPTION_NONE then Some (status, s)
         else case preemption_point s of (status, s) \<Rightarrow>
           if status \<noteq> EXCEPTION_NONE then Some (status, s) else revoke n m slot s
       }
     })"

end
