(* ===== verification/IpcTransfer.thy ===== *)
theory IpcTransfer
  imports Finalise
begin

text \<open>
  Message transfer between two threads (\<^verbatim>\<open>sel4_ipc/src/transfer.rs\<close>) and the operations on endpoints and
  notifications that use it: sending and receiving messages and signals
  (\<^verbatim>\<open>sel4_ipc/src/endpoint.rs\<close>, \<^verbatim>\<open>sel4_ipc/src/notification.rs\<close>).
\<close>

section \<open>Transfer of capabilities\<close>

text \<open>
  The loop of \<open>set_transfer_caps\<close>: \<open>n\<close> iterations are left and the next index is \<open>i\<close>.  The result is the index
  the loop stops at, the message information and the state.
\<close>

primrec transfer_caps_loop ::
  "nat \<Rightarrow> ptr option \<Rightarrow> ptr \<Rightarrow> ptr list \<Rightarrow> nat \<Rightarrow> ptr option \<Rightarrow> seL4_MessageInfo \<Rightarrow> kstate \<Rightarrow>
   (nat \<times> seL4_MessageInfo \<times> kstate) option" where
  "transfer_caps_loop 0 ep buffer extra_caps i dest_slot info s = Some (i, info, s)"
| "transfer_caps_loop (Suc n) ep buffer extra_caps i dest_slot info s = do {
     slot \<leftarrow> nth_opt extra_caps i;
     if slot = 0 then Some (i, info, s)
     else
       let c = capability (ks_ctes s slot) in
       if is_cap_endpoint_cap c \<and> ep \<noteq> None \<and> capEPPtr c = the ep then
         transfer_caps_loop n ep buffer extra_caps (i + 1) dest_slot
           (mi_set_capsUnwrapped (mi_get_capsUnwrapped info OR push_bit i 1) info)
           (upd_buf buffer (\<lambda>b. b\<lparr>caps_or_badges := (caps_or_badges b)[i := capEPBadge c]\<rparr>) s)
       else case dest_slot of
           None \<Rightarrow> Some (i, info, s)
         | Some dest \<Rightarrow> do {
             dc_ret \<leftarrow> derive_cap (ks_ctes s) slot c;
             if dc_status dc_ret \<noteq> EXCEPTION_NONE \<or> dc_capability dc_ret = cap_null_cap then Some (i, info, s)
             else do {
               s \<leftarrow> on_ctes (cte_insert (dc_capability dc_ret) slot dest) s;
               transfer_caps_loop n ep buffer extra_caps (i + 1) None info s
             }
           }
   }"

definition set_transfer_caps ::
  "ptr \<Rightarrow> ptr option \<Rightarrow> seL4_MessageInfo \<Rightarrow> ptr list \<Rightarrow> kstate \<Rightarrow> (seL4_MessageInfo \<times> kstate) option" where
  "set_transfer_caps self ep info extra_caps s = do {
     let info = mi_set_capsUnwrapped 0 (mi_set_extraCaps 0 info);
     ipc_buffer \<leftarrow> lookup_mut_ipc_buffer self True s;
     first \<leftarrow> nth_opt extra_caps 0;
     if first = 0 then Some (info, s)
     else case ipc_buffer of
         None \<Rightarrow> Some (info, s)
       | Some buffer \<Rightarrow> do {
           dest_slot \<leftarrow> get_receive_slot self s;
           (i, info, s) \<leftarrow>
             transfer_caps_loop SEL4_MSG_MAX_EXTRA_CAPS ep buffer extra_caps 0 dest_slot info s;
           Some (mi_set_extraCaps (of_nat i) info, s)
         }
   }"

section \<open>Transfer of messages\<close>

fun fault_tag :: "seL4_Fault \<Rightarrow> word64" where
  "fault_tag seL4_Fault_NullFault = 0"
| "fault_tag (seL4_Fault_CapFault _ _) = 1"
| "fault_tag (seL4_Fault_UnknownSyscall _) = 2"
| "fault_tag (seL4_Fault_UserException _ _) = 3"
| "fault_tag (seL4_Fault_VMFault _ _ _) = 5"

definition do_fault_transfer :: "ptr \<Rightarrow> ptr \<Rightarrow> word64 \<Rightarrow> kstate \<Rightarrow> kstate option" where
  "do_fault_transfer self receiver badge s = do {
     let tag = fault_tag (tcbFault (tcb_at s self));
     (sent, s) \<leftarrow> set_fault_mrs self receiver s;
     s \<leftarrow> set_reg receiver MsgInfo (mi_new tag 0 0 (of_nat sent)) s;
     set_reg receiver Badge badge s
   }"

definition do_normal_transfer :: "ptr \<Rightarrow> ptr \<Rightarrow> ptr option \<Rightarrow> word64 \<Rightarrow> bool \<Rightarrow> kstate \<Rightarrow> kstate option" where
  "do_normal_transfer self receiver ep badge can_grant s = do {
     w \<leftarrow> get_reg self MsgInfo s;
     let tag = from_word_security w;
     let none = replicate SEL4_MSG_MAX_EXTRA_CAPS 0;
     (extra_caps, s) \<leftarrow>
       (if can_grant then do {
          (status, res, s) \<leftarrow> lookup_extra_caps self none s;
          Some (if status \<noteq> EXCEPTION_NONE then res[0 := 0] else res, s)
        } else Some (none, s));
     (msg_transferred, s) \<leftarrow> copy_mrs self receiver (unat (mi_get_length tag)) s;
     (tag, s) \<leftarrow> set_transfer_caps receiver ep tag extra_caps s;
     s \<leftarrow> set_reg receiver MsgInfo (mi_set_length (of_nat msg_transferred) tag) s;
     set_reg receiver Badge badge s
   }"

definition do_fault_reply_transfer :: "ptr \<Rightarrow> ptr \<Rightarrow> kstate \<Rightarrow> (bool \<times> kstate) option" where
  "do_fault_reply_transfer self receiver s = do {
     w \<leftarrow> get_reg self MsgInfo s;
     let tag = from_word_security w;
     let label = mi_get_label tag;
     let len = unat (mi_get_length tag);
     case tcbFault (tcb_at s receiver) of
       seL4_Fault_UnknownSyscall _ \<Rightarrow> do {
         s \<leftarrow> copy_fault_mrs_for_reply self receiver MESSAGE_ID_SYSCALL (min len N_SYSCALL_MESSAGE) s;
         Some (label = 0, s)
       }
     | seL4_Fault_UserException _ _ \<Rightarrow> do {
         s \<leftarrow> copy_fault_mrs_for_reply self receiver MESSAGE_ID_EXCEPTION (min len N_EXCEPTON_MESSAGE) s;
         Some (label = 0, s)
       }
     | _ \<Rightarrow> Some (True, s)
   }"

definition do_ipc_transfer :: "ptr \<Rightarrow> ptr \<Rightarrow> ptr option \<Rightarrow> word64 \<Rightarrow> bool \<Rightarrow> kstate \<Rightarrow> kstate option" where
  "do_ipc_transfer self receiver ep badge grant s =
    (if tcbFault (tcb_at s self) = seL4_Fault_NullFault
     then do_normal_transfer self receiver ep badge grant s
     else do_fault_transfer self receiver badge s)"

definition do_reply :: "ptr \<Rightarrow> ptr \<Rightarrow> ptr \<Rightarrow> bool \<Rightarrow> kstate \<Rightarrow> kstate option" where
  "do_reply self receiver slot grant s = do {
     kassert (get_state s receiver = ThreadStateBlockedOnReply);
     if tcbFault (tcb_at s receiver) = seL4_Fault_NullFault then do {
       s \<leftarrow> do_ipc_transfer self receiver None 0 grant s;
       s \<leftarrow> delete_one slot s;
       s \<leftarrow> set_thread_state receiver ThreadStateRunning s;
       possible_switch_to receiver s
     } else do {
       s \<leftarrow> delete_one slot s;
       (rst, s) \<leftarrow> do_fault_reply_transfer self receiver s;
       let s = upd_tcb receiver (\<lambda>t. t\<lparr>tcbFault := seL4_Fault_NullFault\<rparr>) s;
       if rst then do {
         s \<leftarrow> set_thread_state receiver ThreadStateRestart s;
         possible_switch_to receiver s
       } else set_thread_state receiver ThreadStateInactive s
     }
   }"

section \<open>Endpoints\<close>

definition block_on_send :: "ptr \<Rightarrow> ptr \<Rightarrow> bool \<Rightarrow> bool \<Rightarrow> word64 \<Rightarrow> bool \<Rightarrow> kstate \<Rightarrow> kstate" where
  "block_on_send self src_thread do_call can_grant badge can_grant_reply =
     upd_tcb src_thread (tcbState_update (\<lambda>ts. ts\<lparr>tsType := ThreadStateBlockedOnSend, blockingObject := self,
       blockingIPCCanGrant := can_grant, blockingIPCBadge := badge,
       blockingIPCCanGrantReply := can_grant_reply, blockingIPCIsCall := do_call\<rparr>))"

definition send_ipc :: "ptr \<Rightarrow> ptr \<Rightarrow> bool \<Rightarrow> bool \<Rightarrow> bool \<Rightarrow> word64 \<Rightarrow> bool \<Rightarrow> kstate \<Rightarrow> kstate option" where
  "send_ipc self src_thread blocking do_call can_grant badge can_grant_reply s = (case get_ep_state self s of
       EPState_Recv \<Rightarrow> do {
         let queue = get_ep_queue self s;
         kassert (q_head queue \<noteq> 0);
         let dest_thread = q_head queue;
         (queue, s) \<leftarrow> ep_dequeue queue dest_thread s;
         let s = set_ep_queue self queue s;
         let s = (if queue_empty queue then set_ep_state self EPState_Idle s else s);
         s \<leftarrow> do_ipc_transfer src_thread dest_thread (Some self) badge can_grant s;
         let reply_can_grant = blockingIPCCanGrant (tcbState (tcb_at s dest_thread));
         s \<leftarrow> set_thread_state dest_thread ThreadStateRunning s;
         s \<leftarrow> possible_switch_to dest_thread s;
         if do_call then
           if can_grant \<or> can_grant_reply then setup_caller_cap dest_thread src_thread reply_can_grant s
           else set_thread_state src_thread ThreadStateInactive s
         else Some s
       }
     | _ \<Rightarrow>
         if blocking then do {
           s \<leftarrow> schedule_tcb src_thread (block_on_send self src_thread do_call can_grant badge can_grant_reply s);
           (queue, s) \<leftarrow> ep_append (get_ep_queue self s) src_thread s;
           let s = set_ep_state self EPState_Send s;
           Some (set_ep_queue self queue s)
         } else Some s)"

definition receive_ipc :: "ptr \<Rightarrow> ptr \<Rightarrow> bool \<Rightarrow> bool \<Rightarrow> kstate \<Rightarrow> kstate option" where
  "receive_ipc self thread is_blocking grant s = do {
     (completed, s) \<leftarrow> complete_signal thread s;
     if completed then Some s
     else case get_ep_state self s of
         EPState_Send \<Rightarrow> do {
           let queue = get_ep_queue self s;
           kassert (\<not> queue_empty queue);
           sender \<leftarrow> convert_to_mut_type_ref (q_head queue);
           (queue, s) \<leftarrow> ep_dequeue queue sender s;
           let s = set_ep_queue self queue s;
           let s = (if queue_empty queue then set_ep_state self EPState_Idle s else s);
           let badge = blockingIPCBadge (tcbState (tcb_at s sender));
           let can_grant = blockingIPCCanGrant (tcbState (tcb_at s sender));
           let can_grant_reply = blockingIPCCanGrantReply (tcbState (tcb_at s sender));
           s \<leftarrow> do_ipc_transfer sender thread (Some self) badge can_grant s;
           if blockingIPCIsCall (tcbState (tcb_at s sender)) then
             if can_grant \<or> can_grant_reply then setup_caller_cap thread sender grant s
             else set_thread_state sender ThreadStateInactive s
           else do {
             s \<leftarrow> set_thread_state sender ThreadStateRunning s;
             possible_switch_to sender s
           }
         }
       | _ \<Rightarrow>
           if is_blocking then do {
             let s = upd_tcb thread
               (tcbState_update (\<lambda>ts. ts\<lparr>blockingObject := self, blockingIPCCanGrant := grant\<rparr>)) s;
             s \<leftarrow> set_thread_state thread ThreadStateBlockedOnReceive s;
             (queue, s) \<leftarrow> ep_append (get_ep_queue self s) thread s;
             let s = set_ep_state self EPState_Recv s;
             Some (set_ep_queue self queue s)
           } else set_reg thread Badge 0 s
   }"

section \<open>Signals\<close>

definition send_signal :: "ptr \<Rightarrow> word64 \<Rightarrow> kstate \<Rightarrow> kstate option" where
  "send_signal n badge s = (case get_ntfn_state n s of
       NtfnState_Idle \<Rightarrow>
         (let tcb = ntfnBoundTCB (ks_ntfns s n) in
          if tcb \<noteq> 0 \<and> get_state s tcb = ThreadStateBlockedOnReceive then do {
            s \<leftarrow> cancel_ipc tcb s;
            s \<leftarrow> set_thread_state tcb ThreadStateRunning s;
            s \<leftarrow> set_reg tcb Badge badge s;
            possible_switch_to tcb s
          } else Some (active_ntfn n badge s))
     | NtfnState_Waiting \<Rightarrow> do {
         let queue = get_ntfn_queue n s;
         kassert (q_head queue \<noteq> 0);
         let dest = q_head queue;
         (queue, s) \<leftarrow> ep_dequeue queue dest s;
         let s = set_ntfn_queue n queue s;
         let s = (if queue_empty queue then set_ntfn_state n NtfnState_Idle s else s);
         s \<leftarrow> set_thread_state dest ThreadStateRunning s;
         s \<leftarrow> set_reg dest Badge badge s;
         possible_switch_to dest s
       }
     | NtfnState_Active \<Rightarrow>
         Some (upd_ntfn n (\<lambda>x. x\<lparr>ntfnMsgIdentifier := ntfnMsgIdentifier x OR badge\<rparr>) s))"

end
