(* ===== verification/Decode.thy ===== *)
theory Decode
  imports IpcTransfer
begin

text \<open>
  What the decoders of the invocations share: the labels of the messages
  (\<^verbatim>\<open>sel4_common/src/arch/aarch64/message_info.rs\<close>), the error codes, the access to the arguments and the
  extra capabilities of a message, and the checks of \<^verbatim>\<open>kernel/src/syscall/utils.rs\<close>.  A decoder returns
  an exception and the new state; \<open>None\<close> is a panic.
\<close>

section \<open>Labels\<close>

datatype MessageLabel =
    InvalidInvocation | UntypedRetype
  | TCBReadRegisters | TCBWriteRegisters | TCBCopyRegisters | TCBConfigure | TCBSetPriority | TCBSetMCPriority
  | TCBSetSchedParams | TCBSetIPCBuffer | TCBSetSpace | TCBSuspend | TCBResume | TCBBindNotification
  | TCBUnbindNotification | TCBSetTLSBase
  | CNodeRevoke | CNodeDelete | CNodeCancelBadgedSends | CNodeCopy | CNodeMint | CNodeMove | CNodeMutate
  | CNodeRotate | CNodeSaveCaller
  | IRQIssueIRQHandler | IRQAckIRQ | IRQSetIRQHandler | IRQClearIRQHandler | DomainSetSet
  | ARMVSpaceClean_Data | ARMVSpaceInvalidate_Data | ARMVSpaceCleanInvalidate_Data | ARMVSpaceUnify_Instruction
  | ARMSMCCall | ARMPageTableMap | ARMPageTableUnmap | ARMPageMap | ARMPageUnmap
  | ARMPageClean_Data | ARMPageInvalidate_Data | ARMPageCleanInvalidate_Data | ARMPageUnify_Instruction
  | ARMPageGetAddress | ARMASIDControlMakePool | ARMASIDPoolAssign | ARMIRQIssueIRQHandlerTrigger
  | nArchInvocationLabels

definition MESSAGE_LABELS :: "MessageLabel list" where
  "MESSAGE_LABELS =
    [InvalidInvocation, UntypedRetype,
     TCBReadRegisters, TCBWriteRegisters, TCBCopyRegisters, TCBConfigure, TCBSetPriority, TCBSetMCPriority,
     TCBSetSchedParams, TCBSetIPCBuffer, TCBSetSpace, TCBSuspend, TCBResume, TCBBindNotification,
     TCBUnbindNotification, TCBSetTLSBase,
     CNodeRevoke, CNodeDelete, CNodeCancelBadgedSends, CNodeCopy, CNodeMint, CNodeMove, CNodeMutate,
     CNodeRotate, CNodeSaveCaller,
     IRQIssueIRQHandler, IRQAckIRQ, IRQSetIRQHandler, IRQClearIRQHandler, DomainSetSet,
     ARMVSpaceClean_Data, ARMVSpaceInvalidate_Data, ARMVSpaceCleanInvalidate_Data, ARMVSpaceUnify_Instruction,
     ARMSMCCall, ARMPageTableMap, ARMPageTableUnmap, ARMPageMap, ARMPageUnmap,
     ARMPageClean_Data, ARMPageInvalidate_Data, ARMPageCleanInvalidate_Data, ARMPageUnify_Instruction,
     ARMPageGetAddress, ARMASIDControlMakePool, ARMASIDPoolAssign, ARMIRQIssueIRQHandlerTrigger,
     nArchInvocationLabels]"

text \<open>The label is reinterpreted as the enumeration without a check; a value that is no label is undefined
  behaviour, \<open>None\<close> here.\<close>

definition get_message_label :: "seL4_MessageInfo \<Rightarrow> MessageLabel option" where
  "get_message_label info = nth_opt MESSAGE_LABELS (unat (ucast (mi_get_label info) :: 32 word))"

definition is_cnode_label :: "MessageLabel \<Rightarrow> bool" where
  "is_cnode_label l \<longleftrightarrow>
     l \<in> {CNodeRevoke, CNodeDelete, CNodeCancelBadgedSends, CNodeCopy, CNodeMint, CNodeMove, CNodeMutate,
          CNodeRotate, CNodeSaveCaller}"

section \<open>Errors\<close>

definition SEL4_INVALID_ARGUMENT :: word64 where "SEL4_INVALID_ARGUMENT = 1"
definition SEL4_INVALID_CAPABILITY :: word64 where "SEL4_INVALID_CAPABILITY = 2"
definition SEL4_ILLEGAL_OPERATION :: word64 where "SEL4_ILLEGAL_OPERATION = 3"
definition SEL4_RANGE_ERROR :: word64 where "SEL4_RANGE_ERROR = 4"
definition SEL4_ALIGNMENT_ERROR :: word64 where "SEL4_ALIGNMENT_ERROR = 5"
definition SEL4_FAILED_LOOKUP :: word64 where "SEL4_FAILED_LOOKUP = 6"
definition SEL4_TRUNCATED_MESSAGE :: word64 where "SEL4_TRUNCATED_MESSAGE = 7"
definition SEL4_DELETE_FIRST :: word64 where "SEL4_DELETE_FIRST = 8"
definition SEL4_REVOKE_FIRST :: word64 where "SEL4_REVOKE_FIRST = 9"
definition SEL4_NOT_ENOUGH_MEMORY :: word64 where "SEL4_NOT_ENOUGH_MEMORY = 10"

type_synonym outcome = "(exception_t \<times> kstate) option"

definition set_error :: "(syscall_error_t \<Rightarrow> syscall_error_t) \<Rightarrow> kstate \<Rightarrow> kstate" where
  "set_error f s = s\<lparr>current_syscall_error := f (current_syscall_error s)\<rparr>"

definition throw :: "word64 \<Rightarrow> kstate \<Rightarrow> outcome" where
  "throw e s = Some (EXCEPTION_SYSCALL_ERROR, set_error (\<lambda>x. x\<lparr>se_type := e\<rparr>) s)"

definition throw_argument :: "word64 \<Rightarrow> kstate \<Rightarrow> outcome" where
  "throw_argument n s =
     Some (EXCEPTION_SYSCALL_ERROR,
       set_error (\<lambda>x. x\<lparr>se_type := SEL4_INVALID_ARGUMENT, invalidArgumentNumber := n\<rparr>) s)"

definition throw_capability :: "word64 \<Rightarrow> kstate \<Rightarrow> outcome" where
  "throw_capability n s =
     Some (EXCEPTION_SYSCALL_ERROR,
       set_error (\<lambda>x. x\<lparr>se_type := SEL4_INVALID_CAPABILITY, invalidCapNumber := n\<rparr>) s)"

definition throw_range :: "word64 \<Rightarrow> word64 \<Rightarrow> kstate \<Rightarrow> outcome" where
  "throw_range lo hi s =
     Some (EXCEPTION_SYSCALL_ERROR,
       set_error (\<lambda>x. x\<lparr>se_type := SEL4_RANGE_ERROR, rangeErrorMin := lo, rangeErrorMax := hi\<rparr>) s)"

definition throw_lookup :: "bool \<Rightarrow> kstate \<Rightarrow> outcome" where
  "throw_lookup is_source s =
     Some (EXCEPTION_SYSCALL_ERROR,
       set_error (\<lambda>x. x\<lparr>se_type := SEL4_FAILED_LOOKUP, failedLookupWasSource := of_bool is_source\<rparr>) s)"

section \<open>Arguments and extra capabilities\<close>

definition get_syscall_arg :: "nat \<Rightarrow> ptr \<Rightarrow> kstate \<Rightarrow> word64 option" where
  "get_syscall_arg i buffer s =
    (if i < MSG_REGISTER_NUM then do { cur \<leftarrow> get_currenct_thread s; get_reg cur (Msg i) s }
     else nth_opt (buf_msg (ks_bufs s buffer)) i)"

definition get_extra_cap_by_index :: "nat \<Rightarrow> kstate \<Rightarrow> ptr option option" where
  "get_extra_cap_by_index i s = do {
     kassert (i < SEL4_MSG_MAX_EXTRA_CAPS);
     slot \<leftarrow> nth_opt (current_extra_caps s) i;
     Some (if slot = 0 then None else Some slot)
   }"

definition lookup_extra_caps_current :: "ptr \<Rightarrow> ptr option \<Rightarrow> kstate \<Rightarrow> outcome" where
  "lookup_extra_caps_current thread buf s = do {
     (fault, res) \<leftarrow> lookup_extra_caps_with_buf thread (current_extra_caps s) buf s;
     let s = s\<lparr>current_extra_caps := res\<rparr>;
     case fault of
       None \<Rightarrow> Some (EXCEPTION_NONE, s)
     | Some f \<Rightarrow> Some (EXCEPTION_LOOKUP_FAULT, s\<lparr>current_fault := f\<rparr>)
   }"

definition set_current_state :: "ThreadState \<Rightarrow> kstate \<Rightarrow> kstate option" where
  "set_current_state st s = do { cur \<leftarrow> get_currenct_thread s; set_thread_state cur st s }"

lemma set_thread_state_restart: "set_thread_state t ThreadStateRestart s = Some (set_tsType t ThreadStateRestart s)"
  by (simp add: set_thread_state_def schedule_tcb_def is_schedulable_def is_runnable_def get_state_def set_tsType_def)

section \<open>Checks\<close>

definition SEL4_MIN_PRIO :: word64 where "SEL4_MIN_PRIO = 0"
definition SEL4_IPC_BUFFER_SIZE_BITS :: word64 where "SEL4_IPC_BUFFER_SIZE_BITS = 10"

definition check_prio :: "word64 \<Rightarrow> ptr \<Rightarrow> kstate \<Rightarrow> outcome" where
  "check_prio prio auth_tcb s =
    (if prio > tcbMCP (tcb_at s auth_tcb) then throw_range SEL4_MIN_PRIO (tcbMCP (tcb_at s auth_tcb)) s
     else Some (EXCEPTION_NONE, s))"

definition check_ipc_buffer_vaild :: "word64 \<Rightarrow> cap \<Rightarrow> kstate \<Rightarrow> outcome" where
  "check_ipc_buffer_vaild vptr c s =
    (if \<not> is_cap_frame_cap c then throw SEL4_ILLEGAL_OPERATION s
     else if capFIsDevice c then throw SEL4_ILLEGAL_OPERATION s
     else if \<not> is_aligned vptr SEL4_IPC_BUFFER_SIZE_BITS then throw SEL4_ALIGNMENT_ERROR s
     else Some (EXCEPTION_NONE, s))"

definition lookup_slot_for_cnode_op ::
  "bool \<Rightarrow> cap \<Rightarrow> word64 \<Rightarrow> word64 \<Rightarrow> kstate \<Rightarrow> (lookupSlot_raw_ret_t \<times> kstate) option" where
  "lookup_slot_for_cnode_op is_source root cap_ptr depth s =
    (let err = (\<lambda>r. map_option (\<lambda>(st, s). (\<lparr> ls_status = st, ls_slot = 0 \<rparr>, s)) r) in
     if \<not> is_cap_cnode_cap root then
       err (throw_lookup is_source (s\<lparr>current_lookup_fault := invalid_root\<rparr>))
     else if depth < 1 \<or> depth > WORD_BITS then err (throw_range 1 WORD_BITS s)
     else do {
       res \<leftarrow> resolve_address_bits (ks_ctes s) root cap_ptr depth;
       if ra_status res \<noteq> EXCEPTION_NONE then err (throw_lookup is_source s)
       else if ra_bitsRemaining res \<noteq> 0 then
         err (throw_lookup is_source
           (s\<lparr>current_lookup_fault := depth_mismatch 0 (ucast (ra_bitsRemaining res))\<rparr>))
       else Some (\<lparr> ls_status = EXCEPTION_NONE, ls_slot = ra_slot res \<rparr>, s)
     })"

definition ensure_empty_slot :: "ptr \<Rightarrow> kstate \<Rightarrow> outcome" where
  "ensure_empty_slot slot s =
    (if capability (ks_ctes s slot) \<noteq> cap_null_cap then throw SEL4_DELETE_FIRST s
     else Some (EXCEPTION_NONE, s))"

end
