(* ===== verification/TcbInv.thy ===== *)
theory TcbInv
  imports Decode
begin

text \<open>
  Invocations of thread capabilities: the operations of
  \<^verbatim>\<open>kernel/src/syscall/invocation/invoke_tcb.rs\<close> and their decoders in
  \<^verbatim>\<open>kernel/src/syscall/invocation/decode/decode_tcb_invocation.rs\<close>.  The operations that replace a root
  capability of a thread delete the old one and take the fuel of \<open>delete_all\<close> as their first argument.
\<close>

section \<open>Registers\<close>

definition FRAME_REG_NUM :: nat where "FRAME_REG_NUM = 17"
definition GP_REG_NUM :: nat where "GP_REG_NUM = 19"

lemmas reg_nums = FRAME_REG_NUM_def GP_REG_NUM_def MSG_REGISTER_NUM_def

text \<open>Registers of a thread, written to the words of a buffer from the index \<open>off\<close> on.\<close>

primrec regs_to_buffer :: "nat list \<Rightarrow> ptr \<Rightarrow> (nat \<Rightarrow> ArchReg) \<Rightarrow> ptr \<Rightarrow> nat \<Rightarrow> kstate \<Rightarrow> kstate option" where
  "regs_to_buffer [] src f buffer off s = Some s"
| "regs_to_buffer (i # is) src f buffer off s = do {
     v \<leftarrow> get_reg src (f i) s;
     s \<leftarrow> set_buf_msg buffer (i + off) v s;
     regs_to_buffer is src f buffer off s
   }"

definition invoke_tcb_read_registers :: "ptr \<Rightarrow> word64 \<Rightarrow> nat \<Rightarrow> bool \<Rightarrow> kstate \<Rightarrow> outcome" where
  "invoke_tcb_read_registers src suspend_source n call s = do {
     thread \<leftarrow> get_currenct_thread s;
     s \<leftarrow> (if suspend_source \<noteq> 0 then do { s \<leftarrow> cancel_ipc src s; suspend src s } else Some s);
     s \<leftarrow> (if call then do {
         op_ipc_buffer \<leftarrow> lookup_mut_ipc_buffer thread True s;
         s \<leftarrow> set_reg thread Badge 0 s;
         let i = min n (min FRAME_REG_NUM MSG_REGISTER_NUM);
         s \<leftarrow> copy_regs [0 ..< i] src Frame thread Msg s;
         (j, s) \<leftarrow> (case op_ipc_buffer of
             Some ipc_buffer \<Rightarrow> do {
               s \<leftarrow> regs_to_buffer [i ..< min n FRAME_REG_NUM] src Frame ipc_buffer 0 s;
               Some (max i (min n FRAME_REG_NUM), s)
             }
           | None \<Rightarrow> Some (i, s));
         let i = min GP_REG_NUM (min n MSG_REGISTER_NUM - FRAME_REG_NUM);
         s \<leftarrow> copy_regs [0 ..< i] src GP thread (\<lambda>i. Msg (i + FRAME_REG_NUM)) s;
         (i, s) \<leftarrow> (case op_ipc_buffer of
             Some ipc_buffer \<Rightarrow> do {
               s \<leftarrow> regs_to_buffer [i ..< min GP_REG_NUM (n - FRAME_REG_NUM)] src GP ipc_buffer FRAME_REG_NUM s;
               Some (max i (min GP_REG_NUM (n - FRAME_REG_NUM)), s)
             }
           | None \<Rightarrow> Some (i, s));
         set_reg thread MsgInfo (mi_new 0 0 0 (of_nat (i + j))) s
       } else Some s);
     s \<leftarrow> set_thread_state thread ThreadStateRunning s;
     Some (EXCEPTION_NONE, s)
   }"

text \<open>Arguments of a system call, written to the registers of a thread.\<close>

primrec args_to_regs :: "nat list \<Rightarrow> nat \<Rightarrow> ptr \<Rightarrow> ptr \<Rightarrow> (nat \<Rightarrow> ArchReg) \<Rightarrow> kstate \<Rightarrow> kstate option" where
  "args_to_regs [] off buffer dest f s = Some s"
| "args_to_regs (i # is) off buffer dest f s = do {
     v \<leftarrow> get_syscall_arg (i + off) buffer s;
     s \<leftarrow> set_reg dest (f i) v s;
     args_to_regs is off buffer dest f s
   }"

definition invoke_tcb_write_registers :: "ptr \<Rightarrow> word64 \<Rightarrow> nat \<Rightarrow> ptr \<Rightarrow> kstate \<Rightarrow> outcome" where
  "invoke_tcb_write_registers dest resumeTarget n buffer s = do {
     let n = min n (FRAME_REG_NUM + GP_REG_NUM);
     s \<leftarrow> args_to_regs [0 ..< min FRAME_REG_NUM n] 2 buffer dest Frame s;
     s \<leftarrow> args_to_regs [0 ..< min GP_REG_NUM (n - FRAME_REG_NUM)] (FRAME_REG_NUM + 2) buffer dest GP s;
     ip \<leftarrow> get_reg dest FaultIP s;
     s \<leftarrow> set_reg dest NextIP ip s;
     s \<leftarrow> (if resumeTarget \<noteq> 0 then do {
         s \<leftarrow> (if is_stopped s dest then cancel_ipc dest s else Some s);
         restart dest s
       } else Some s);
     cur \<leftarrow> is_current s dest;
     s \<leftarrow> (if cur then reschedule_required s else Some s);
     Some (EXCEPTION_NONE, s)
   }"

definition invoke_tcb_copy_registers :: "ptr \<Rightarrow> ptr \<Rightarrow> word64 \<Rightarrow> word64 \<Rightarrow> word64 \<Rightarrow> kstate \<Rightarrow> outcome" where
  "invoke_tcb_copy_registers dest src suspendSource resumeTarget transferFrame s = do {
     s \<leftarrow> (if suspendSource \<noteq> 0 then do { s \<leftarrow> cancel_ipc src s; suspend src s } else Some s);
     s \<leftarrow> (if resumeTarget \<noteq> 0 then do { s \<leftarrow> cancel_ipc dest s; restart dest s } else Some s);
     s \<leftarrow> (if transferFrame \<noteq> 0 then copy_regs [0 ..< GP_REG_NUM] src GP dest GP s else Some s);
     cur \<leftarrow> is_current s dest;
     s \<leftarrow> (if cur then reschedule_required s else Some s);
     Some (EXCEPTION_NONE, s)
   }"

section \<open>Operations on threads\<close>

definition invoke_tcb_suspend :: "ptr \<Rightarrow> kstate \<Rightarrow> outcome" where
  "invoke_tcb_suspend thread s = do {
     s \<leftarrow> cancel_ipc thread s;
     s \<leftarrow> suspend thread s;
     Some (EXCEPTION_NONE, s)
   }"

definition invoke_tcb_resume :: "ptr \<Rightarrow> kstate \<Rightarrow> outcome" where
  "invoke_tcb_resume thread s = do {
     s \<leftarrow> (if is_stopped s thread then cancel_ipc thread s else Some s);
     s \<leftarrow> restart thread s;
     Some (EXCEPTION_NONE, s)
   }"

definition invoke_tcb_set_mcp :: "ptr \<Rightarrow> word64 \<Rightarrow> kstate \<Rightarrow> outcome" where
  "invoke_tcb_set_mcp target mcp s = Some (EXCEPTION_NONE, set_mc_priority target mcp s)"

definition invoke_tcb_set_priority :: "ptr \<Rightarrow> word64 \<Rightarrow> kstate \<Rightarrow> outcome" where
  "invoke_tcb_set_priority target prio s = do {
     s \<leftarrow> set_priority target prio s;
     Some (EXCEPTION_NONE, s)
   }"

text \<open>
  The capability \<open>new_cap\<close> goes into \<open>dest\<close> unless deleting the old capability changed the object behind the
  source slot or behind the slot the invocation came from.
\<close>

definition insert_if_same :: "ptr \<Rightarrow> ptr \<Rightarrow> cap \<Rightarrow> ptr \<Rightarrow> ptr \<Rightarrow> kstate \<Rightarrow> kstate option" where
  "insert_if_same target slot new_cap src_slot dest s = do {
     same_src \<leftarrow> same_object_as new_cap (capability (ks_ctes s src_slot));
     same \<leftarrow> (if same_src then same_object_as (cap_thread_cap target) (capability (ks_ctes s slot)) else Some False);
     if same then on_ctes (cte_insert new_cap src_slot dest) s else Some s
   }"

definition invoke_tcb_set_space :: "nat \<Rightarrow> ptr \<Rightarrow> ptr \<Rightarrow> word64 \<Rightarrow> cap \<Rightarrow> ptr \<Rightarrow> cap \<Rightarrow> ptr \<Rightarrow> kstate \<Rightarrow> outcome" where
  "invoke_tcb_set_space m target slot fault_ep croot_new_cap croot_src_slot vroot_new_cap vroot_src_slot s = do {
     let s = upd_tcb target (\<lambda>t. t\<lparr>tcbFaultHandler := fault_ep\<rparr>) s;
     let root_slot = get_cspace target TCB_CTABLE;
     (status, s) \<leftarrow> delete_all m root_slot True s;
     if status \<noteq> EXCEPTION_NONE then Some (status, s)
     else do {
       s \<leftarrow> insert_if_same target slot croot_new_cap croot_src_slot root_slot s;
       let root_vslot = get_cspace target TCB_VTABLE;
       (status, s) \<leftarrow> delete_all m root_vslot True s;
       if status \<noteq> EXCEPTION_NONE then Some (status, s)
       else do {
         s \<leftarrow> insert_if_same target slot vroot_new_cap vroot_src_slot root_vslot s;
         Some (EXCEPTION_NONE, s)
       }
     }
   }"

definition invoke_tcb_set_ipc_buffer :: "nat \<Rightarrow> ptr \<Rightarrow> ptr \<Rightarrow> word64 \<Rightarrow> cap \<Rightarrow> ptr option \<Rightarrow> kstate \<Rightarrow> outcome" where
  "invoke_tcb_set_ipc_buffer m target slot buffer_addr buffer_cap buffer_src_slot s = do {
     let buffer_slot = get_cspace target TCB_BUFFER;
     (status, s) \<leftarrow> delete_all m buffer_slot True s;
     if status \<noteq> EXCEPTION_NONE then Some (status, s)
     else do {
       let s = upd_tcb target (\<lambda>t. t\<lparr>tcbIPCBuffer := buffer_addr\<rparr>) s;
       s \<leftarrow> (case buffer_src_slot of
           Some src \<Rightarrow> insert_if_same target slot buffer_cap src buffer_slot s
         | None \<Rightarrow> Some s);
       cur \<leftarrow> is_current s target;
       s \<leftarrow> (if cur then reschedule_required s else Some s);
       Some (EXCEPTION_NONE, s)
     }
   }"

definition invoke_tcb_bind_notification :: "ptr \<Rightarrow> ptr \<Rightarrow> kstate \<Rightarrow> outcome" where
  "invoke_tcb_bind_notification tcb ntfn s = Some (EXCEPTION_NONE, do_bind_notification tcb ntfn s)"

definition invoke_tcb_unbind_notification :: "ptr \<Rightarrow> kstate \<Rightarrow> outcome" where
  "invoke_tcb_unbind_notification tcb s = Some (EXCEPTION_NONE, safe_unbind_notification tcb s)"

definition invoke_tcb_set_tls_base :: "ptr \<Rightarrow> word64 \<Rightarrow> kstate \<Rightarrow> outcome" where
  "invoke_tcb_set_tls_base thread base s = do {
     s \<leftarrow> set_reg thread TlsBase base s;
     cur \<leftarrow> is_current s thread;
     s \<leftarrow> (if cur then reschedule_required s else Some s);
     Some (EXCEPTION_NONE, s)
   }"

section \<open>Decoding\<close>

definition decode_read_registers :: "cap \<Rightarrow> nat \<Rightarrow> bool \<Rightarrow> ptr \<Rightarrow> kstate \<Rightarrow> outcome" where
  "decode_read_registers c len call buffer s =
    (if len < 2 then throw SEL4_TRUNCATED_MESSAGE s
     else do {
       flags \<leftarrow> get_syscall_arg 0 buffer s;
       n \<leftarrow> get_syscall_arg 1 buffer s;
       if n < 1 \<or> n > of_nat (FRAME_REG_NUM + GP_REG_NUM)
       then throw_range 1 (of_nat (FRAME_REG_NUM + GP_REG_NUM)) s
       else do {
         thread \<leftarrow> convert_to_mut_type_ref (capTCBPtr c);
         cur \<leftarrow> is_current s thread;
         if cur then throw SEL4_ILLEGAL_OPERATION s
         else do {
           s \<leftarrow> set_current_state ThreadStateRestart s;
           invoke_tcb_read_registers thread (flags AND bit_mac 0) (unat n) call s
         }
       }
     })"

definition decode_write_registers :: "cap \<Rightarrow> nat \<Rightarrow> ptr \<Rightarrow> kstate \<Rightarrow> outcome" where
  "decode_write_registers c len buffer s =
    (if len < 2 then throw SEL4_TRUNCATED_MESSAGE s
     else do {
       flags \<leftarrow> get_syscall_arg 0 buffer s;
       w \<leftarrow> get_syscall_arg 1 buffer s;
       if len - 2 < unat w then throw SEL4_TRUNCATED_MESSAGE s
       else do {
         thread \<leftarrow> convert_to_mut_type_ref (capTCBPtr c);
         cur \<leftarrow> is_current s thread;
         if cur then throw SEL4_ILLEGAL_OPERATION s
         else do {
           s \<leftarrow> set_current_state ThreadStateRestart s;
           invoke_tcb_write_registers thread (flags AND bit_mac 0) (unat w) buffer s
         }
       }
     })"

text \<open>
  The source of the registers is the first extra capability: without one the code panics, and its kind is not
  checked.  The model has no value for the thread pointer of a capability of another kind and is undefined there.
\<close>

definition decode_copy_registers :: "cap \<Rightarrow> ptr \<Rightarrow> kstate \<Rightarrow> outcome" where
  "decode_copy_registers c buffer s = do {
     flags \<leftarrow> get_syscall_arg 0 buffer s;
     extra \<leftarrow> get_extra_cap_by_index 0 s;
     slot \<leftarrow> extra;
     let source_cap = capability (ks_ctes s slot);
     if \<not> is_cap_thread_cap c then throw SEL4_TRUNCATED_MESSAGE s
     else do {
       kassert (is_cap_thread_cap source_cap);
       src_tcb \<leftarrow> convert_to_mut_type_ref (capTCBPtr source_cap);
       dest \<leftarrow> convert_to_mut_type_ref (capTCBPtr c);
       invoke_tcb_copy_registers dest src_tcb (flags AND bit_mac 0) (flags AND bit_mac 1) (flags AND bit_mac 2) s
     }
   }"

definition decode_set_space_args :: "word64 \<Rightarrow> cap \<Rightarrow> ptr \<Rightarrow> kstate \<Rightarrow> ((exception_t + cap) \<times> kstate) option" where
  "decode_set_space_args root_data root_cap root_slot s = do {
     let ret_root_cap = (if root_data \<noteq> 0 then update_data root_cap False root_data else root_cap);
     dc_ret \<leftarrow> derive_cap (ks_ctes s) root_slot ret_root_cap;
     if dc_status dc_ret \<noteq> EXCEPTION_NONE
     then Some (Inl (dc_status dc_ret), set_error (\<lambda>x. x\<lparr>se_type := SEL4_ILLEGAL_OPERATION\<rparr>) s)
     else Some (Inr (dc_capability dc_ret), s)
   }"

text \<open>
  The part that \<open>decode_tcb_configure\<close> and \<open>decode_set_space\<close> share: the new roots, or \<open>None\<close> where the call
  fails with the error that was set.  A failed derivation is unwrapped before it is matched, which panics.
\<close>

definition decode_space_roots ::
  "ptr \<Rightarrow> word64 \<Rightarrow> ptr \<Rightarrow> word64 \<Rightarrow> ptr \<Rightarrow> kstate \<Rightarrow> ((cap \<times> cap) option \<times> kstate) option" where
  "decode_space_roots target croot_data croot_slot vroot_data vroot_slot s = do {
     let illegal = (\<lambda>s. Some (None, set_error (\<lambda>x. x\<lparr>se_type := SEL4_ILLEGAL_OPERATION\<rparr>) s));
     c_long \<leftarrow> is_long_running_delete (ks_ctes s) (get_cspace target TCB_CTABLE);
     long \<leftarrow> (if c_long then Some True else is_long_running_delete (ks_ctes s) (get_cspace target TCB_VTABLE));
     if long then illegal s
     else do {
       (r, s) \<leftarrow> decode_set_space_args croot_data (capability (ks_ctes s croot_slot)) croot_slot s;
       case r of
         Inl _ \<Rightarrow> None
       | Inr croot_cap \<Rightarrow>
           if \<not> is_cap_cnode_cap croot_cap then illegal s
           else do {
             (r, s) \<leftarrow> decode_set_space_args vroot_data (capability (ks_ctes s vroot_slot)) vroot_slot s;
             case r of
               Inl _ \<Rightarrow> None
             | Inr vroot_cap \<Rightarrow>
                 if \<not> is_valid_vtable_root vroot_cap then illegal s
                 else Some (Some (croot_cap, vroot_cap), s)
           }
     }
   }"

definition decode_buffer ::
  "word64 \<Rightarrow> ptr \<Rightarrow> kstate \<Rightarrow> ((exception_t + ptr option \<times> cap) \<times> kstate) option" where
  "decode_buffer addr slot s =
    (if addr = 0 then Some (Inr (None, cap_null_cap), s)
     else do {
       dc_ret \<leftarrow> derive_cap (ks_ctes s) slot (capability (ks_ctes s slot));
       if dc_status dc_ret \<noteq> EXCEPTION_NONE
       then Some (Inl (dc_status dc_ret), set_error (\<lambda>x. x\<lparr>se_type := SEL4_ILLEGAL_OPERATION\<rparr>) s)
       else do {
         (status, s) \<leftarrow> check_ipc_buffer_vaild addr (dc_capability dc_ret) s;
         if status \<noteq> EXCEPTION_NONE then Some (Inl status, s)
         else Some (Inr (Some slot, dc_capability dc_ret), s)
       }
     })"

text \<open>The first \<open>n\<close> extra capabilities, if all of them are present.\<close>

primrec extra_slots :: "nat list \<Rightarrow> kstate \<Rightarrow> ptr list option option" where
  "extra_slots [] s = Some (Some [])"
| "extra_slots (i # is) s = do {
     e \<leftarrow> get_extra_cap_by_index i s;
     case e of
       None \<Rightarrow> Some None
     | Some slot \<Rightarrow> map_option (map_option ((#) slot)) (extra_slots is s)
   }"

definition decode_tcb_configure :: "nat \<Rightarrow> cap \<Rightarrow> nat \<Rightarrow> ptr \<Rightarrow> ptr \<Rightarrow> kstate \<Rightarrow> outcome" where
  "decode_tcb_configure m c len target_slot buffer s = do {
     extra \<leftarrow> (if len < 3 then Some None else extra_slots [0, 1, 2] s);
     case extra of
       Some [croot_slot, vroot_slot, buffer_slot] \<Rightarrow> do {
         fault_ep \<leftarrow> get_syscall_arg 0 buffer s;
         croot_data \<leftarrow> get_syscall_arg 1 buffer s;
         vroot_data \<leftarrow> get_syscall_arg 2 buffer s;
         new_buffer_addr \<leftarrow> get_syscall_arg 3 buffer s;
         (b, s) \<leftarrow> decode_buffer new_buffer_addr buffer_slot s;
         case b of
           Inl status \<Rightarrow> Some (status, s)
         | Inr (buffer_src, buffer_cap) \<Rightarrow> do {
             target \<leftarrow> convert_to_mut_type_ref (capTCBPtr c);
             (roots, s) \<leftarrow> decode_space_roots target croot_data croot_slot vroot_data vroot_slot s;
             case roots of
               None \<Rightarrow> Some (EXCEPTION_SYSCALL_ERROR, s)
             | Some (croot_cap, vroot_cap) \<Rightarrow> do {
                 s \<leftarrow> set_current_state ThreadStateRestart s;
                 (status, s) \<leftarrow>
                   invoke_tcb_set_space m target target_slot fault_ep croot_cap croot_slot vroot_cap vroot_slot s;
                 if status \<noteq> EXCEPTION_NONE then Some (status, s)
                 else invoke_tcb_set_ipc_buffer m target target_slot new_buffer_addr buffer_cap buffer_src s
               }
           }
       }
     | _ \<Rightarrow> throw SEL4_TRUNCATED_MESSAGE s
   }"

definition decode_set_space :: "nat \<Rightarrow> cap \<Rightarrow> nat \<Rightarrow> ptr \<Rightarrow> ptr \<Rightarrow> kstate \<Rightarrow> outcome" where
  "decode_set_space m c len slot buffer s = do {
     extra \<leftarrow> (if len < 3 then Some None else extra_slots [0, 1] s);
     case extra of
       Some [croot_slot, vroot_slot] \<Rightarrow> do {
         fault_ep \<leftarrow> get_syscall_arg 0 buffer s;
         croot_data \<leftarrow> get_syscall_arg 1 buffer s;
         vroot_data \<leftarrow> get_syscall_arg 2 buffer s;
         target \<leftarrow> convert_to_mut_type_ref (capTCBPtr c);
         (roots, s) \<leftarrow> decode_space_roots target croot_data croot_slot vroot_data vroot_slot s;
         case roots of
           None \<Rightarrow> Some (EXCEPTION_SYSCALL_ERROR, s)
         | Some (croot_cap, vroot_cap) \<Rightarrow> do {
             s \<leftarrow> set_current_state ThreadStateRestart s;
             invoke_tcb_set_space m target slot fault_ep croot_cap croot_slot vroot_cap vroot_slot s
           }
       }
     | _ \<Rightarrow> throw SEL4_TRUNCATED_MESSAGE s
   }"

definition decode_set_ipc_buffer :: "nat \<Rightarrow> cap \<Rightarrow> nat \<Rightarrow> ptr \<Rightarrow> ptr \<Rightarrow> kstate \<Rightarrow> outcome" where
  "decode_set_ipc_buffer m c len slot buffer s = do {
     extra \<leftarrow> (if len < 1 then Some None else get_extra_cap_by_index 0 s);
     case extra of
       None \<Rightarrow> throw SEL4_TRUNCATED_MESSAGE s
     | Some extra_slot \<Rightarrow> do {
         buffer_addr \<leftarrow> get_syscall_arg 0 buffer s;
         (b, s) \<leftarrow> decode_buffer buffer_addr extra_slot s;
         case b of
           Inl status \<Rightarrow> Some (status, s)
         | Inr (buffer_src, buffer_cap) \<Rightarrow> do {
             s \<leftarrow> set_current_state ThreadStateRestart s;
             target \<leftarrow> convert_to_mut_type_ref (capTCBPtr c);
             invoke_tcb_set_ipc_buffer m target slot buffer_addr buffer_cap buffer_src s
           }
       }
   }"

text \<open>The thread whose priority limits a new priority: the first extra capability, which must name a thread.\<close>

definition decode_set_priority :: "cap \<Rightarrow> nat \<Rightarrow> ptr \<Rightarrow> kstate \<Rightarrow> outcome" where
  "decode_set_priority c len buffer s = do {
     extra \<leftarrow> (if len < 1 then Some None else get_extra_cap_by_index 0 s);
     case extra of
       None \<Rightarrow> throw SEL4_TRUNCATED_MESSAGE s
     | Some auth_slot \<Rightarrow> do {
         new_prio \<leftarrow> get_syscall_arg 0 buffer s;
         let auth_cap = capability (ks_ctes s auth_slot);
         if \<not> is_cap_thread_cap auth_cap then throw_capability 1 s
         else do {
           auth_tcb \<leftarrow> convert_to_mut_type_ref (capTCBPtr auth_cap);
           (status, s) \<leftarrow> check_prio new_prio auth_tcb s;
           if status \<noteq> EXCEPTION_NONE then Some (status, s)
           else do {
             s \<leftarrow> set_current_state ThreadStateRestart s;
             target \<leftarrow> convert_to_mut_type_ref (capTCBPtr c);
             invoke_tcb_set_priority target new_prio s
           }
         }
       }
   }"

definition decode_set_mc_priority :: "cap \<Rightarrow> nat \<Rightarrow> ptr \<Rightarrow> kstate \<Rightarrow> outcome" where
  "decode_set_mc_priority c len buffer s = do {
     extra \<leftarrow> (if len < 1 then Some None else get_extra_cap_by_index 0 s);
     case extra of
       None \<Rightarrow> throw SEL4_TRUNCATED_MESSAGE s
     | Some auth_slot \<Rightarrow> do {
         new_mcp \<leftarrow> get_syscall_arg 0 buffer s;
         let auth_cap = capability (ks_ctes s auth_slot);
         if \<not> is_cap_thread_cap auth_cap then throw_capability 1 s
         else do {
           auth_tcb \<leftarrow> convert_to_mut_type_ref (capTCBPtr auth_cap);
           (status, s) \<leftarrow> check_prio new_mcp auth_tcb s;
           if status \<noteq> EXCEPTION_NONE then Some (status, s)
           else do {
             s \<leftarrow> set_current_state ThreadStateRestart s;
             target \<leftarrow> convert_to_mut_type_ref (capTCBPtr c);
             invoke_tcb_set_mcp target new_mcp s
           }
         }
       }
   }"

definition decode_set_sched_params :: "cap \<Rightarrow> nat \<Rightarrow> ptr \<Rightarrow> kstate \<Rightarrow> outcome" where
  "decode_set_sched_params c len buffer s = do {
     extra \<leftarrow> (if len < 2 then Some None else get_extra_cap_by_index 0 s);
     case extra of
       None \<Rightarrow> throw SEL4_TRUNCATED_MESSAGE s
     | Some auth_slot \<Rightarrow> do {
         new_mcp \<leftarrow> get_syscall_arg 0 buffer s;
         new_prio \<leftarrow> get_syscall_arg 1 buffer s;
         let auth_cap = capability (ks_ctes s auth_slot);
         if \<not> is_cap_thread_cap auth_cap then throw_capability 1 s
         else do {
           auth_tcb \<leftarrow> convert_to_mut_type_ref (capTCBPtr auth_cap);
           (status, s) \<leftarrow> check_prio new_mcp auth_tcb s;
           if status \<noteq> EXCEPTION_NONE then Some (status, s)
           else do {
             (status, s) \<leftarrow> check_prio new_prio auth_tcb s;
             if status \<noteq> EXCEPTION_NONE then Some (status, s)
             else do {
               s \<leftarrow> set_current_state ThreadStateRestart s;
               target \<leftarrow> convert_to_mut_type_ref (capTCBPtr c);
               (_, s) \<leftarrow> invoke_tcb_set_mcp target new_mcp s;
               invoke_tcb_set_priority target new_prio s
             }
           }
         }
       }
   }"

definition decode_bind_notification :: "cap \<Rightarrow> kstate \<Rightarrow> outcome" where
  "decode_bind_notification c s = do {
     extra \<leftarrow> get_extra_cap_by_index 0 s;
     case extra of
       None \<Rightarrow> throw SEL4_TRUNCATED_MESSAGE s
     | Some slot \<Rightarrow> do {
         tcb \<leftarrow> convert_to_mut_type_ref (capTCBPtr c);
         if tcbBoundNotification (tcb_at s tcb) \<noteq> 0 then throw SEL4_ILLEGAL_OPERATION s
         else
           let ntfn_cap = capability (ks_ctes s slot) in
           if \<not> is_cap_notification_cap ntfn_cap then throw SEL4_ILLEGAL_OPERATION s
           else do {
             ntfn \<leftarrow> convert_to_mut_type_ref (capNtfnPtr ntfn_cap);
             if \<not> capNtfnCanReceive ntfn_cap then throw SEL4_ILLEGAL_OPERATION s
             else if ntfnQueue_head (ks_ntfns s ntfn) \<noteq> 0 \<or> ntfnQueue_tail (ks_ntfns s ntfn) \<noteq> 0
             then throw SEL4_ILLEGAL_OPERATION s
             else do {
               s \<leftarrow> set_current_state ThreadStateRestart s;
               invoke_tcb_bind_notification tcb ntfn s
             }
           }
       }
   }"

definition decode_unbind_notification :: "cap \<Rightarrow> kstate \<Rightarrow> outcome" where
  "decode_unbind_notification c s = do {
     tcb \<leftarrow> convert_to_mut_type_ref (capTCBPtr c);
     if tcbBoundNotification (tcb_at s tcb) = 0 then throw SEL4_ILLEGAL_OPERATION s
     else do {
       s \<leftarrow> set_current_state ThreadStateRestart s;
       invoke_tcb_unbind_notification tcb s
     }
   }"

definition decode_set_tls_base :: "cap \<Rightarrow> nat \<Rightarrow> ptr \<Rightarrow> kstate \<Rightarrow> outcome" where
  "decode_set_tls_base c len buffer s =
    (if len < 1 then throw SEL4_TRUNCATED_MESSAGE s
     else do {
       base \<leftarrow> get_syscall_arg 0 buffer s;
       s \<leftarrow> set_current_state ThreadStateRestart s;
       thread \<leftarrow> convert_to_mut_type_ref (capTCBPtr c);
       invoke_tcb_set_tls_base thread base s
     })"

definition decode_tcb_invocation :: "nat \<Rightarrow> MessageLabel \<Rightarrow> nat \<Rightarrow> cap \<Rightarrow> ptr \<Rightarrow> bool \<Rightarrow> ptr \<Rightarrow> kstate \<Rightarrow> outcome" where
  "decode_tcb_invocation m invLabel len c slot call buffer s = (case invLabel of
       TCBReadRegisters \<Rightarrow> decode_read_registers c len call buffer s
     | TCBWriteRegisters \<Rightarrow> decode_write_registers c len buffer s
     | TCBCopyRegisters \<Rightarrow> decode_copy_registers c buffer s
     | TCBSuspend \<Rightarrow> do {
         s \<leftarrow> set_current_state ThreadStateRestart s;
         thread \<leftarrow> convert_to_mut_type_ref (capTCBPtr c);
         invoke_tcb_suspend thread s
       }
     | TCBResume \<Rightarrow> do {
         s \<leftarrow> set_current_state ThreadStateRestart s;
         thread \<leftarrow> convert_to_mut_type_ref (capTCBPtr c);
         invoke_tcb_resume thread s
       }
     | TCBConfigure \<Rightarrow> decode_tcb_configure m c len slot buffer s
     | TCBSetPriority \<Rightarrow> decode_set_priority c len buffer s
     | TCBSetMCPriority \<Rightarrow> decode_set_mc_priority c len buffer s
     | TCBSetSchedParams \<Rightarrow> decode_set_sched_params c len buffer s
     | TCBSetIPCBuffer \<Rightarrow> decode_set_ipc_buffer m c len slot buffer s
     | TCBSetSpace \<Rightarrow> decode_set_space m c len slot buffer s
     | TCBBindNotification \<Rightarrow> decode_bind_notification c s
     | TCBUnbindNotification \<Rightarrow> decode_unbind_notification c s
     | TCBSetTLSBase \<Rightarrow> decode_set_tls_base c len buffer s
     | _ \<Rightarrow> throw SEL4_ILLEGAL_OPERATION s)"

end
