(* ===== verification/CNodeInv.thy ===== *)
theory CNodeInv
  imports Decode
begin

text \<open>
  Invocations of CNode capabilities: \<^verbatim>\<open>syscall/invocation/decode/decode_cnode_invocation.rs\<close> and
  \<^verbatim>\<open>syscall/invocation/invoke_cnode.rs\<close>.  Deletion and revocation run with the fuel given as the first
  arguments.
\<close>

section \<open>Invocations\<close>

definition invoke_insert :: "ptr \<Rightarrow> ptr \<Rightarrow> cap \<Rightarrow> kstate \<Rightarrow> outcome" where
  "invoke_insert src_slot dest_slot new_cap s = do {
     dc_ret \<leftarrow> derive_cap (ks_ctes s) src_slot new_cap;
     if dc_status dc_ret \<noteq> EXCEPTION_NONE then Some (dc_status dc_ret, s)
     else if dc_capability dc_ret = cap_null_cap then throw SEL4_ILLEGAL_OPERATION s
     else do {
       s \<leftarrow> set_current_state ThreadStateRestart s;
       s \<leftarrow> on_ctes (cte_insert (dc_capability dc_ret) src_slot dest_slot) s;
       Some (EXCEPTION_NONE, s)
     }
   }"

definition invoke_cnode_copy :: "ptr \<Rightarrow> ptr \<Rightarrow> seL4_CapRights \<Rightarrow> kstate \<Rightarrow> outcome" where
  "invoke_cnode_copy src_slot dest_slot cap_right s = do {
     src_cap \<leftarrow> mask_cap_rights cap_right (capability (ks_ctes s src_slot));
     invoke_insert src_slot dest_slot src_cap s
   }"

definition invoke_cnode_mint :: "ptr \<Rightarrow> ptr \<Rightarrow> seL4_CapRights \<Rightarrow> word64 \<Rightarrow> kstate \<Rightarrow> outcome" where
  "invoke_cnode_mint src_slot dest_slot cap_right cap_data s = do {
     src_cap \<leftarrow> mask_cap_rights cap_right (capability (ks_ctes s src_slot));
     invoke_insert src_slot dest_slot (update_data src_cap False cap_data) s
   }"

definition invoke_cnode_mutate :: "ptr \<Rightarrow> ptr \<Rightarrow> word64 \<Rightarrow> kstate \<Rightarrow> outcome" where
  "invoke_cnode_mutate src_slot dest_slot cap_data s =
    (let new_cap = update_data (capability (ks_ctes s src_slot)) True cap_data in
     if new_cap = cap_null_cap then throw SEL4_ILLEGAL_OPERATION s
     else do {
       s \<leftarrow> set_current_state ThreadStateRestart s;
       s \<leftarrow> on_ctes (cte_move new_cap src_slot dest_slot) s;
       Some (EXCEPTION_NONE, s)
     })"

definition invoke_cnode_save_caller :: "ptr \<Rightarrow> kstate \<Rightarrow> outcome" where
  "invoke_cnode_save_caller dest_slot s =
    (if capability (ks_ctes s dest_slot) \<noteq> cap_null_cap then throw SEL4_DELETE_FIRST s
     else do {
       s \<leftarrow> set_current_state ThreadStateRestart s;
       cur \<leftarrow> get_currenct_thread s;
       let src_slot = get_cspace cur TCB_CALLER;
       case capability (ks_ctes s src_slot) of
         cap_null_cap \<Rightarrow> Some (EXCEPTION_NONE, s)
       | cap_reply_cap t cg master \<Rightarrow> do {
           s \<leftarrow> (if master then Some s
                 else on_ctes (cte_move (capability (ks_ctes s src_slot)) src_slot dest_slot) s);
           Some (EXCEPTION_NONE, s)
         }
       | _ \<Rightarrow> None
     })"

definition invoke_cnode_rotate :: "ptr \<Rightarrow> ptr \<Rightarrow> ptr \<Rightarrow> word64 \<Rightarrow> word64 \<Rightarrow> kstate \<Rightarrow> outcome" where
  "invoke_cnode_rotate slot1 slot2 slot3 src_new_data pivot_new_data s =
    (let new_src_cap = update_data (capability (ks_ctes s slot1)) True src_new_data;
         new_pivot_cap = update_data (capability (ks_ctes s slot2)) True pivot_new_data in
     if new_src_cap = cap_null_cap then throw SEL4_ILLEGAL_OPERATION s
     else if new_pivot_cap = cap_null_cap then throw SEL4_ILLEGAL_OPERATION s
     else do {
       s \<leftarrow> set_current_state ThreadStateRestart s;
       s \<leftarrow> (if slot1 = slot3
             then Some (s\<lparr>ks_ctes := cte_swap new_src_cap slot1 new_pivot_cap slot2 (ks_ctes s)\<rparr>)
             else do {
               s \<leftarrow> on_ctes (cte_move new_pivot_cap slot2 slot3) s;
               on_ctes (cte_move new_src_cap slot1 slot2) s
             });
       Some (EXCEPTION_NONE, s)
     })"

definition invoke_cnode_move :: "ptr \<Rightarrow> ptr \<Rightarrow> kstate \<Rightarrow> outcome" where
  "invoke_cnode_move src_slot dest_slot s =
    (let src_cap = capability (ks_ctes s src_slot) in
     if src_cap = cap_null_cap then throw SEL4_ILLEGAL_OPERATION s
     else do {
       s \<leftarrow> set_current_state ThreadStateRestart s;
       s \<leftarrow> on_ctes (cte_move src_cap src_slot dest_slot) s;
       Some (EXCEPTION_NONE, s)
     })"

fun has_cancel_send_right :: "cap \<Rightarrow> bool" where
  "has_cancel_send_right (cap_endpoint_cap badge cgr cg cr cs e) \<longleftrightarrow> cs \<and> cr \<and> cg \<and> cgr"
| "has_cancel_send_right _ \<longleftrightarrow> False"

definition invoke_cnode_cancel_badged_sends :: "ptr \<Rightarrow> kstate \<Rightarrow> outcome" where
  "invoke_cnode_cancel_badged_sends dest_slot s =
    (let dest_cap = capability (ks_ctes s dest_slot) in
     if \<not> has_cancel_send_right dest_cap then throw SEL4_ILLEGAL_OPERATION s
     else do {
       s \<leftarrow> set_current_state ThreadStateRestart s;
       let badge = capEPBadge dest_cap;
       s \<leftarrow> (if badge \<noteq> 0 then do {
               e \<leftarrow> convert_to_mut_type_ref (capEPPtr dest_cap);
               cancel_badged_sends e badge s
             } else Some s);
       Some (EXCEPTION_NONE, s)
     })"

definition invoke_cnode_revoke :: "nat \<Rightarrow> nat \<Rightarrow> ptr \<Rightarrow> kstate \<Rightarrow> outcome" where
  "invoke_cnode_revoke n m dest_slot s = do {
     s \<leftarrow> set_current_state ThreadStateRestart s;
     revoke n m dest_slot s
   }"

definition invoke_cnode_delete :: "nat \<Rightarrow> ptr \<Rightarrow> kstate \<Rightarrow> outcome" where
  "invoke_cnode_delete m dest_slot s = do {
     s \<leftarrow> set_current_state ThreadStateRestart s;
     delete_all m dest_slot True s
   }"

section \<open>Decoding\<close>

definition decode_cnode_invoke_with_two_slot :: "MessageLabel \<Rightarrow> ptr \<Rightarrow> nat \<Rightarrow> ptr \<Rightarrow> kstate \<Rightarrow> outcome" where
  "decode_cnode_invoke_with_two_slot label dest_slot len buffer s = do {
     extra \<leftarrow> (if len < 4 then Some None else get_extra_cap_by_index 0 s);
     case extra of
       None \<Rightarrow> throw SEL4_TRUNCATED_MESSAGE s
     | Some root_slot \<Rightarrow> do {
         src_index \<leftarrow> get_syscall_arg 2 buffer s;
         src_depth \<leftarrow> get_syscall_arg 3 buffer s;
         let src_root = capability (ks_ctes s root_slot);
         if capability (ks_ctes s dest_slot) \<noteq> cap_null_cap then throw SEL4_DELETE_FIRST s
         else do {
           (lu_ret, s) \<leftarrow> lookup_slot_for_cnode_op True src_root src_index src_depth s;
           if ls_status lu_ret \<noteq> EXCEPTION_NONE then Some (ls_status lu_ret, s)
           else do {
             src_slot \<leftarrow> convert_to_mut_type_ref (ls_slot lu_ret);
             if capability (ks_ctes s src_slot) = cap_null_cap then
               throw_lookup True (s\<lparr>current_lookup_fault := missing_capability (ucast src_depth)\<rparr>)
             else case label of
                 CNodeCopy \<Rightarrow>
                   if len < 5 then throw SEL4_TRUNCATED_MESSAGE s
                   else do {
                     w \<leftarrow> get_syscall_arg 4 buffer s;
                     invoke_cnode_copy src_slot dest_slot (cap_rights_of_word w) s
                   }
               | CNodeMint \<Rightarrow>
                   if len < 6 then throw SEL4_TRUNCATED_MESSAGE s
                   else do {
                     w \<leftarrow> get_syscall_arg 4 buffer s;
                     cap_data \<leftarrow> get_syscall_arg 5 buffer s;
                     invoke_cnode_mint src_slot dest_slot (cap_rights_of_word w) cap_data s
                   }
               | CNodeMove \<Rightarrow> invoke_cnode_move src_slot dest_slot s
               | CNodeMutate \<Rightarrow>
                   if len < 5 then throw SEL4_TRUNCATED_MESSAGE s
                   else do {
                     cap_data \<leftarrow> get_syscall_arg 4 buffer s;
                     invoke_cnode_mutate src_slot dest_slot cap_data s
                   }
               | _ \<Rightarrow> None
           }
         }
       }
   }"

definition rotate_checked :: "ptr \<Rightarrow> ptr \<Rightarrow> ptr \<Rightarrow> word64 \<Rightarrow> word64 \<Rightarrow> word64 \<Rightarrow> word64 \<Rightarrow> kstate \<Rightarrow> outcome" where
  "rotate_checked src_slot pivot_slot dest_slot src_depth pivot_depth src_new_data pivot_new_data s =
    (if pivot_slot = src_slot \<or> pivot_slot = dest_slot then throw SEL4_ILLEGAL_OPERATION s
     else if src_slot \<noteq> dest_slot \<and> capability (ks_ctes s dest_slot) \<noteq> cap_null_cap
       then throw SEL4_DELETE_FIRST s
     else if capability (ks_ctes s src_slot) = cap_null_cap
       then throw_lookup True (s\<lparr>current_lookup_fault := missing_capability (ucast src_depth)\<rparr>)
     else if capability (ks_ctes s pivot_slot) = cap_null_cap
       then throw_lookup False (s\<lparr>current_lookup_fault := missing_capability (ucast pivot_depth)\<rparr>)
     else invoke_cnode_rotate src_slot pivot_slot dest_slot src_new_data pivot_new_data s)"

definition decode_cnode_rotate :: "ptr \<Rightarrow> nat \<Rightarrow> ptr \<Rightarrow> kstate \<Rightarrow> outcome" where
  "decode_cnode_rotate dest_slot len buffer s = do {
     extra0 \<leftarrow> (if len < 8 then Some None else get_extra_cap_by_index 0 s);
     extra1 \<leftarrow> (if len < 8 then Some None else get_extra_cap_by_index 1 s);
     case (extra0, extra1) of
       (Some root0, Some root1) \<Rightarrow> do {
         pivot_new_data \<leftarrow> get_syscall_arg 2 buffer s;
         pivot_index \<leftarrow> get_syscall_arg 3 buffer s;
         pivot_depth \<leftarrow> get_syscall_arg 4 buffer s;
         src_new_data \<leftarrow> get_syscall_arg 5 buffer s;
         src_index \<leftarrow> get_syscall_arg 6 buffer s;
         src_depth \<leftarrow> get_syscall_arg 7 buffer s;
         let pivot_root = capability (ks_ctes s root0);
         let src_root = capability (ks_ctes s root1);
         (lu_ret, s) \<leftarrow> lookup_slot_for_cnode_op True src_root src_index src_depth s;
         if ls_status lu_ret \<noteq> EXCEPTION_NONE then Some (ls_status lu_ret, s)
         else do {
           src_slot \<leftarrow> convert_to_mut_type_ref (ls_slot lu_ret);
           (lu_ret, s) \<leftarrow> lookup_slot_for_cnode_op True pivot_root pivot_index pivot_depth s;
           if ls_status lu_ret \<noteq> EXCEPTION_NONE then Some (ls_status lu_ret, s)
           else do {
             pivot_slot \<leftarrow> convert_to_mut_type_ref (ls_slot lu_ret);
             rotate_checked src_slot pivot_slot dest_slot src_depth pivot_depth src_new_data pivot_new_data s
           }
         }
       }
     | _ \<Rightarrow> throw SEL4_TRUNCATED_MESSAGE s
   }"

definition decode_cnode_invocation ::
  "nat \<Rightarrow> nat \<Rightarrow> MessageLabel \<Rightarrow> nat \<Rightarrow> cap \<Rightarrow> ptr \<Rightarrow> kstate \<Rightarrow> outcome" where
  "decode_cnode_invocation n m label len c buffer s =
    (if \<not> is_cnode_label label then throw SEL4_ILLEGAL_OPERATION s
     else if len < 2 then throw SEL4_TRUNCATED_MESSAGE s
     else do {
       index \<leftarrow> get_syscall_arg 0 buffer s;
       w_bits \<leftarrow> get_syscall_arg 1 buffer s;
       (lu_ret, s) \<leftarrow> lookup_slot_for_cnode_op False c index w_bits s;
       if ls_status lu_ret \<noteq> EXCEPTION_NONE then Some (ls_status lu_ret, s)
       else do {
         dest_slot \<leftarrow> convert_to_mut_type_ref (ls_slot lu_ret);
         case label of
           CNodeRevoke \<Rightarrow> invoke_cnode_revoke n m dest_slot s
         | CNodeDelete \<Rightarrow> invoke_cnode_delete m dest_slot s
         | CNodeSaveCaller \<Rightarrow> invoke_cnode_save_caller dest_slot s
         | CNodeCancelBadgedSends \<Rightarrow> invoke_cnode_cancel_badged_sends dest_slot s
         | CNodeRotate \<Rightarrow> decode_cnode_rotate dest_slot len buffer s
         | _ \<Rightarrow> decode_cnode_invoke_with_two_slot label dest_slot len buffer s
       }
     })"

end
