(* ===== verification/Untyped.thy ===== *)
theory Untyped
  imports Decode
begin

text \<open>
  Retyping untyped memory: \<^verbatim>\<open>syscall/invocation/decode/decode_untyped_invocation.rs\<close>,
  \<^verbatim>\<open>syscall/invocation/invoke_untyped.rs\<close>, \<^verbatim>\<open>syscall/invocation/arch/aarch64.rs\<close> and the object
  types of \<^verbatim>\<open>sel4_common/src/object.rs\<close>.  Memory is a family of typed maps, so clearing a region resets
  every entry of every map whose address lies in the region to the object whose representation is all zero.
\<close>

section \<open>Object types\<close>

datatype ObjectType =
    UnytpedObject | TCBObject | EndpointObject | NotificationObject | CapTableObject
  | seL4_ARM_HugePageObject | seL4_ARM_VSpaceObject | seL4_ARM_SmallPageObject | seL4_ARM_LargePageObject
  | seL4_ARM_PageTableObject

definition OBJECT_TYPES :: "ObjectType list" where
  "OBJECT_TYPES = [UnytpedObject, TCBObject, EndpointObject, NotificationObject, CapTableObject,
     seL4_ARM_HugePageObject, seL4_ARM_VSpaceObject, seL4_ARM_SmallPageObject, seL4_ARM_LargePageObject,
     seL4_ARM_PageTableObject]"

definition from_usize :: "word64 \<Rightarrow> ObjectType option" where
  "from_usize w = nth_opt OBJECT_TYPES (unat w)"

fun arch_get_object_size :: "ObjectType \<Rightarrow> word64 option" where
  "arch_get_object_size seL4_ARM_SmallPageObject = Some 12"
| "arch_get_object_size seL4_ARM_LargePageObject = Some 21"
| "arch_get_object_size seL4_ARM_HugePageObject = Some 30"
| "arch_get_object_size seL4_ARM_PageTableObject = Some 12"
| "arch_get_object_size seL4_ARM_VSpaceObject = Some 12"
| "arch_get_object_size _ = None"

fun get_object_size :: "ObjectType \<Rightarrow> word64 \<Rightarrow> word64 option" where
  "get_object_size UnytpedObject user = Some user"
| "get_object_size TCBObject user = Some SEL4_TCB_BITS"
| "get_object_size EndpointObject user = Some SEL4_ENDPOINT_BITS"
| "get_object_size NotificationObject user = Some SEL4_NOTIFICATION_BITS"
| "get_object_size CapTableObject user = Some (SEL4_SLOT_BITS + user)"
| "get_object_size t user = arch_get_object_size t"

definition is_arch_type :: "ObjectType \<Rightarrow> bool" where
  "is_arch_type t \<longleftrightarrow> t \<in> {seL4_ARM_HugePageObject, seL4_ARM_SmallPageObject, seL4_ARM_LargePageObject}"

section \<open>Free memory of an untyped capability\<close>

definition alignUp :: "word64 \<Rightarrow> word64 \<Rightarrow> word64" where
  "alignUp baseValue alignment = (baseValue + bit_mac alignment - 1) AND NOT (mask_bits alignment)"

definition FREE_INDEX_TO_OFFSET :: "word64 \<Rightarrow> word64" where
  "FREE_INDEX_TO_OFFSET freeIndex = shl freeIndex SEL4_MIN_UNTYPED_BITS"

definition GET_FREE_REF :: "word64 \<Rightarrow> word64 \<Rightarrow> word64" where
  "GET_FREE_REF base freeIndex = base + FREE_INDEX_TO_OFFSET freeIndex"

definition GET_FREE_INDEX :: "word64 \<Rightarrow> word64 \<Rightarrow> word64" where
  "GET_FREE_INDEX base free = shr (free - base) SEL4_MIN_UNTYPED_BITS"

definition GET_OFFSET_FREE_PTR :: "word64 \<Rightarrow> word64 \<Rightarrow> word64" where
  "GET_OFFSET_FREE_PTR base offset = base + offset"

definition OFFSET_TO_FREE_IDNEX :: "word64 \<Rightarrow> word64" where
  "OFFSET_TO_FREE_IDNEX offset = shr offset SEL4_MIN_UNTYPED_BITS"

section \<open>Clearing memory\<close>

definition in_region :: "ptr \<Rightarrow> word64 \<Rightarrow> ptr \<Rightarrow> bool" where
  "in_region base bits p \<longleftrightarrow> p - base < bit_mac bits"

definition clear_memory :: "ptr \<Rightarrow> word64 \<Rightarrow> kstate \<Rightarrow> kstate" where
  "clear_memory base bits s = s\<lparr>
     ks_ctes := (\<lambda>p. if in_region base bits p then empty_cte else ks_ctes s p),
     ks_tcbs := (\<lambda>p. if in_region base bits p then empty_tcb else ks_tcbs s p),
     ks_eps := (\<lambda>p. if in_region base bits p then ks_eps empty_kstate p else ks_eps s p),
     ks_ntfns := (\<lambda>p. if in_region base bits p then ks_ntfns empty_kstate p else ks_ntfns s p),
     ks_bufs := (\<lambda>p. if in_region base bits p then ks_bufs empty_kstate p else ks_bufs s p),
     ks_ptes := (\<lambda>p. if in_region base bits p then 0 else ks_ptes s p),
     ks_pools := (\<lambda>p. if in_region base bits p then ks_pools empty_kstate p else ks_pools s p)\<rparr>"

section \<open>Creating objects\<close>

definition arch_create_object :: "ObjectType \<Rightarrow> ptr \<Rightarrow> bool \<Rightarrow> cap option" where
  "arch_create_object t region_base device_mem = (case t of
       seL4_ARM_SmallPageObject \<Rightarrow> Some (cap_frame_cap 0 region_base 0 0 (vm_rights_word VMReadWrite) device_mem)
     | seL4_ARM_LargePageObject \<Rightarrow> Some (cap_frame_cap 0 region_base 1 0 (vm_rights_word VMReadWrite) device_mem)
     | seL4_ARM_HugePageObject \<Rightarrow> Some (cap_frame_cap 0 region_base 2 0 (vm_rights_word VMReadWrite) device_mem)
     | seL4_ARM_VSpaceObject \<Rightarrow> Some (cap_vspace_cap 0 region_base False)
     | seL4_ARM_PageTableObject \<Rightarrow> Some (cap_page_table_cap 0 region_base False 0)
     | _ \<Rightarrow> None)"

definition init_tcb :: "ptr \<Rightarrow> kstate \<Rightarrow> kstate" where
  "init_tcb p = upd_tcb p (\<lambda>t. t\<lparr>tcbArch := ArchTCB_default\<rparr>)"

definition create_object :: "ObjectType \<Rightarrow> ptr \<Rightarrow> word64 \<Rightarrow> bool \<Rightarrow> kstate \<Rightarrow> (cap \<times> kstate) option" where
  "create_object t region_base user_size device_mem s = (case t of
       TCBObject \<Rightarrow> do {
         tcb \<leftarrow> convert_to_mut_type_ref (region_base + TCB_OFFSET);
         let s = init_tcb tcb s;
         let s = upd_tcb tcb (\<lambda>u. u\<lparr>tcbDomain := ksCurDomain s\<rparr>) s;
         Some (cap_thread_cap tcb, s)
       }
     | CapTableObject \<Rightarrow> Some (cap_cnode_cap 0 0 (ucast user_size) region_base, s)
     | NotificationObject \<Rightarrow> Some (cap_notification_cap 0 True True region_base, s)
     | EndpointObject \<Rightarrow> Some (cap_endpoint_cap 0 True True True True region_base, s)
     | UnytpedObject \<Rightarrow> Some (cap_untyped_cap 0 device_mem (ucast user_size) region_base, s)
     | _ \<Rightarrow> map_option (\<lambda>c. (c, s)) (arch_create_object t region_base device_mem))"

primrec create_objects_loop ::
  "nat list \<Rightarrow> ObjectType \<Rightarrow> ptr \<Rightarrow> ptr \<Rightarrow> word64 \<Rightarrow> ptr \<Rightarrow> word64 \<Rightarrow> word64 \<Rightarrow> bool \<Rightarrow> kstate \<Rightarrow> kstate option" where
  "create_objects_loop [] t parent dest_cnode dest_offset region_base object_size user_size device_mem s = Some s"
| "create_objects_loop (i # is) t parent dest_cnode dest_offset region_base object_size user_size device_mem s = do {
     (c, s) \<leftarrow> create_object t (region_base + shl (of_nat i) object_size) user_size device_mem s;
     slot \<leftarrow> get_offset_slot dest_cnode (dest_offset + of_nat i);
     s \<leftarrow> on_ctes (insert_new_cap parent slot c) s;
     create_objects_loop is t parent dest_cnode dest_offset region_base object_size user_size device_mem s
   }"

definition create_new_objects ::
  "ObjectType \<Rightarrow> ptr \<Rightarrow> ptr \<Rightarrow> word64 \<Rightarrow> nat \<Rightarrow> ptr \<Rightarrow> word64 \<Rightarrow> bool \<Rightarrow> kstate \<Rightarrow> kstate option" where
  "create_new_objects t parent dest_cnode dest_offset dest_length region_base user_size device_mem s = do {
     object_size \<leftarrow> get_object_size t user_size;
     create_objects_loop [0 ..< dest_length] t parent dest_cnode dest_offset region_base object_size user_size
       device_mem s
   }"

section \<open>Resetting\<close>

definition CONFIG_RESET_CHUNK_BITS :: word64 where "CONFIG_RESET_CHUNK_BITS = 8"

text \<open>The loop clears the chunk \<open>k\<close>, then \<open>k - 1\<close>, down to chunk 0; \<open>reset_loop (Suc k)\<close> starts at chunk \<open>k\<close>.\<close>

primrec reset_loop :: "nat \<Rightarrow> ptr \<Rightarrow> ptr \<Rightarrow> kstate \<Rightarrow> exception_t \<times> kstate" where
  "reset_loop 0 srcSlot region_base s = (EXCEPTION_NONE, s)"
| "reset_loop (Suc k) srcSlot region_base s =
    (let offset = shl (of_nat k) CONFIG_RESET_CHUNK_BITS;
         s = clear_memory (GET_OFFSET_FREE_PTR region_base offset) CONFIG_RESET_CHUNK_BITS s;
         s = s\<lparr>ks_ctes := set_capability srcSlot
                 (set_capFreeIndex (OFFSET_TO_FREE_IDNEX offset) (capability (ks_ctes s srcSlot))) (ks_ctes s)\<rparr>
     in case preemption_point s of (status, s) \<Rightarrow>
          if status \<noteq> EXCEPTION_NONE then (status, s) else reset_loop k srcSlot region_base s)"

definition reset_untyped_cap :: "ptr \<Rightarrow> kstate \<Rightarrow> exception_t \<times> kstate" where
  "reset_untyped_cap srcSlot s =
    (let prev_cap = capability (ks_ctes s srcSlot);
         block_size = ucast (capBlockSize prev_cap);
         region_base = capPtr prev_cap;
         chunk = CONFIG_RESET_CHUNK_BITS;
         offset = FREE_INDEX_TO_OFFSET (ucast (capFreeIndex prev_cap));
         device_mem = capIsDevice prev_cap in
     if offset = 0 then (EXCEPTION_NONE, s)
     else if device_mem \<or> block_size < chunk then
       let s = (if \<not> device_mem then clear_memory region_base block_size s else s) in
       (EXCEPTION_NONE,
        s\<lparr>ks_ctes := set_capability srcSlot (set_capFreeIndex 0 (capability (ks_ctes s srcSlot))) (ks_ctes s)\<rparr>)
     else reset_loop (unat (shr (offset - 1) chunk) + 1) srcSlot region_base s)"

section \<open>Retyping\<close>

definition invoke_untyped_retype ::
  "ptr \<Rightarrow> bool \<Rightarrow> ptr \<Rightarrow> ObjectType \<Rightarrow> word64 \<Rightarrow> ptr \<Rightarrow> word64 \<Rightarrow> word64 \<Rightarrow> bool \<Rightarrow> kstate \<Rightarrow> outcome" where
  "invoke_untyped_retype src_slot reset retype_base new_type user_size dest_cnode dest_offset dest_length
     device_mem s =
    (let region_base = capPtr (capability (ks_ctes s src_slot)) in
     case (if reset then reset_untyped_cap src_slot s else (EXCEPTION_NONE, s)) of (status, s) \<Rightarrow>
       if status \<noteq> EXCEPTION_NONE then Some (status, s)
       else do {
         object_size \<leftarrow> get_object_size new_type user_size;
         let free_ref = retype_base + shl dest_length object_size;
         let s = s\<lparr>ks_ctes := set_capability src_slot
           (set_capFreeIndex (GET_FREE_INDEX region_base free_ref) (capability (ks_ctes s src_slot))) (ks_ctes s)\<rparr>;
         s \<leftarrow> create_new_objects new_type src_slot dest_cnode dest_offset (unat dest_length) retype_base
           user_size device_mem s;
         Some (EXCEPTION_NONE, s)
       })"

section \<open>Decoding\<close>

definition MAX_UNTYPED_BITS :: word64 where "MAX_UNTYPED_BITS = 47"
definition CONFIG_RETYPE_FAN_OUT_LIMIT :: word64 where "CONFIG_RETYPE_FAN_OUT_LIMIT = 256"

definition check_object_type :: "ObjectType \<Rightarrow> word64 \<Rightarrow> kstate \<Rightarrow> outcome" where
  "check_object_type new_type user_obj_size s =
    (if new_type = CapTableObject \<and> user_obj_size = 0 then throw_argument 1 s
     else if new_type = UnytpedObject \<and> user_obj_size < SEL4_MIN_UNTYPED_BITS then throw_argument 1 s
     else Some (EXCEPTION_NONE, s))"

text \<open>\<open>get_target_cnode\<close> writes the capability it finds to its last argument: the capability is the second
  component of the result here.\<close>

definition get_target_cnode :: "word64 \<Rightarrow> word64 \<Rightarrow> kstate \<Rightarrow> (exception_t \<times> cap \<times> kstate) option" where
  "get_target_cnode node_index node_depth s = do {
     extra \<leftarrow> get_extra_cap_by_index 0 s;
     root_slot \<leftarrow> extra;
     (status, target, s) \<leftarrow>
       (if node_depth = 0 then Some (EXCEPTION_NONE, capability (ks_ctes s root_slot), s)
        else do {
          (lu_ret, s) \<leftarrow> lookup_slot_for_cnode_op False (capability (ks_ctes s root_slot)) node_index node_depth s;
          Some (ls_status lu_ret, capability (ks_ctes s (ls_slot lu_ret)), s)
        });
     if status \<noteq> EXCEPTION_NONE then Some (status, cap_null_cap, s)
     else if \<not> is_cap_cnode_cap target then
       map_option (\<lambda>(st, s). (st, cap_null_cap, s))
         (throw_lookup False (s\<lparr>current_lookup_fault := missing_capability (ucast node_depth)\<rparr>))
     else Some (EXCEPTION_NONE, target, s)
   }"

primrec slots_empty :: "nat list \<Rightarrow> ptr \<Rightarrow> kstate \<Rightarrow> bool option" where
  "slots_empty [] cnode s = Some True"
| "slots_empty (i # is) cnode s = do {
     slot \<leftarrow> get_offset_slot cnode (of_nat i);
     if capability (ks_ctes s slot) \<noteq> cap_null_cap then Some False else slots_empty is cnode s
   }"

definition check_cnode_slot :: "cap \<Rightarrow> word64 \<Rightarrow> word64 \<Rightarrow> kstate \<Rightarrow> outcome" where
  "check_cnode_slot node_cap node_offset node_window s =
    (let node_size = shl 1 (ucast (capCNodeRadix node_cap)) in
     if node_offset > node_size - 1 then throw_range 0 (node_size - 1) s
     else if node_window < 1 \<or> node_window > CONFIG_RETYPE_FAN_OUT_LIMIT
       then throw_range 1 CONFIG_RETYPE_FAN_OUT_LIMIT s
     else if node_window > node_size - node_offset then throw_range 1 (node_size - node_offset) s
     else do {
       dest_cnode \<leftarrow> convert_to_mut_type_ref (capCNodePtr node_cap);
       empty \<leftarrow> slots_empty [unat node_offset ..< unat (node_offset + node_window)] dest_cnode s;
       if \<not> empty then throw SEL4_DELETE_FIRST s else Some (EXCEPTION_NONE, s)
     })"

text \<open>The last part of \<open>decode_untyed_invocation\<close>, once the destination slots have been checked.\<close>

definition retype_checked ::
  "ptr \<Rightarrow> cap \<Rightarrow> ObjectType \<Rightarrow> word64 \<Rightarrow> word64 \<Rightarrow> cap \<Rightarrow> word64 \<Rightarrow> word64 \<Rightarrow> kstate \<Rightarrow> outcome" where
  "retype_checked slot c new_type user_obj_size obj_size node_cap node_offset node_window s = do {
     status \<leftarrow> ensure_no_children (ks_ctes s) slot;
     let reset = (status = EXCEPTION_NONE);
     let s = (if reset then s else set_error (\<lambda>x. x\<lparr>se_type := SEL4_REVOKE_FIRST\<rparr>) s);
     let free_index = (if reset then 0 else ucast (capFreeIndex c));
     let free_ref = GET_FREE_REF (capPtr c) free_index;
     let untyped_free_bytes = bit_mac (ucast (capBlockSize c)) - FREE_INDEX_TO_OFFSET free_index;
     if shr untyped_free_bytes obj_size < node_window then
       Some (EXCEPTION_SYSCALL_ERROR,
         set_error (\<lambda>x. x\<lparr>se_type := SEL4_NOT_ENOUGH_MEMORY, memoryLeft := untyped_free_bytes\<rparr>) s)
     else if capIsDevice c \<and> \<not> is_arch_type new_type \<and> new_type \<noteq> UnytpedObject then throw_argument 1 s
     else do {
       let aligned_free_ref = alignUp free_ref obj_size;
       s \<leftarrow> set_current_state ThreadStateRestart s;
       dest \<leftarrow> convert_to_mut_type_ref (capCNodePtr node_cap);
       invoke_untyped_retype slot reset aligned_free_ref new_type user_obj_size dest node_offset node_window
         (capIsDevice c) s
     }
   }"

definition decode_untyed_invocation :: "MessageLabel \<Rightarrow> nat \<Rightarrow> ptr \<Rightarrow> cap \<Rightarrow> ptr \<Rightarrow> kstate \<Rightarrow> outcome" where
  "decode_untyed_invocation inv_label len slot c buffer s =
    (if inv_label \<noteq> UntypedRetype then throw SEL4_ILLEGAL_OPERATION s
     else do {
       extra \<leftarrow> (if len < 6 then Some None else get_extra_cap_by_index 0 s);
       if extra = None then throw SEL4_TRUNCATED_MESSAGE s
       else do {
         arg0 \<leftarrow> get_syscall_arg 0 buffer s;
         case from_usize arg0 of
           None \<Rightarrow> throw_argument 0 s
         | Some new_type \<Rightarrow> do {
             user_obj_size \<leftarrow> get_syscall_arg 1 buffer s;
             node_index \<leftarrow> get_syscall_arg 2 buffer s;
             node_depth \<leftarrow> get_syscall_arg 3 buffer s;
             node_offset \<leftarrow> get_syscall_arg 4 buffer s;
             node_window \<leftarrow> get_syscall_arg 5 buffer s;
             obj_size \<leftarrow> get_object_size new_type user_obj_size;
             if user_obj_size \<ge> WORD_BITS \<or> obj_size > MAX_UNTYPED_BITS then throw_range 0 MAX_UNTYPED_BITS s
             else do {
               (status, s) \<leftarrow> check_object_type new_type user_obj_size s;
               if status \<noteq> EXCEPTION_NONE then Some (status, s)
               else do {
                 (status, node_cap, s) \<leftarrow> get_target_cnode node_index node_depth s;
                 if status \<noteq> EXCEPTION_NONE then Some (status, s)
                 else do {
                   (status, s) \<leftarrow> check_cnode_slot node_cap node_offset node_window s;
                   if status \<noteq> EXCEPTION_NONE then Some (status, s)
                   else retype_checked slot c new_type user_obj_size obj_size node_cap node_offset node_window s
                 }
               }
             }
           }
       }
     })"

end
