(* ===== verification/MmuInv.thy ===== *)
theory MmuInv
  imports Untyped
begin

text \<open>
  Invocations of the capabilities to address spaces on aarch64
  (\<^verbatim>\<open>kernel/src/syscall/invocation/decode/arch/aarch64.rs\<close> and
  \<^verbatim>\<open>kernel/src/syscall/invocation/invoke_mmu_op.rs\<close>): mapping and unmapping frames and page tables,
  creating and assigning address space identifiers, and the operations that flush caches.  Caches and
  translation buffers are not part of the state; an operation that only maintains them is the identity here.
\<close>

section \<open>Constants\<close>

definition USER_TOP :: word64 where "USER_TOP = 0x00007fffffffffff"
definition SEL4_ASID_POOL_BITS :: word64 where "SEL4_ASID_POOL_BITS = 12"
definition SEL4_PAGE_TABLE_BITS :: word64 where "SEL4_PAGE_TABLE_BITS = 12"
definition N_ASID_POOLS :: nat where "N_ASID_POOLS = 128"

definition upd_cap :: "ptr \<Rightarrow> (cap \<Rightarrow> cap) \<Rightarrow> kstate \<Rightarrow> kstate" where
  "upd_cap slot f s = s\<lparr>ks_ctes := set_capability slot (f (capability (ks_ctes s slot))) (ks_ctes s)\<rparr>"

text \<open>The error of an argument that is a capability, with the number of the argument.\<close>

definition throw_capability_argument :: "word64 \<Rightarrow> kstate \<Rightarrow> outcome" where
  "throw_capability_argument n s =
     Some (EXCEPTION_SYSCALL_ERROR,
       set_error (\<lambda>x. x\<lparr>se_type := SEL4_INVALID_CAPABILITY, invalidArgumentNumber := n\<rparr>) s)"

section \<open>Operations\<close>

definition invoke_page_table_unmap :: "ptr \<Rightarrow> kstate \<Rightarrow> outcome" where
  "invoke_page_table_unmap cte s = do {
     let c = capability (ks_ctes s cte);
     s \<leftarrow> (if capPTIsMapped c then do {
         pt \<leftarrow> convert_to_mut_type_ref (capPTBasePtr c);
         s \<leftarrow> unmap_page_table (ucast (capPTMappedASID c)) (capPTMappedAddress c) pt s;
         Some (clear_memory pt SEL4_PAGE_TABLE_BITS s)
       } else Some s);
     Some (EXCEPTION_NONE,
       upd_cap cte (\<lambda>c. cap_page_table_cap (capPTMappedASID c) (capPTBasePtr c) False (capPTMappedAddress c)) s)
   }"

definition invoke_page_get_address :: "ptr \<Rightarrow> bool \<Rightarrow> kstate \<Rightarrow> outcome" where
  "invoke_page_get_address vbase_ptr call s = do {
     thread \<leftarrow> get_currenct_thread s;
     s \<leftarrow> (if call then do {
         s \<leftarrow> set_reg thread Badge 0 s;
         (len, s) \<leftarrow> set_mr thread 0 (to_paddr vbase_ptr) s;
         set_reg thread MsgInfo (mi_new 0 0 0 (of_nat len)) s
       } else Some s);
     s \<leftarrow> set_thread_state thread ThreadStateRestart s;
     Some (EXCEPTION_NONE, s)
   }"

definition set_frame_mapping :: "word64 \<Rightarrow> word64 \<Rightarrow> cap \<Rightarrow> cap" where
  "set_frame_mapping asid vaddr c =
     cap_frame_cap (ucast asid) (capFBasePtr c) (capFSize c) vaddr (capFVMRights c) (capFIsDevice c)"

definition invoke_page_unmap :: "ptr \<Rightarrow> kstate \<Rightarrow> outcome" where
  "invoke_page_unmap frame_slot s = do {
     let page_cap = capability (ks_ctes s frame_slot);
     s \<leftarrow> (if capFMappedASID page_cap \<noteq> 0
           then unmap_page (ucast (capFSize page_cap)) (ucast (capFMappedASID page_cap))
                  (capFMappedAddress page_cap) (capFBasePtr page_cap) s
           else Some s);
     Some (EXCEPTION_NONE, upd_cap frame_slot (set_frame_mapping 0 0) s)
   }"

definition invoke_page_map :: "word64 \<Rightarrow> word64 \<Rightarrow> ptr \<Rightarrow> kstate \<Rightarrow> outcome" where
  "invoke_page_map asid pte pt_slot s = do {
     let tlbflush_required = (pte_get_type (ks_ptes s pt_slot) \<noteq> pte_invalid);
     let s = s\<lparr>ks_ptes := (ks_ptes s)(pt_slot := pte)\<rparr>;
     kassert (tlbflush_required \<longrightarrow> asid < bit_mac 16);
     Some (EXCEPTION_NONE, s)
   }"

section \<open>Page tables\<close>

definition decode_page_table_unmap :: "ptr \<Rightarrow> kstate \<Rightarrow> outcome" where
  "decode_page_table_unmap pt_cte s = do {
     final \<leftarrow> is_final_cap (ks_ctes s) pt_cte;
     if \<not> final then throw SEL4_REVOKE_FIRST s
     else do {
       s \<leftarrow> set_current_state ThreadStateRestart s;
       invoke_page_table_unmap pt_cte s
     }
   }"

definition decode_page_table_invocation :: "MessageLabel \<Rightarrow> nat \<Rightarrow> ptr \<Rightarrow> ptr \<Rightarrow> kstate \<Rightarrow> outcome" where
  "decode_page_table_invocation label len cte buffer s =
    (if label = ARMPageTableUnmap then do {
       final \<leftarrow> is_final_cap (ks_ctes s) cte;
       if \<not> final then throw SEL4_REVOKE_FIRST s
       else do {
         s \<leftarrow> set_current_state ThreadStateRestart s;
         decode_page_table_unmap cte s
       }
     }
     else if label \<noteq> ARMPageTableMap then throw SEL4_ILLEGAL_OPERATION s
     else do {
       extra \<leftarrow> nth_opt (current_extra_caps s) 0;
       if len < 2 \<or> extra = 0 then throw SEL4_TRUNCATED_MESSAGE s
       else if capPTIsMapped (capability (ks_ctes s cte)) then throw_capability_argument 0 s
       else do {
         vaddr \<leftarrow> get_syscall_arg 0 buffer s;
         let vspace_root_cap = capability (ks_ctes s extra);
         if \<not> is_valid_native_root vspace_root_cap then throw_capability 1 s
         else do {
           let vspace_root = capVSBasePtr vspace_root_cap;
           let asid = ucast (capVSMappedASID vspace_root_cap);
           if vaddr > USER_TOP then throw_argument 0 s
           else do {
             find_ret \<leftarrow> find_vspace_for_asid asid s;
             if fv_status find_ret \<noteq> EXCEPTION_NONE then throw_lookup False s
             else do {
               root \<leftarrow> fv_vspace_root find_ret;
               if root \<noteq> vspace_root then throw_capability 1 s
               else do {
                 let pd_slot = lookup_pt_slot (ks_ptes s) vspace_root vaddr;
                 if ptBitsLeft pd_slot = SEL4_PAGE_BITS \<or> pte_get_type (ks_ptes s (ptSlot pd_slot)) \<noteq> pte_invalid
                 then throw SEL4_DELETE_FIRST s
                 else do {
                   let pte = pte_new_table (to_paddr (capPTBasePtr (capability (ks_ctes s cte))));
                   let s = upd_cap cte (\<lambda>c. cap_page_table_cap (ucast asid) (capPTBasePtr c) True
                     (vaddr AND NOT (mask_bits (ptBitsLeft pd_slot)))) s;
                   s \<leftarrow> set_current_state ThreadStateRestart s;
                   Some (EXCEPTION_NONE, s\<lparr>ks_ptes := (ks_ptes s)(ptSlot pd_slot := pte)\<rparr>)
                 }
               }
             }
           }
         }
       }
     })"

section \<open>Flushing\<close>

definition do_flush :: "MessageLabel \<Rightarrow> kstate \<Rightarrow> kstate option" where
  "do_flush label s =
    (if label \<in> {ARMPageClean_Data, ARMVSpaceClean_Data, ARMPageInvalidate_Data, ARMVSpaceInvalidate_Data,
       ARMVSpaceCleanInvalidate_Data, ARMPageCleanInvalidate_Data, ARMPageUnify_Instruction,
       ARMVSpaceUnify_Instruction} then Some s else None)"

definition set_vm_root_for_flush :: "ptr \<Rightarrow> word64 \<Rightarrow> kstate \<Rightarrow> (bool \<times> kstate) option" where
  "set_vm_root_for_flush vspace asid s = do {
     thread_root \<leftarrow> current_vspace_cap s;
     if is_valid_native_root thread_root \<and> capVSBasePtr thread_root = vspace then Some (False, s)
     else Some (True, set_current_user_vspace_root (ttbr_new asid vspace) s)
   }"

definition decode_vspace_flush_invocation ::
  "MessageLabel \<Rightarrow> ptr \<Rightarrow> word64 \<Rightarrow> word64 \<Rightarrow> word64 \<Rightarrow> kstate \<Rightarrow> outcome" where
  "decode_vspace_flush_invocation label vspace asid start end' s =
    (if start < end' then do {
       (root_switched, s) \<leftarrow> set_vm_root_for_flush vspace asid s;
       s \<leftarrow> do_flush label s;
       s \<leftarrow> (if root_switched then do { c \<leftarrow> current_vspace_cap s; set_vm_root c s } else Some s);
       Some (EXCEPTION_NONE, s)
     } else Some (EXCEPTION_NONE, s))"

definition decode_page_clean_invocation :: "MessageLabel \<Rightarrow> nat \<Rightarrow> ptr \<Rightarrow> ptr \<Rightarrow> kstate \<Rightarrow> outcome" where
  "decode_page_clean_invocation label len cte buffer s =
    (let c = capability (ks_ctes s cte) in
     if len < 2 then throw SEL4_TRUNCATED_MESSAGE s
     else if capFMappedASID c = 0 then throw SEL4_ILLEGAL_OPERATION s
     else do {
       let asid = ucast (capFMappedASID c);
       find_ret \<leftarrow> find_vspace_for_asid asid s;
       if fv_status find_ret \<noteq> EXCEPTION_NONE then throw_lookup False s
       else do {
         start \<leftarrow> get_syscall_arg 0 buffer s;
         end' \<leftarrow> get_syscall_arg 1 buffer s;
         if end' \<le> start then throw_argument 1 s
         else do {
           bits \<leftarrow> pageBitsForSize (ucast (capFSize c));
           let page_size = bit_mac bits;
           if start \<ge> page_size \<or> end' > page_size then throw_argument 0 s
           else do {
             s \<leftarrow> set_current_state ThreadStateRestart s;
             root \<leftarrow> fv_vspace_root find_ret;
             decode_vspace_flush_invocation label root asid start end' s
           }
         }
       }
     })"

text \<open>
  \<open>decode_vspace_root_invocation\<close> reads the identifier of the address space through the accessor of a pool
  capability.  The field \<open>capASIDBase\<close> of a pool lies over the bits of a \<open>cap_vspace_cap\<close> that hold the flag
  \<open>capVSIsMapped\<close>, as its highest bit, and padding.  The walk starts at the first entry of the root table,
  used as the address of a table, and the size of a page is asked for with the number of bits left.
\<close>

definition vspace_asid_base :: "cap \<Rightarrow> word64" where
  "vspace_asid_base c = (if capVSIsMapped c then 0x8000 else 0)"

definition decode_vspace_root_invocation :: "MessageLabel \<Rightarrow> nat \<Rightarrow> ptr \<Rightarrow> ptr \<Rightarrow> kstate \<Rightarrow> outcome" where
  "decode_vspace_root_invocation label len cte buffer s =
    (if label \<notin> {ARMVSpaceClean_Data, ARMVSpaceInvalidate_Data, ARMVSpaceCleanInvalidate_Data,
       ARMVSpaceUnify_Instruction} then throw SEL4_ILLEGAL_OPERATION s
     else if len < 2 then throw SEL4_TRUNCATED_MESSAGE s
     else do {
       start \<leftarrow> get_syscall_arg 0 buffer s;
       end' \<leftarrow> get_syscall_arg 1 buffer s;
       let c = capability (ks_ctes s cte);
       if end' \<le> start then throw_argument 1 s
       else if end' > USER_TOP then throw SEL4_ILLEGAL_OPERATION s
       else if \<not> is_valid_native_root c then throw_capability 0 s
       else do {
         let vspace_root = capVSBasePtr c;
         let asid = vspace_asid_base c;
         find_ret \<leftarrow> find_vspace_for_asid asid s;
         if fv_status find_ret \<noteq> EXCEPTION_NONE then throw_lookup False s
         else do {
           root \<leftarrow> fv_vspace_root find_ret;
           if root \<noteq> vspace_root then throw_capability 0 s
           else do {
             let resolve_ret = lookup_pt_slot (ks_ptes s) (ks_ptes s vspace_root) start;
             if pte_get_type (ks_ptes s (ptSlot resolve_ret)) \<noteq> pte_page then do {
               s \<leftarrow> set_current_state ThreadStateRestart s;
               Some (EXCEPTION_NONE, s)
             } else do {
               bits \<leftarrow> pageBitsForSize (ptBitsLeft resolve_ret);
               let page_base_start = start AND NOT (mask_bits bits);
               let page_base_end = (end' - 1) AND NOT (mask_bits bits);
               if page_base_start \<noteq> page_base_end then throw_range start (page_base_start + mask_bits bits) s
               else do {
                 s \<leftarrow> set_current_state ThreadStateRestart s;
                 decode_vspace_flush_invocation label root asid start end' s
               }
             }
           }
         }
       }
     })"

section \<open>Frames\<close>

definition decode_frame_map :: "nat \<Rightarrow> ptr \<Rightarrow> ptr \<Rightarrow> kstate \<Rightarrow> outcome" where
  "decode_frame_map len frame_slot buffer s = do {
     extra \<leftarrow> (if len < 3 then Some None else get_extra_cap_by_index 0 s);
     case extra of
       None \<Rightarrow> throw SEL4_TRUNCATED_MESSAGE s
     | Some vspace_slot \<Rightarrow> do {
         vaddr \<leftarrow> get_syscall_arg 0 buffer s;
         attr_word \<leftarrow> get_syscall_arg 2 buffer s;
         rights_word \<leftarrow> get_syscall_arg 1 buffer s;
         let attr = vm_attributes_from_word attr_word;
         let vspace_root_cap = capability (ks_ctes s vspace_slot);
         let c = capability (ks_ctes s frame_slot);
         let frame_size = ucast (capFSize c);
         frame_vm_rights \<leftarrow> vm_rights_from_word (ucast (capFVMRights c));
         let vm_rights = maskVMRights frame_vm_rights (cap_rights_of_word rights_word);
         if \<not> is_valid_native_root vspace_root_cap then throw_capability 1 s
         else do {
           let vspace_root = capVSBasePtr vspace_root_cap;
           let asid = ucast (capVSMappedASID vspace_root_cap);
           find_ret \<leftarrow> find_vspace_for_asid asid s;
           if fv_status find_ret \<noteq> EXCEPTION_NONE then throw_lookup False s
           else do {
             root \<leftarrow> fv_vspace_root find_ret;
             if root \<noteq> vspace_root then throw_capability 1 s
             else do {
               bits \<leftarrow> pageBitsForSize frame_size;
               let frame_asid = ucast (capFMappedASID c);
               if \<not> is_aligned vaddr bits then throw SEL4_ALIGNMENT_ERROR s
               else if frame_asid \<noteq> 0 \<and> frame_asid \<noteq> asid then throw_capability_argument 0 s
               else if frame_asid \<noteq> 0 \<and> capFMappedAddress c \<noteq> vaddr then throw_argument 2 s
               else if frame_asid = 0 \<and> vaddr + bit_mac bits - 1 > USER_TOP then throw_argument 0 s
               else do {
                 let base = to_paddr (capFBasePtr c);
                 let lu_ret = lookup_pt_slot (ks_ptes s) vspace_root vaddr;
                 if ptBitsLeft lu_ret \<noteq> bits
                 then throw_lookup False (s\<lparr>current_lookup_fault := missing_capability (ucast (ptBitsLeft lu_ret))\<rparr>)
                 else do {
                   pt_slot \<leftarrow> convert_to_mut_type_ref (ptSlot lu_ret);
                   s \<leftarrow> set_current_state ThreadStateRestart s;
                   let s = upd_cap frame_slot (set_frame_mapping asid vaddr) s;
                   invoke_page_map asid (make_user_pte base vm_rights attr frame_size) pt_slot s
                 }
               }
             }
           }
         }
       }
   }"

definition decode_frame_invocation :: "MessageLabel \<Rightarrow> nat \<Rightarrow> ptr \<Rightarrow> bool \<Rightarrow> ptr \<Rightarrow> kstate \<Rightarrow> outcome" where
  "decode_frame_invocation label len frame_slot call buffer s =
    (if label = ARMPageMap then decode_frame_map len frame_slot buffer s
     else if label = ARMPageUnmap then do {
       s \<leftarrow> set_current_state ThreadStateRestart s;
       invoke_page_unmap frame_slot s
     }
     else if label \<in> {ARMPageClean_Data, ARMPageInvalidate_Data, ARMPageCleanInvalidate_Data,
       ARMPageUnify_Instruction} then decode_page_clean_invocation label len frame_slot buffer s
     else if label = ARMPageGetAddress then do {
       s \<leftarrow> set_current_state ThreadStateRestart s;
       invoke_page_get_address (capFBasePtr (capability (ks_ctes s frame_slot))) call s
     }
     else throw SEL4_ILLEGAL_OPERATION s)"

section \<open>Address space identifiers\<close>

text \<open>The first index from \<open>i\<close> on without a pool, among the next \<open>n\<close> indices, or the index behind them.\<close>

primrec first_free_pool :: "nat \<Rightarrow> nat \<Rightarrow> kstate \<Rightarrow> nat option" where
  "first_free_pool 0 i s = Some i"
| "first_free_pool (Suc n) i s = do {
     pool \<leftarrow> get_asid_pool_by_index (of_nat i) s;
     if pool \<noteq> 0 then first_free_pool n (i + 1) s else Some i
   }"

definition decode_asid_control :: "MessageLabel \<Rightarrow> nat \<Rightarrow> ptr \<Rightarrow> kstate \<Rightarrow> outcome" where
  "decode_asid_control label len buffer s =
    (if label \<noteq> ARMASIDControlMakePool then throw SEL4_ILLEGAL_OPERATION s
     else do {
       parent_slot \<leftarrow> nth_opt (current_extra_caps s) 0;
       root_slot \<leftarrow> nth_opt (current_extra_caps s) 1;
       if len < 2 \<or> parent_slot = 0 \<or> root_slot = 0 then throw SEL4_TRUNCATED_MESSAGE s
       else do {
         index \<leftarrow> get_syscall_arg 0 buffer s;
         depth \<leftarrow> get_syscall_arg 1 buffer s;
         let untyped = capability (ks_ctes s parent_slot);
         i \<leftarrow> first_free_pool N_ASID_POOLS 0 s;
         if i = N_ASID_POOLS then throw SEL4_DELETE_FIRST s
         else do {
           let asid_base = shl (of_nat i) ASID_LOW_BITS;
           if \<not> is_cap_untyped_cap untyped \<or> ucast (capBlockSize untyped) \<noteq> SEL4_ASID_POOL_BITS \<or> capIsDevice untyped
           then throw_capability 0 s
           else do {
             status \<leftarrow> ensure_no_children (ks_ctes s) parent_slot;
             if status \<noteq> EXCEPTION_NONE then Some (status, s)
             else do {
               let frame = capPtr untyped;
               (lu_ret, s) \<leftarrow> lookup_slot_for_cnode_op False (capability (ks_ctes s root_slot)) index depth s;
               if ls_status lu_ret \<noteq> EXCEPTION_NONE then Some (ls_status lu_ret, s)
               else do {
                 let dest_slot = ls_slot lu_ret;
                 (status, s) \<leftarrow> ensure_empty_slot dest_slot s;
                 if status \<noteq> EXCEPTION_NONE then Some (status, s)
                 else do {
                   s \<leftarrow> set_current_state ThreadStateRestart s;
                   let s = upd_cap parent_slot
                     (\<lambda>c. set_capFreeIndex (max_free_index (ucast (capBlockSize c))) c) s;
                   let s = clear_memory frame SEL4_ASID_POOL_BITS s;
                   s \<leftarrow> on_ctes (cte_insert (cap_asid_pool_cap (ucast asid_base) frame) parent_slot dest_slot) s;
                   kassert (asid_base AND mask_bits ASID_LOW_BITS = 0);
                   s \<leftarrow> set_asid_pool_by_index (shr asid_base ASID_LOW_BITS) frame s;
                   Some (EXCEPTION_NONE, s)
                 }
               }
             }
           }
         }
       }
     })"

text \<open>The first free identifier of a pool: identifier \<open>0\<close> is never free.\<close>

primrec first_free_asid :: "nat \<Rightarrow> nat \<Rightarrow> word64 \<Rightarrow> asid_map list \<Rightarrow> nat option" where
  "first_free_asid 0 i asid pool = Some i"
| "first_free_asid (Suc n) i asid pool =
    (if asid + of_nat i = 0 then first_free_asid n (i + 1) asid pool
     else do {
       m \<leftarrow> nth_opt pool i;
       if m \<noteq> asid_map_none then first_free_asid n (i + 1) asid pool else Some i
     })"

definition decode_asid_pool :: "MessageLabel \<Rightarrow> ptr \<Rightarrow> kstate \<Rightarrow> outcome" where
  "decode_asid_pool label cte s =
    (if label \<noteq> ARMASIDPoolAssign then throw SEL4_ILLEGAL_OPERATION s
     else do {
       vspace_cap_slot \<leftarrow> nth_opt (current_extra_caps s) 0;
       if vspace_cap_slot = 0 then throw SEL4_TRUNCATED_MESSAGE s
       else do {
         let vspace_cap = capability (ks_ctes s vspace_cap_slot);
         if \<not> is_vtable_root vspace_cap \<or> capVSIsMapped vspace_cap then throw_capability_argument 1 s
         else do {
           let c = capability (ks_ctes s cte);
           pool \<leftarrow> get_asid_pool_by_index (shr (ucast (capASIDBase c)) ASID_LOW_BITS) s;
           if pool = 0 then throw_lookup False (s\<lparr>current_lookup_fault := invalid_root\<rparr>)
           else if pool \<noteq> capASIDPool c then throw_capability 0 s
           else do {
             let asid = ucast (capASIDBase c);
             i \<leftarrow> first_free_asid (2 ^ unat ASID_LOW_BITS) 0 asid (ks_pools s pool);
             if i = 2 ^ unat ASID_LOW_BITS then throw SEL4_DELETE_FIRST s
             else do {
               let asid = asid + of_nat i;
               s \<leftarrow> set_current_state ThreadStateRestart s;
               let s = upd_cap vspace_cap_slot (\<lambda>c. cap_vspace_cap (ucast asid) (capVSBasePtr c) True) s;
               let asidmap = asid_map_vspace (capVSBasePtr vspace_cap);
               maps \<leftarrow> update_checked (ks_pools s pool) (asid AND mask_bits ASID_LOW_BITS) asidmap;
               Some (EXCEPTION_NONE, s\<lparr>ks_pools := (ks_pools s)(pool := maps)\<rparr>)
             }
           }
         }
       }
     })"

section \<open>Dispatch\<close>

definition decode_mmu_invocation :: "MessageLabel \<Rightarrow> nat \<Rightarrow> ptr \<Rightarrow> bool \<Rightarrow> ptr \<Rightarrow> kstate \<Rightarrow> outcome" where
  "decode_mmu_invocation label len slot call buffer s = (case capability (ks_ctes s slot) of
       cap_vspace_cap _ _ _ \<Rightarrow> decode_vspace_root_invocation label len slot buffer s
     | cap_page_table_cap _ _ _ _ \<Rightarrow> decode_page_table_invocation label len slot buffer s
     | cap_frame_cap _ _ _ _ _ _ \<Rightarrow> decode_frame_invocation label len slot call buffer s
     | cap_asid_control_cap \<Rightarrow> decode_asid_control label len buffer s
     | cap_asid_pool_cap _ _ \<Rightarrow> decode_asid_pool label slot s
     | _ \<Rightarrow> None)"

end
