(* ===== verification/IrqInv.thy ===== *)
theory IrqInv
  imports Decode
begin

text \<open>
  Invocations of the capabilities to interrupts and domains
  (\<^verbatim>\<open>kernel/src/syscall/invocation/invoke_irq.rs\<close>, \<^verbatim>\<open>decode/decode_irq_invocation.rs\<close>,
  \<^verbatim>\<open>decode/arch/aarch64.rs\<close> and \<^verbatim>\<open>decode/decode_domain_invocation.rs\<close>) and the interrupt handler
  (\<^verbatim>\<open>kernel/src/interrupt/mod.rs\<close>, \<^verbatim>\<open>handler.rs\<close>).  Without several processors an interrupt
  number is its own index in the interrupt table.  The number that the interrupt controller reports when it is
  read is an argument of the operations that read it.
\<close>

section \<open>Interrupt numbers\<close>

definition MAX_IRQ :: word64 where "MAX_IRQ = 159"
definition IRQ_INVALID :: word64 where "IRQ_INVALID = 65535"
definition IRQ_MASK :: word64 where "IRQ_MASK = 1023"
definition IRQ_NONE :: word64 where "IRQ_NONE = 1023"

lemmas irq_consts = MAX_IRQ_def IRQ_INVALID_def IRQ_MASK_def IRQ_NONE_def

definition idx_to_irq :: "word64 \<Rightarrow> word64" where
  "idx_to_irq idx = idx"

definition check_irq :: "word64 \<Rightarrow> kstate \<Rightarrow> outcome" where
  "check_irq irq s = (if irq > MAX_IRQ then throw_range 0 MAX_IRQ s else Some (EXCEPTION_NONE, s))"

section \<open>Operations\<close>

definition invoke_irq_control :: "word64 \<Rightarrow> ptr \<Rightarrow> ptr \<Rightarrow> kstate \<Rightarrow> outcome" where
  "invoke_irq_control irq handler_slot control_slot s = do {
     s \<leftarrow> set_irq_state_by_index IRQSignal irq s;
     s \<leftarrow> on_ctes (cte_insert (cap_irq_handler_cap (ucast irq)) control_slot handler_slot) s;
     Some (EXCEPTION_NONE, s)
   }"

definition invoke_set_irq_handler :: "word64 \<Rightarrow> cap \<Rightarrow> ptr \<Rightarrow> kstate \<Rightarrow> kstate option" where
  "invoke_set_irq_handler irq c slot s = do {
     irq_slot \<leftarrow> get_irq_handler_slot irq s;
     s \<leftarrow> delete_one irq_slot s;
     on_ctes (cte_insert c slot irq_slot) s
   }"

definition invoke_clear_irq_handler :: "word64 \<Rightarrow> kstate \<Rightarrow> kstate option" where
  "invoke_clear_irq_handler irq s = do {
     irq_slot \<leftarrow> get_irq_handler_slot irq s;
     delete_one irq_slot s
   }"

section \<open>Decoding\<close>

definition arch_decode_irq_control_invocation :: "MessageLabel \<Rightarrow> nat \<Rightarrow> ptr \<Rightarrow> ptr \<Rightarrow> kstate \<Rightarrow> outcome" where
  "arch_decode_irq_control_invocation label len src_slot buffer s =
    (if label = ARMIRQIssueIRQHandlerTrigger then do {
       extra \<leftarrow> (if len < 4 then Some None else get_extra_cap_by_index 0 s);
       case extra of
         None \<Rightarrow> throw SEL4_TRUNCATED_MESSAGE s
       | Some cnode_slot \<Rightarrow> do {
           irq \<leftarrow> get_syscall_arg 0 buffer s;
           index \<leftarrow> get_syscall_arg 2 buffer s;
           depth \<leftarrow> get_syscall_arg 3 buffer s;
           (status, s) \<leftarrow> check_irq irq s;
           if status \<noteq> EXCEPTION_NONE then Some (status, s)
           else do {
             act \<leftarrow> is_irq_active irq s;
             if act then throw SEL4_REVOKE_FIRST s
             else do {
               (lu_ret, s) \<leftarrow> lookup_slot_for_cnode_op False (capability (ks_ctes s cnode_slot)) index depth s;
               if ls_status lu_ret \<noteq> EXCEPTION_NONE then Some (ls_status lu_ret, s)
               else do {
                 s \<leftarrow> set_current_state ThreadStateRestart s;
                 dest_slot \<leftarrow> convert_to_mut_type_ref (ls_slot lu_ret);
                 invoke_irq_control irq dest_slot src_slot s
               }
             }
           }
         }
     } else throw SEL4_ILLEGAL_OPERATION s)"

definition decode_irq_control_invocation :: "MessageLabel \<Rightarrow> nat \<Rightarrow> ptr \<Rightarrow> ptr \<Rightarrow> kstate \<Rightarrow> outcome" where
  "decode_irq_control_invocation label len src_slot buffer s =
    (if label = IRQIssueIRQHandler then do {
       extra \<leftarrow> (if len < 3 then Some None else get_extra_cap_by_index 0 s);
       case extra of
         None \<Rightarrow> throw SEL4_TRUNCATED_MESSAGE s
       | Some cnode_slot \<Rightarrow> do {
           irq \<leftarrow> get_syscall_arg 0 buffer s;
           index \<leftarrow> get_syscall_arg 1 buffer s;
           depth \<leftarrow> get_syscall_arg 2 buffer s;
           (status, s) \<leftarrow> check_irq irq s;
           if status \<noteq> EXCEPTION_NONE then Some (status, s)
           else do {
             act \<leftarrow> is_irq_active irq s;
             if act then throw SEL4_REVOKE_FIRST s
             else do {
               (lu_ret, s) \<leftarrow> lookup_slot_for_cnode_op False (capability (ks_ctes s cnode_slot)) index depth s;
               if ls_status lu_ret \<noteq> EXCEPTION_NONE then Some (ls_status lu_ret, s)
               else do {
                 dest_slot \<leftarrow> convert_to_mut_type_ref (ls_slot lu_ret);
                 if capability (ks_ctes s dest_slot) \<noteq> cap_null_cap then throw SEL4_DELETE_FIRST s
                 else do {
                   s \<leftarrow> set_current_state ThreadStateRestart s;
                   invoke_irq_control irq dest_slot src_slot s
                 }
               }
             }
           }
         }
     } else arch_decode_irq_control_invocation label len src_slot buffer s)"

definition decode_irq_handler_invocation :: "MessageLabel \<Rightarrow> word64 \<Rightarrow> kstate \<Rightarrow> outcome" where
  "decode_irq_handler_invocation label index s =
    (let irq = idx_to_irq index in
     case label of
       IRQAckIRQ \<Rightarrow> do {
         s \<leftarrow> set_current_state ThreadStateRestart s;
         Some (EXCEPTION_NONE, mask_interrupt False irq s)
       }
     | IRQSetIRQHandler \<Rightarrow> do {
         extra \<leftarrow> get_extra_cap_by_index 0 s;
         case extra of
           None \<Rightarrow> throw SEL4_TRUNCATED_MESSAGE s
         | Some slot \<Rightarrow>
             let ntfn_cap = capability (ks_ctes s slot) in
             if is_cap_notification_cap ntfn_cap \<and> \<not> capNtfnCanSend ntfn_cap then throw_capability 0 s
             else do {
               s \<leftarrow> set_current_state ThreadStateRestart s;
               s \<leftarrow> invoke_set_irq_handler irq ntfn_cap slot s;
               Some (EXCEPTION_NONE, s)
             }
       }
     | IRQClearIRQHandler \<Rightarrow> do {
         s \<leftarrow> set_current_state ThreadStateRestart s;
         s \<leftarrow> invoke_clear_irq_handler irq s;
         Some (EXCEPTION_NONE, s)
       }
     | _ \<Rightarrow> throw SEL4_ILLEGAL_OPERATION s)"

definition decode_domain_invocation :: "MessageLabel \<Rightarrow> nat \<Rightarrow> ptr \<Rightarrow> kstate \<Rightarrow> outcome" where
  "decode_domain_invocation invLabel len buffer s =
    (if invLabel \<noteq> DomainSetSet then throw SEL4_ILLEGAL_OPERATION s
     else if len = 0 then throw SEL4_TRUNCATED_MESSAGE s
     else do {
       dm \<leftarrow> get_syscall_arg 0 buffer s;
       if dm \<ge> 1 then throw_argument 0 s
       else do {
         extra \<leftarrow> get_extra_cap_by_index 0 s;
         case extra of
           None \<Rightarrow> throw SEL4_TRUNCATED_MESSAGE s
         | Some slot \<Rightarrow>
             let thread_cap = capability (ks_ctes s slot) in
             if \<not> is_cap_thread_cap thread_cap then throw_argument 1 s
             else do {
               s \<leftarrow> set_current_state ThreadStateRestart s;
               tcb \<leftarrow> convert_to_mut_type_ref (capTCBPtr thread_cap);
               s \<leftarrow> set_domain tcb dm s;
               Some (EXCEPTION_NONE, s)
             }
       }
     })"

section \<open>Handling interrupts\<close>

text \<open>\<open>int_ack\<close> is the value read from the acknowledge register of the interrupt controller.\<close>

definition get_active_irq :: "word64 \<Rightarrow> kstate \<Rightarrow> word64 \<times> kstate" where
  "get_active_irq int_ack s =
    (let s = (if int_ack AND IRQ_MASK < MAX_IRQ then s\<lparr>active_irq := int_ack\<rparr> else s);
         local_irq = active_irq s AND IRQ_MASK in
     (if local_irq < MAX_IRQ then local_irq else IRQ_INVALID, s))"

text \<open>The controller itself is outside the model; the kernel forgets the active interrupt.\<close>

definition ack_interrupt :: "word64 \<Rightarrow> kstate \<Rightarrow> kstate" where
  "ack_interrupt irq s = s\<lparr>active_irq := IRQ_NONE\<rparr>"

definition handle_interrput :: "word64 \<Rightarrow> kstate \<Rightarrow> kstate option" where
  "handle_interrput irq s =
    (if irq > MAX_IRQ then Some (ack_interrupt irq (mask_interrupt True irq s))
     else do {
       st \<leftarrow> get_irq_state irq s;
       s \<leftarrow> (case st of
           IRQInactive \<Rightarrow> Some (mask_interrupt True irq s)
         | IRQSignal \<Rightarrow> do {
             handler_slot \<leftarrow> get_irq_handler_slot irq s;
             let handler_cap = capability (ks_ctes s handler_slot);
             s \<leftarrow> (if is_cap_notification_cap handler_cap \<and> capNtfnCanSend handler_cap then do {
                 nf \<leftarrow> convert_to_mut_type_ref (capNtfnPtr handler_cap);
                 send_signal nf (capNtfnBadge handler_cap) s
               } else Some s);
             Some (mask_interrupt True irq s)
           }
         | IRQTimer \<Rightarrow> timer_tick s
         | IRQReserved \<Rightarrow> Some s);
       Some (ack_interrupt irq s)
     })"

definition handle_interrupt_entry :: "word64 \<Rightarrow> kstate \<Rightarrow> kstate option" where
  "handle_interrupt_entry int_ack s = do {
     let (irq, s) = get_active_irq int_ack s;
     s \<leftarrow> (if irq \<noteq> IRQ_INVALID then handle_interrput irq s else Some s);
     s \<leftarrow> schedule s;
     activateThread s
   }"

end
