(* ===== verification/Syscall.thy ===== *)
theory Syscall
  imports TcbInv CNodeInv MmuInv IrqInv
begin

text \<open>
  System calls and faults: the dispatch of an invocation on the kind of its capability
  (\<^verbatim>\<open>kernel/src/syscall/invocation/decode/mod.rs\<close>), the whole invocation with its reply
  (\<^verbatim>\<open>kernel/src/syscall/invocation/mod.rs\<close>, \<^verbatim>\<open>syscall_reply.rs\<close>), the other system calls and the
  delivery of faults (\<^verbatim>\<open>kernel/src/syscall/mod.rs\<close>, \<^verbatim>\<open>kernel/src/arch/aarch64/exception.rs\<close>).
  The first two arguments of an operation that may delete or revoke a capability are the fuel of \<open>revoke\<close> and
  \<open>delete_all\<close>.
\<close>

section \<open>Invocations\<close>

definition decode_invocation ::
  "nat \<Rightarrow> nat \<Rightarrow> MessageLabel \<Rightarrow> nat \<Rightarrow> ptr \<Rightarrow> cap \<Rightarrow> bool \<Rightarrow> bool \<Rightarrow> ptr \<Rightarrow> kstate \<Rightarrow> outcome" where
  "decode_invocation n m label len slot c block call buffer s = (case c of
       cap_null_cap \<Rightarrow> throw_capability 0 s
     | cap_zombie_cap _ _ \<Rightarrow> throw_capability 0 s
     | cap_endpoint_cap badge can_grant_reply can_grant can_receive can_send ep_ptr \<Rightarrow>
         if \<not> can_send then throw_capability 0 s
         else do {
           s \<leftarrow> set_current_state ThreadStateRestart s;
           ep \<leftarrow> convert_to_mut_type_ref ep_ptr;
           cur \<leftarrow> get_currenct_thread s;
           s \<leftarrow> send_ipc ep cur block call can_grant badge can_grant_reply s;
           Some (EXCEPTION_NONE, s)
         }
     | cap_notification_cap badge can_receive can_send ntfn_ptr \<Rightarrow>
         if \<not> can_send then throw_capability 0 s
         else do {
           s \<leftarrow> set_current_state ThreadStateRestart s;
           ntfn \<leftarrow> convert_to_mut_type_ref ntfn_ptr;
           s \<leftarrow> send_signal ntfn badge s;
           Some (EXCEPTION_NONE, s)
         }
     | cap_reply_cap tcb_ptr can_grant master \<Rightarrow>
         if master then throw_capability 0 s
         else do {
           s \<leftarrow> set_current_state ThreadStateRestart s;
           cur \<leftarrow> get_currenct_thread s;
           receiver \<leftarrow> convert_to_mut_type_ref tcb_ptr;
           s \<leftarrow> do_reply cur receiver slot can_grant s;
           Some (EXCEPTION_NONE, s)
         }
     | cap_thread_cap _ \<Rightarrow> decode_tcb_invocation m label len c slot call buffer s
     | cap_domain_cap \<Rightarrow> decode_domain_invocation label len buffer s
     | cap_cnode_cap _ _ _ _ \<Rightarrow> decode_cnode_invocation n m label len c buffer s
     | cap_untyped_cap _ _ _ _ \<Rightarrow> decode_untyed_invocation label len slot c buffer s
     | cap_irq_control_cap \<Rightarrow> decode_irq_control_invocation label len slot buffer s
     | cap_irq_handler_cap irq \<Rightarrow> decode_irq_handler_invocation label (ucast irq) s
     | _ \<Rightarrow> decode_mmu_invocation label len slot call buffer s)"

section \<open>Replies from the kernel\<close>

definition set_mrs_for_syscall_error :: "ptr \<Rightarrow> kstate \<Rightarrow> (nat \<times> kstate) option" where
  "set_mrs_for_syscall_error thread s =
    (let err = current_syscall_error s; t = se_type err in
     if t = SEL4_INVALID_ARGUMENT then set_mr thread 0 (invalidArgumentNumber err) s
     else if t = SEL4_INVALID_CAPABILITY then set_mr thread 0 (invalidCapNumber err) s
     else if t = SEL4_RANGE_ERROR then do {
       (_, s) \<leftarrow> set_mr thread 0 (rangeErrorMin err) s;
       set_mr thread 1 (rangeErrorMax err) s
     }
     else if t = SEL4_FAILED_LOOKUP then do {
       (_, s) \<leftarrow> set_mr thread 0 (of_bool (failedLookupWasSource err = 1)) s;
       set_lookup_fault_mrs thread 1 (current_lookup_fault s) s
     }
     else if t \<in> {SEL4_ILLEGAL_OPERATION, SEL4_ALIGNMENT_ERROR, SEL4_TRUNCATED_MESSAGE, SEL4_DELETE_FIRST,
       SEL4_REVOKE_FIRST} then Some (0, s)
     else if t = SEL4_NOT_ENOUGH_MEMORY then set_mr thread 0 (memoryLeft err) s
     else None)"

definition reply_error_from_kernel :: "ptr \<Rightarrow> kstate \<Rightarrow> kstate option" where
  "reply_error_from_kernel thread s = do {
     s \<leftarrow> set_reg thread Badge 0 s;
     (len, s) \<leftarrow> set_mrs_for_syscall_error thread s;
     set_reg thread MsgInfo (mi_new (se_type (current_syscall_error s)) 0 0 (of_nat len)) s
   }"

definition reply_success_from_kernel :: "ptr \<Rightarrow> kstate \<Rightarrow> kstate option" where
  "reply_success_from_kernel thread s = do {
     s \<leftarrow> set_reg thread Badge 0 s;
     set_reg thread MsgInfo (mi_new 0 0 0 0) s
   }"

section \<open>Faults\<close>

definition send_fault_ipc :: "ptr \<Rightarrow> kstate \<Rightarrow> outcome" where
  "send_fault_ipc thread s = do {
     let origin_lookup_fault = current_lookup_fault s;
     let handler = tcbFaultHandler (tcb_at s thread);
     lu_ret \<leftarrow> lookup_slot thread handler s;
     if ls_status lu_ret \<noteq> EXCEPTION_NONE
     then Some (EXCEPTION_FAULT, s\<lparr>current_fault := seL4_Fault_CapFault handler False\<rparr>)
     else
       let handler_cap = capability (ks_ctes s (ls_slot lu_ret)) in
       if is_cap_endpoint_cap handler_cap \<and> (capCanGrant handler_cap \<or> capCanGrantReply handler_cap) then do {
         let s = upd_tcb thread (\<lambda>t. t\<lparr>tcbFault := current_fault s\<rparr>) s;
         let s = (case current_fault s of
             seL4_Fault_CapFault _ _ \<Rightarrow> upd_tcb thread (\<lambda>t. t\<lparr>tcbLookupFailure := origin_lookup_fault\<rparr>) s
           | _ \<Rightarrow> s);
         ep \<leftarrow> convert_to_mut_type_ref (capEPPtr handler_cap);
         s \<leftarrow> send_ipc ep thread True True (capCanGrant handler_cap) (capEPBadge handler_cap) True s;
         Some (EXCEPTION_NONE, s)
       }
       else Some (EXCEPTION_FAULT, s\<lparr>current_fault := seL4_Fault_CapFault handler False,
              current_lookup_fault := missing_capability 0\<rparr>)
   }"

definition handle_fault :: "ptr \<Rightarrow> kstate \<Rightarrow> kstate option" where
  "handle_fault thread s = do {
     (status, s) \<leftarrow> send_fault_ipc thread s;
     if status \<noteq> EXCEPTION_NONE then set_thread_state thread ThreadStateInactive s else Some s
   }"

section \<open>Handling an invocation\<close>

definition handle_invocation :: "nat \<Rightarrow> nat \<Rightarrow> bool \<Rightarrow> bool \<Rightarrow> kstate \<Rightarrow> outcome" where
  "handle_invocation n m isCall isBlocking s = do {
     thread \<leftarrow> get_currenct_thread s;
     w \<leftarrow> get_reg thread MsgInfo s;
     let info = from_word_security w;
     cptr \<leftarrow> get_reg thread Cap s;
     lu_ret \<leftarrow> lookup_slot thread cptr s;
     if ls_status lu_ret \<noteq> EXCEPTION_NONE then do {
       let s = s\<lparr>current_fault := seL4_Fault_CapFault cptr False\<rparr>;
       s \<leftarrow> (if isBlocking then handle_fault thread s else Some s);
       Some (EXCEPTION_NONE, s)
     } else do {
       buffer \<leftarrow> lookup_ipc_buffer thread False s;
       (status, s) \<leftarrow> lookup_extra_caps_current thread buffer s;
       if status \<noteq> EXCEPTION_NONE then do {
         s \<leftarrow> (if isBlocking then handle_fault thread s else Some s);
         Some (EXCEPTION_NONE, s)
       } else do {
         let len = unat (mi_get_length info);
         let len = (if len > MSG_REGISTER_NUM \<and> buffer = None then MSG_REGISTER_NUM else len);
         let c = capability (ks_ctes s (ls_slot lu_ret));
         label \<leftarrow> get_message_label info;
         buf \<leftarrow> buffer;
         (status, s) \<leftarrow> decode_invocation n m label len (ls_slot lu_ret) c isBlocking isCall buf s;
         if status = EXCEPTION_PREEMTED then Some (status, s)
         else if status = EXCEPTION_SYSCALL_ERROR then do {
           s \<leftarrow> (if isCall then reply_error_from_kernel thread s else Some s);
           Some (EXCEPTION_NONE, s)
         } else do {
           s \<leftarrow> (if get_state s thread = ThreadStateRestart then do {
               s \<leftarrow> (if isCall then reply_success_from_kernel thread s else Some s);
               set_thread_state thread ThreadStateRunning s
             } else Some s);
           Some (EXCEPTION_NONE, s)
         }
       }
     }
   }"

section \<open>The other system calls\<close>

definition handle_reply :: "kstate \<Rightarrow> kstate option" where
  "handle_reply s = do {
     current_thread \<leftarrow> get_currenct_thread s;
     let caller_slot = get_cspace current_thread TCB_CALLER;
     case capability (ks_ctes s caller_slot) of
       cap_reply_cap tcb_ptr can_grant master \<Rightarrow>
         if master then Some s
         else do {
           caller \<leftarrow> convert_to_mut_type_ref tcb_ptr;
           do_reply current_thread caller caller_slot can_grant s
         }
     | _ \<Rightarrow> Some s
   }"

definition recv_fault :: "ptr \<Rightarrow> word64 \<Rightarrow> kstate \<Rightarrow> kstate option" where
  "recv_fault thread ep_cptr s =
     handle_fault thread (s\<lparr>current_lookup_fault := missing_capability 0,
       current_fault := seL4_Fault_CapFault ep_cptr True\<rparr>)"

definition handle_recv :: "bool \<Rightarrow> kstate \<Rightarrow> kstate option" where
  "handle_recv block s = do {
     current_thread \<leftarrow> get_currenct_thread s;
     ep_cptr \<leftarrow> get_reg current_thread Cap s;
     lu_ret \<leftarrow> lookup_slot current_thread ep_cptr s;
     if ls_status lu_ret \<noteq> EXCEPTION_NONE
     then handle_fault current_thread (s\<lparr>current_fault := seL4_Fault_CapFault ep_cptr True\<rparr>)
     else case capability (ks_ctes s (ls_slot lu_ret)) of
         cap_endpoint_cap badge can_grant_reply can_grant can_receive can_send ep_ptr \<Rightarrow>
           if \<not> can_receive then recv_fault current_thread ep_cptr s
           else do {
             s \<leftarrow> delete_caller_cap current_thread s;
             ep \<leftarrow> convert_to_mut_type_ref ep_ptr;
             receive_ipc ep current_thread block can_grant s
           }
       | cap_notification_cap badge can_receive can_send ntfn_ptr \<Rightarrow> do {
           ntfn \<leftarrow> convert_to_mut_type_ref ntfn_ptr;
           let bound_tcb_ptr = ntfnBoundTCB (ks_ntfns s ntfn);
           if \<not> can_receive \<or> bound_tcb_ptr \<noteq> 0 \<and> bound_tcb_ptr \<noteq> current_thread
           then recv_fault current_thread ep_cptr s
           else receive_signal ntfn current_thread block s
         }
       | _ \<Rightarrow> recv_fault current_thread ep_cptr s
   }"

definition handle_yield :: "kstate \<Rightarrow> kstate option" where
  "handle_yield s = do {
     cur \<leftarrow> get_currenct_thread s;
     s \<leftarrow> sched_dequeue cur s;
     cur \<leftarrow> get_currenct_thread s;
     s \<leftarrow> sched_append cur s;
     reschedule_required s
   }"

definition SYS_CALL :: word64 where "SYS_CALL = -1"
definition SYS_REPLY_RECV :: word64 where "SYS_REPLY_RECV = -2"
definition SYS_SEND :: word64 where "SYS_SEND = -3"
definition SYS_NB_SEND :: word64 where "SYS_NB_SEND = -4"
definition SYS_RECV :: word64 where "SYS_RECV = -5"
definition SYS_REPLY :: word64 where "SYS_REPLY = -6"
definition SYS_YIELD :: word64 where "SYS_YIELD = -7"
definition SYS_NB_RECV :: word64 where "SYS_NB_RECV = -8"
definition SYSCALL_MAX :: word64 where "SYSCALL_MAX = SYS_CALL"
definition SYSCALL_MIN :: word64 where "SYSCALL_MIN = SYS_NB_RECV"

lemmas syscall_consts = SYS_CALL_def SYS_REPLY_RECV_def SYS_SEND_def SYS_NB_SEND_def SYS_RECV_def SYS_REPLY_def
  SYS_YIELD_def SYS_NB_RECV_def SYSCALL_MAX_def SYSCALL_MIN_def

text \<open>An invocation that was preempted; \<open>int_ack\<close> is what the interrupt controller reports.\<close>

definition invocation_syscall :: "nat \<Rightarrow> nat \<Rightarrow> word64 \<Rightarrow> bool \<Rightarrow> bool \<Rightarrow> kstate \<Rightarrow> kstate option" where
  "invocation_syscall n m int_ack isCall isBlocking s = do {
     (ret, s) \<leftarrow> handle_invocation n m isCall isBlocking s;
     if ret \<noteq> EXCEPTION_NONE then
       let (irq, s) = get_active_irq int_ack s in
       if irq \<noteq> IRQ_INVALID then handle_interrput irq s else Some s
     else Some s
   }"

definition handlesyscall :: "nat \<Rightarrow> nat \<Rightarrow> word64 \<Rightarrow> word64 \<Rightarrow> kstate \<Rightarrow> outcome" where
  "handlesyscall n m int_ack syscall s = do {
     s \<leftarrow> (if syscall = SYS_SEND then invocation_syscall n m int_ack False True s
           else if syscall = SYS_NB_SEND then invocation_syscall n m int_ack False False s
           else if syscall = SYS_CALL then invocation_syscall n m int_ack True True s
           else if syscall = SYS_RECV then handle_recv True s
           else if syscall = SYS_REPLY then handle_reply s
           else if syscall = SYS_REPLY_RECV then do { s \<leftarrow> handle_reply s; handle_recv True s }
           else if syscall = SYS_NB_RECV then handle_recv False s
           else if syscall = SYS_YIELD then handle_yield s
           else None);
     s \<leftarrow> schedule s;
     s \<leftarrow> activateThread s;
     Some (EXCEPTION_NONE, s)
   }"

section \<open>Unknown system calls and faults of a thread\<close>

record lookupCapAndSlot_ret_t =
  lcs_status :: exception_t
  lcs_slot :: ptr
  lcs_capability :: cap

definition lookupCapAndSlot :: "ptr \<Rightarrow> word64 \<Rightarrow> kstate \<Rightarrow> lookupCapAndSlot_ret_t option" where
  "lookupCapAndSlot thread cPtr s = do {
     lu_ret \<leftarrow> lookup_slot thread cPtr s;
     if ls_status lu_ret \<noteq> EXCEPTION_NONE
     then Some \<lparr> lcs_status = ls_status lu_ret, lcs_slot = 0, lcs_capability = cap_null_cap \<rparr>
     else Some \<lparr> lcs_status = EXCEPTION_NONE, lcs_slot = ls_slot lu_ret,
       lcs_capability = capability (ks_ctes s (ls_slot lu_ret)) \<rparr>
   }"

text \<open>
  The system calls for debugging only print, and halt where the model has no value.  \<open>clock\<close> is the time the
  timer reports, and \<open>name_len\<close> the length of the string at the start of the caller's buffer, as \<open>strnlen\<close>
  returns it with the bound of a message.
\<close>

definition handle_unknown_syscall :: "word64 \<Rightarrow> word64 \<Rightarrow> word64 \<Rightarrow> kstate \<Rightarrow> outcome" where
  "handle_unknown_syscall clock name_len w s = do {
     thread \<leftarrow> get_currenct_thread s;
     if w \<in> {SYSCALL_MIN - 1, SYSCALL_MIN - 2, SYSCALL_MIN - 3, SYSCALL_MIN - 5} then Some (EXCEPTION_NONE, s)
     else if w = SYSCALL_MIN - 4 then do {
       cptr \<leftarrow> get_reg thread Cap s;
       lu_ret \<leftarrow> lookupCapAndSlot thread cptr s;
       s \<leftarrow> set_reg thread Cap (of_nat (get_tag (lcs_capability lu_ret))) s;
       Some (EXCEPTION_NONE, s)
     }
     else if w = SYSCALL_MIN - 6 then do {
       cptr \<leftarrow> get_reg thread Cap s;
       lu_ret \<leftarrow> lookupCapAndSlot thread cptr s;
       kassert (is_cap_thread_cap (lcs_capability lu_ret));
       b \<leftarrow> lookup_ipc_buffer thread True s;
       kassert ((case b of Some p \<Rightarrow> p | None \<Rightarrow> 0) + 1 \<noteq> 0);
       kassert (name_len \<noteq> SEL4_MSG_MAX_LENGTH * 8);
       Some (EXCEPTION_NONE, s)
     }
     else if w = -30 then do {
       s \<leftarrow> set_reg thread Cap clock s;
       Some (EXCEPTION_NONE, s)
     }
     else do {
       s \<leftarrow> handle_fault thread (s\<lparr>current_fault := seL4_Fault_UnknownSyscall w\<rparr>);
       s \<leftarrow> schedule s;
       s \<leftarrow> activateThread s;
       Some (EXCEPTION_NONE, s)
     }
   }"

text \<open>The entry for a system call, up to the return to the user.\<close>

definition slowpath :: "nat \<Rightarrow> nat \<Rightarrow> word64 \<Rightarrow> word64 \<Rightarrow> word64 \<Rightarrow> word64 \<Rightarrow> kstate \<Rightarrow> outcome" where
  "slowpath n m int_ack clock name_len syscall s =
    (if sint syscall < sint SYSCALL_MIN \<or> sint syscall > sint SYSCALL_MAX
     then handle_unknown_syscall clock name_len syscall s
     else handlesyscall n m int_ack syscall s)"

definition handleUserLevelFault :: "word64 \<Rightarrow> word64 \<Rightarrow> kstate \<Rightarrow> outcome" where
  "handleUserLevelFault w_a w_b s = do {
     cur \<leftarrow> get_currenct_thread s;
     s \<leftarrow> handle_fault cur (s\<lparr>current_fault := seL4_Fault_UserException (ucast w_a) (ucast w_b)\<rparr>);
     s \<leftarrow> schedule s;
     s \<leftarrow> activateThread s;
     Some (EXCEPTION_NONE, s)
   }"

text \<open>\<open>far\<close> and \<open>esr\<close> are the fault address and the syndrome that the processor reports.\<close>

definition handle_vm_fault :: "word64 \<Rightarrow> word64 \<Rightarrow> word64 \<Rightarrow> kstate \<Rightarrow> outcome" where
  "handle_vm_fault far esr type s =
    (if type = 0 then Some (EXCEPTION_FAULT, s\<lparr>current_fault := seL4_Fault_VMFault far (ucast esr) False\<rparr>)
     else if type = 1 then do {
       cur \<leftarrow> get_currenct_thread s;
       pc \<leftarrow> get_reg cur FaultIP s;
       Some (EXCEPTION_FAULT, s\<lparr>current_fault := seL4_Fault_VMFault pc (ucast esr) True\<rparr>)
     } else None)"

definition handleVMFaultEvent :: "word64 \<Rightarrow> word64 \<Rightarrow> word64 \<Rightarrow> kstate \<Rightarrow> outcome" where
  "handleVMFaultEvent far esr type s = do {
     (status, s) \<leftarrow> handle_vm_fault far esr type s;
     s \<leftarrow> (if status \<noteq> EXCEPTION_NONE then do { cur \<leftarrow> get_currenct_thread s; handle_fault cur s } else Some s);
     s \<leftarrow> schedule s;
     s \<leftarrow> activateThread s;
     Some (EXCEPTION_NONE, s)
   }"

end
