(* ===== verification/IpcProps.thy ===== *)
theory IpcProps
  imports Syscall SchedulerProps
begin

text \<open>
  Properties of the objects that threads wait on: waking all waiting threads, signals, and the transfer of
  messages and capabilities.
\<close>

section \<open>Waking all waiting threads\<close>

lemma set_tsType_same:
  "ks_eps (set_tsType t st s) = ks_eps s" "ks_ntfns (set_tsType t st s) = ks_ntfns s"
  "ks_ctes (set_tsType t st s) = ks_ctes s" "ksCurThread (set_tsType t st s) = ksCurThread s"
  "in_range (set_tsType t st s) x = in_range s x" "queued (set_tsType t st s) x = queued s x"
  "sched_ok (set_tsType t st s) = sched_ok s"
  "ep_nx (set_tsType t st s) = ep_nx s" "ep_pv (set_tsType t st s) = ep_pv s"
  using sched_inv_upd_tcb [of "tcbState_update (\<lambda>ts. ts\<lparr>tsType := st\<rparr>)" s t]
  by (simp_all add: set_tsType_def sched_key_def ep_nx_def ep_pv_def fun_eq_iff)

lemma get_state_set_tsType: "get_state (set_tsType t st s) x = (if x = t then st else get_state s x)"
  by (simp add: get_state_def set_tsType_def)

lemma resched_frame_links:
  assumes "resched_frame s s'"
  shows "ep_nx s' = ep_nx s" "ep_pv s' = ep_pv s"
proof -
  have "no_sched (tcb_at s' p) = no_sched (tcb_at s p)" for p using assms by (simp add: resched_frame_def)
  note this [THEN no_sched_fields(5)] this [THEN no_sched_fields(6)]
  then show "ep_nx s' = ep_nx s" "ep_pv s' = ep_pv s" by (simp_all add: ep_nx_def ep_pv_def fun_eq_iff)
qed

text \<open>One turn of the loop: the thread is restarted and put into its ready queue.\<close>

lemma wake_step:
  assumes ok: "sched_ok s" and t: "in_range s t" "t \<noteq> 0"
  shows "\<exists>s'. set_thread_state t ThreadStateRestart s \<bind> sched_enqueue t = Some s' \<and> sched_ok s' \<and>
    resched_frame (set_tsType t ThreadStateRestart s) s' \<and> (\<forall>x. queued s' x \<longleftrightarrow> x = t \<or> queued s x)"
proof -
  let ?s = "set_tsType t ThreadStateRestart s"
  have ok': "sched_ok ?s" "in_range ?s t" using ok t by (simp_all add: set_tsType_same)
  then obtain Q where "sched_inv ?s Q" by (auto simp: sched_ok_def)
  from sched_enqueue_any [OF this ok'(2) t(2)] obtain s' Q' where s': "sched_enqueue t ?s = Some s'" "sched_inv s' Q'"
    "sched_frame ?s s'" "\<forall>x. queued s' x \<longleftrightarrow> x = t \<or> queued ?s x" by auto
  then show ?thesis
    using sched_ok_frame [OF ok'(1) s'(2,3)] sched_frame_resched [OF s'(3)]
    by (auto simp: set_thread_state_restart set_tsType_same)
qed

lemma wake_all_run:
  assumes "sched_ok s" "dlseg (ep_nx s) (ep_pv s) p ts 0" "\<And>x. x \<in> set ts \<Longrightarrow> in_range s x" "distinct ts"
  shows "\<exists>s'. wake_all (first_of ts 0) s = Some s' \<and> sched_ok s' \<and>
    (\<forall>x. get_state s' x = (if x \<in> set ts then ThreadStateRestart else get_state s x)) \<and>
    (\<forall>x. queued s' x \<longleftrightarrow> x \<in> set ts \<or> queued s x) \<and>
    ks_eps s' = ks_eps s \<and> ks_ntfns s' = ks_ntfns s \<and> ks_ctes s' = ks_ctes s \<and> ksCurThread s' = ksCurThread s"
  using assms
proof (induction ts arbitrary: p s)
  case Nil
  show ?case using Nil.prems by (simp add: wake_all.simps)
next
  case (Cons t ts)
  have t: "t \<noteq> 0" "ep_nx s t = first_of ts 0" "dlseg (ep_nx s) (ep_pv s) t ts 0" using Cons.prems(2) by auto
  from wake_step [of s t] Cons.prems t obtain s1 where s1:
    "set_thread_state t ThreadStateRestart s \<bind> sched_enqueue t = Some s1" "sched_ok s1"
    "resched_frame (set_tsType t ThreadStateRestart s) s1" "\<forall>x. queued s1 x \<longleftrightarrow> x = t \<or> queued s x" by auto
  note F = resched_frame_fields [OF s1(3)] resched_frame_globals [OF s1(3)] resched_frame_links [OF s1(3)]
  have "tcbEPNext (tcb_at s1 t) = first_of ts 0" using fun_cong [OF F(21), of t] t(2) by (simp add: ep_nx_def set_tsType_same)
  then have run: "wake_all t s = wake_all (first_of ts 0) s1"
    using s1(1) t(1) by (subst wake_all.simps) (simp add: set_thread_state_restart)
  have seg: "dlseg (ep_nx s1) (ep_pv s1) t ts 0" using t(3) F by (simp add: set_tsType_same)
  have rng: "\<And>x. x \<in> set ts \<Longrightarrow> in_range s1 x" using Cons.prems(3) F by (simp add: set_tsType_same)
  have "distinct ts" using Cons.prems(4) by simp
  from Cons.IH [OF s1(2) seg rng this] obtain s' where s': "wake_all (first_of ts 0) s1 = Some s'" "sched_ok s'"
    "\<forall>x. get_state s' x = (if x \<in> set ts then ThreadStateRestart else get_state s1 x)"
    "\<forall>x. queued s' x \<longleftrightarrow> x \<in> set ts \<or> queued s1 x" "ks_eps s' = ks_eps s1" "ks_ntfns s' = ks_ntfns s1"
    "ks_ctes s' = ks_ctes s1" "ksCurThread s' = ksCurThread s1"
    by blast
  show ?case
    unfolding first_of.simps run
    using s' s1(4) F by (auto simp: set_tsType_same get_state_set_tsType)
qed

lemma reschedule_required_run:
  assumes ok: "sched_ok s"
  shows "\<exists>s'. reschedule_required s = Some s' \<and> sched_ok s' \<and> resched_frame s s' \<and> (\<forall>x. queued s x \<longrightarrow> queued s' x)"
proof -
  obtain s' where s': "reschedule_required s = Some s'" "sched_ok s'" "resched_frame s s'"
    using reschedule_required_ok [OF ok] by blast
  have "queued s' x" if x: "queued s x" for x
  proof (cases "ksSchedulerAction s \<in> {0, 1}")
    case True
    then have "s' = s\<lparr>ksSchedulerAction := SCHEDULER_ACTION_CHOOSE_NEW_THREAD\<rparr>"
      using s'(1) by (auto simp: reschedule_required_def SCHEDULER_ACTION_RESUME_CURRENT_THREAD_def
          SCHEDULER_ACTION_CHOOSE_NEW_THREAD_def)
    with x show ?thesis by (simp add: queued_def)
  next
    case False
    let ?t = "ksSchedulerAction s"
    have t: "in_range s ?t" "?t \<noteq> 0" using ok False by (auto simp: sched_ok_def)
    obtain Q where "sched_inv s Q" using ok by (auto simp: sched_ok_def)
    from sched_enqueue_any [OF this t] obtain s1 where "sched_enqueue ?t s = Some s1" "queued s1 x" using x by blast
    with s'(1) t False show ?thesis
      by (auto simp: reschedule_required_def convert_to_mut_type_ref_def kassert_def queued_def
          SCHEDULER_ACTION_RESUME_CURRENT_THREAD_def SCHEDULER_ACTION_CHOOSE_NEW_THREAD_def)
  qed
  with s' show ?thesis by blast
qed


text \<open>Two threads that wait to send on the endpoint at \<open>0x7000\<close>.\<close>

definition sample_wait :: kstate where
  "sample_wait =
     (upd_tcb 0x2000 (\<lambda>t. t\<lparr>tcbEPPrev := 0x1000\<rparr>)
       (upd_tcb 0x1000 (\<lambda>t. t\<lparr>tcbEPNext := 0x2000\<rparr>)
         (set_tsType 0x2000 ThreadStateBlockedOnSend (set_tsType 0x1000 ThreadStateBlockedOnSend sample_sched))))
     \<lparr>ks_eps := (ks_eps sample_sched)(0x7000 := \<lparr> epQueue_head = 0x1000, epQueue_tail = 0x2000, ep_state = EPState_Send \<rparr>),
      ksCurThread := 0x500, ksSchedulerAction := 0\<rparr>"

lemma sample_wait_ok: "sched_ok sample_wait"
proof -
  have k: "sched_key (tcb_at sample_wait p) = sched_key (tcb_at sample_sched p)" for p
    by (simp add: sample_wait_def sched_key_def set_tsType_def)
  have "sched_inv sample_wait (\<lambda>_. [])"
    using sched_inv_key(1) [OF k] sample_sched_inv by (simp add: sample_wait_def set_tsType_def)
  moreover have "ksSchedulerAction sample_wait = 0" by (simp add: sample_wait_def)
  ultimately show ?thesis by (auto simp: sched_ok_def)
qed

lemma sample_wait_queue: "ep_queue sample_wait (get_ep_queue 0x7000 sample_wait) [0x1000, 0x2000]"
  by (simp add: ep_queue_def queue_rep_def dll_def get_ep_queue_def ep_nx_def ep_pv_def sample_wait_def
      set_tsType_def sample_sched_def sample_thread_def empty_tcb_def)


section \<open>Signals\<close>

primrec signals :: "ptr \<Rightarrow> word64 list \<Rightarrow> kstate \<Rightarrow> kstate option" where
  "signals n [] s = Some s"
| "signals n (b # bs) s = do { s \<leftarrow> send_signal n b s; signals n bs s }"

lemma signals_active:
  "get_ntfn_state n s = NtfnState_Active \<Longrightarrow>
   signals n bs s = Some (upd_ntfn n (\<lambda>x. x\<lparr>ntfnMsgIdentifier := foldl (OR) (ntfnMsgIdentifier x) bs\<rparr>) s)"
proof (induction bs arbitrary: s)
  case Nil
  show ?case by (simp add: upd_ntfn_def)
next
  case (Cons b bs)
  let ?s = "upd_ntfn n (\<lambda>x. x\<lparr>ntfnMsgIdentifier := ntfnMsgIdentifier x OR b\<rparr>) s"
  have "get_ntfn_state n ?s = NtfnState_Active" using Cons.prems by (simp add: get_ntfn_state_def upd_ntfn_def)
  from Cons.IH [OF this] Cons.prems show ?case by (simp add: send_signal_def upd_ntfn_def)
qed

text \<open>
  C24: Signals on an idle notification without a bound thread accumulate: after any non-empty sequence of
  \<open>send_signal\<close> calls, \<open>receive_signal\<close> returns at once with the bitwise or of all their badges and leaves the
  notification idle; no other thread or notification is touched.
\<close>

theorem signals_accumulate:
  assumes "get_ntfn_state n s = NtfnState_Idle" "ntfnBoundTCB (ks_ntfns s n) = 0"
  shows "\<exists>s1 s2. signals n (b # bs) s = Some s1 \<and> receive_signal n t is_blocking s1 = Some s2 \<and>
    get_reg t Badge s2 = Some (foldl (OR) b bs) \<and> get_ntfn_state n s2 = NtfnState_Idle \<and>
    (\<forall>x. x \<noteq> t \<longrightarrow> tcb_at s2 x = tcb_at s x) \<and> (\<forall>m. m \<noteq> n \<longrightarrow> ks_ntfns s2 m = ks_ntfns s m)"
proof -
  let ?a = "active_ntfn n b s"
  have a: "send_signal n b s = Some ?a" using assms by (simp add: send_signal_def)
  have "get_ntfn_state n ?a = NtfnState_Active" by (simp add: get_ntfn_state_def active_ntfn_def upd_ntfn_def)
  note run = signals_active [OF this, of bs]
  let ?s1 = "upd_ntfn n (\<lambda>x. x\<lparr>ntfnMsgIdentifier := foldl (OR) (ntfnMsgIdentifier x) bs\<rparr>) ?a"
  have "get_ntfn_state n ?s1 = NtfnState_Active" "ntfnMsgIdentifier (ks_ntfns ?s1 n) = foldl (OR) b bs"
    by (simp_all add: get_ntfn_state_def active_ntfn_def upd_ntfn_def)
  then have "receive_signal n t is_blocking ?s1 =
      Some (set_ntfn_state n NtfnState_Idle (upd_tcb t (\<lambda>u. u\<lparr>tcbArch := (tcbArch (tcb_at ?s1 t))(0 := foldl (OR) b bs)\<rparr>) ?s1))"
    by (simp add: receive_signal_def set_reg_def set_register_def)
  with a run show ?thesis
    by (auto simp: get_reg_def get_register_def get_ntfn_state_def set_ntfn_state_def upd_ntfn_def active_ntfn_def upd_tcb_def)
qed

theorem signals_accumulate_witness:
  "\<exists>s1 s2. signals 0x9000 [1, 4] sample_sched = Some s1 \<and> receive_signal 0x9000 0x1000 True s1 = Some s2 \<and>
    get_reg 0x1000 Badge s2 = Some 5"
  using signals_accumulate [of "0x9000" sample_sched 1 "[4]" "0x1000" True]
  by (auto simp: get_ntfn_state_def sample_sched_def empty_kstate_def)

section \<open>Transfer of messages\<close>

lemma copy_regs_run:
  assumes "self \<noteq> receiver" "\<forall>i \<in> set is. to_index (f i) = Some (u i)"
  shows "copy_regs is self f receiver f s =
    Some (upd_tcb receiver (\<lambda>t. t\<lparr>tcbArch := (\<lambda>r. if r \<in> u ` set is then tcbArch (tcb_at s self) r else tcbArch t r)\<rparr>) s)"
  using assms(2)
proof (induction "is" arbitrary: s)
  case Nil
  show ?case by (simp add: upd_tcb_def)
next
  case (Cons i "is")
  let ?s = "upd_tcb receiver (\<lambda>t. t\<lparr>tcbArch := (tcbArch (tcb_at s receiver))(u i := tcbArch (tcb_at s self) (u i))\<rparr>) s"
  have "copy_regs (i # is) self f receiver f s = copy_regs is self f receiver f ?s"
    using Cons.prems by (simp add: get_reg_def get_register_def set_reg_def set_register_def)
  also have "\<dots> = Some (upd_tcb receiver (\<lambda>t. t\<lparr>tcbArch := (\<lambda>r. if r \<in> u ` set is then tcbArch (tcb_at ?s self) r else tcbArch t r)\<rparr>) ?s)"
    using Cons by simp
  also have "\<dots> = Some (upd_tcb receiver (\<lambda>t. t\<lparr>tcbArch := (\<lambda>r. if r \<in> u ` set (i # is) then tcbArch (tcb_at s self) r else tcbArch t r)\<rparr>) s)"
    using assms(1) by (simp add: upd_tcb_def fun_eq_iff cong: if_cong)
  finally show ?case .
qed

lemma copy_words_run:
  assumes "sp \<noteq> rp" "\<And>p. length (buf_msg (ks_bufs s p)) = 120" "\<forall>i \<in> set is. i < 120"
  shows "\<exists>s'. copy_words is sp rp s = Some s' \<and> s' = s\<lparr>ks_bufs := ks_bufs s'\<rparr> \<and>
    (\<forall>p. p \<noteq> rp \<longrightarrow> ks_bufs s' p = ks_bufs s p) \<and> (\<forall>p. length (buf_msg (ks_bufs s' p)) = 120) \<and>
    (\<forall>j < 120. buf_msg (ks_bufs s' rp) ! j =
      (if j \<in> set is then buf_msg (ks_bufs s sp) ! j else buf_msg (ks_bufs s rp) ! j))"
  using assms(2,3)
proof (induction "is" arbitrary: s)
  case Nil
  then show ?case by (intro exI [of _ s]) simp
next
  case (Cons i "is")
  let ?b = "(ks_bufs s rp)\<lparr>buf_msg := (buf_msg (ks_bufs s rp))[i := buf_msg (ks_bufs s sp) ! i]\<rparr>"
  let ?s = "upd_buf rp (\<lambda>_. ?b) s"
  have i: "i < 120" using Cons.prems(2) by simp
  then have run: "copy_words (i # is) sp rp s = copy_words is sp rp ?s"
    using Cons.prems(1) by (simp add: buf_get_word_def buf_set_word_def)
  have len: "\<And>p. length (buf_msg (ks_bufs ?s p)) = 120" using Cons.prems(1) by (simp add: upd_buf_def)
  have "\<forall>i \<in> set is. i < 120" using Cons.prems(2) by simp
  from Cons.IH [OF len this] obtain s' where s': "copy_words is sp rp ?s = Some s'" "s' = ?s\<lparr>ks_bufs := ks_bufs s'\<rparr>"
    "\<forall>p. p \<noteq> rp \<longrightarrow> ks_bufs s' p = ks_bufs ?s p" "\<forall>p. length (buf_msg (ks_bufs s' p)) = 120"
    "\<forall>j < 120. buf_msg (ks_bufs s' rp) ! j =
      (if j \<in> set is then buf_msg (ks_bufs ?s sp) ! j else buf_msg (ks_bufs ?s rp) ! j)" by blast
  have "s' = s\<lparr>ks_bufs := ks_bufs s'\<rparr>" by (subst s'(2)) (simp add: upd_buf_def)
  moreover have "\<forall>j < 120. buf_msg (ks_bufs s' rp) ! j =
      (if j \<in> set (i # is) then buf_msg (ks_bufs s sp) ! j else buf_msg (ks_bufs s rp) ! j)"
    using s'(5) assms(1) Cons.prems(1) i by (simp add: upd_buf_def nth_list_update)
  moreover have "\<forall>p. p \<noteq> rp \<longrightarrow> ks_bufs s' p = ks_bufs s p" using s'(3) by (simp add: upd_buf_def)
  ultimately show ?case using run s'(1,4) by auto
qed

lemma lookup_buffers_upd_tcb:
  assumes "\<And>t. tcbIPCBuffer (f t) = tcbIPCBuffer t"
  shows "lookup_ipc_buffer p r (upd_tcb q f s) = lookup_ipc_buffer p r s"
    "lookup_mut_ipc_buffer p r (upd_tcb q f s) = lookup_mut_ipc_buffer p r s"
  using assms by (auto simp: lookup_ipc_buffer_def lookup_mut_ipc_buffer_def Let_def)

text \<open>
  C25: \<open>copy_mrs\<close> delivers a message of up to 120 words between two threads that have distinct buffers: the
  message registers and the buffer words beyond them arrive unchanged, the number of transferred words is the
  length, and no other register, buffer word, thread or buffer changes.
\<close>

theorem copy_mrs_delivers:
  assumes "self \<noteq> receiver" "lookup_ipc_buffer self False s = Some (Some sp)"
    "lookup_mut_ipc_buffer receiver True s = Some (Some rp)" "sp \<noteq> rp" "len \<le> 120"
    "\<forall>p. length (buf_msg (ks_bufs s p)) = 120"
  shows "\<exists>s'. copy_mrs self receiver len s = Some (len, s') \<and>
    (\<forall>i < min len 4. get_reg receiver (Msg i) s' = get_reg self (Msg i) s) \<and>
    (\<forall>r. r \<notin> set (take len MSG_REGISTER) \<longrightarrow> tcbArch (tcb_at s' receiver) r = tcbArch (tcb_at s receiver) r) \<and>
    (\<forall>i < 120. buf_msg (ks_bufs s' rp) ! i =
       (if 4 \<le> i \<and> i < len then buf_msg (ks_bufs s sp) ! i else buf_msg (ks_bufs s rp) ! i)) \<and>
    (\<forall>t. t \<noteq> receiver \<longrightarrow> tcb_at s' t = tcb_at s t) \<and> (\<forall>p. p \<noteq> rp \<longrightarrow> ks_bufs s' p = ks_bufs s p)"
proof -
  let ?n = "min len MSG_REGISTER_NUM"
  let ?u = "\<lambda>i. MSG_REGISTER ! i"
  let ?f = "\<lambda>t. t\<lparr>tcbArch := (\<lambda>r. if r \<in> ?u ` set [0 ..< ?n] then tcbArch (tcb_at s self) r else tcbArch t r)\<rparr>"
  let ?s = "upd_tcb receiver ?f s"
  have reg: "to_index (Msg i) = Some (?u i)" if "i < 4" for i using that by (simp add: MSG_REGISTER_def)
  have r: "copy_regs [0 ..< ?n] self Msg receiver Msg s = Some ?s"
    by (rule copy_regs_run [OF assms(1)]) (use reg in \<open>simp add: MSG_REGISTER_NUM_def\<close>)
  have lk: "lookup_ipc_buffer self False ?s = Some (Some sp)" "lookup_mut_ipc_buffer receiver True ?s = Some (Some rp)"
    using assms(2,3) by (simp_all add: lookup_buffers_upd_tcb)
  obtain s' where s': "copy_words [?n ..< len] sp rp ?s = Some s'" "s' = ?s\<lparr>ks_bufs := ks_bufs s'\<rparr>"
    "\<forall>p. p \<noteq> rp \<longrightarrow> ks_bufs s' p = ks_bufs ?s p"
    "\<forall>j < 120. buf_msg (ks_bufs s' rp) ! j =
      (if j \<in> set [?n ..< len] then buf_msg (ks_bufs ?s sp) ! j else buf_msg (ks_bufs ?s rp) ! j)"
    using copy_words_run [OF assms(4), of ?s "[?n ..< len]"] assms(5,6) by auto
  have run: "copy_mrs self receiver len s = Some (len, s')" using r lk s'(1) by (simp add: copy_mrs_def)
  have tcbs: "ks_tcbs s' = ks_tcbs ?s" by (subst s'(2)) simp
  have im: "?u ` set [0 ..< ?n] = set (take len MSG_REGISTER)"
    by (simp add: nth_image MSG_REGISTER_NUM_def MSG_REGISTER_def min_def flip: atLeast0LessThan)
  have "get_reg receiver (Msg i) s' = get_reg self (Msg i) s" if "i < min len 4" for i
    using reg [of i] that by (auto simp: get_reg_def get_register_def tcbs MSG_REGISTER_NUM_def)
  moreover have "\<forall>r. r \<notin> set (take len MSG_REGISTER) \<longrightarrow> tcbArch (tcb_at s' receiver) r = tcbArch (tcb_at s receiver) r"
    by (simp add: tcbs flip: im)
  moreover have "j \<in> set [?n ..< len] \<longleftrightarrow> 4 \<le> j \<and> j < len" for j by (auto simp: MSG_REGISTER_NUM_def)
  then have "\<forall>j < 120. buf_msg (ks_bufs s' rp) ! j =
      (if 4 \<le> j \<and> j < len then buf_msg (ks_bufs s sp) ! j else buf_msg (ks_bufs s rp) ! j)"
    using s'(4) by (simp only: upd_tcb_frame)
  moreover have "\<forall>t. t \<noteq> receiver \<longrightarrow> tcb_at s' t = tcb_at s t" by (simp add: tcbs)
  moreover have "\<forall>p. p \<noteq> rp \<longrightarrow> ks_bufs s' p = ks_bufs s p" using s'(3) by simp
  ultimately show ?thesis using run by blast
qed

text \<open>
  Threads \<open>0x1000\<close> and \<open>0x2000\<close> with their buffers at \<open>0x8000\<close> and \<open>0x9000\<close>.  The second one has a CNode
  of two slots at \<open>0xa000\<close>, which holds its own capability in the first slot, and address 0 of that CNode is
  where it wants to receive capabilities.
\<close>

definition sample_cnode_cap :: cap where
  "sample_cnode_cap = cap_cnode_cap 0 63 1 0xa000"

definition sample_msg :: kstate where
  "sample_msg = sample_sched\<lparr>
     ks_ctes := (\<lambda>_. empty_cte)(
       0x1080 := empty_cte\<lparr>capability := cap_frame_cap 0 0x8000 0 0 1 False\<rparr>,
       0x2080 := empty_cte\<lparr>capability := cap_frame_cap 0 0x9000 0 0 1 False\<rparr>,
       0x2000 := empty_cte\<lparr>capability := sample_cnode_cap\<rparr>,
       0xa000 := empty_cte\<lparr>capability := sample_cnode_cap\<rparr>,
       0xb000 := empty_cte\<lparr>capability := cap_notification_cap 0 True True 0xc000\<rparr>),
     ks_bufs := (ks_bufs empty_kstate)
       (0x8000 := (ks_bufs empty_kstate 0)\<lparr>buf_msg := (replicate 120 0)[4 := 7]\<rparr>,
        0x9000 := (ks_bufs empty_kstate 0)\<lparr>receiveDepth := 64\<rparr>)\<rparr>"

lemma sample_msg_bufs:
  "lookup_ipc_buffer 0x1000 False sample_msg = Some (Some 0x8000)"
  "lookup_ipc_buffer 0x2000 True sample_msg = Some (Some 0x9000)"
  "lookup_mut_ipc_buffer 0x2000 True sample_msg = Some (Some 0x9000)"
  by (simp_all add: lookup_ipc_buffer_def lookup_mut_ipc_buffer_def buffer_address_def buffer_rights_ok_def
      convert_to_mut_type_ref_def pageBitsForSize_def get_cspace_def mask_bits_def TCB_BUFFER_def
      SEL4_TCB_BITS_def sample_msg_def sample_sched_def sample_thread_def empty_tcb_def)

theorem copy_mrs_delivers_witness:
  "\<exists>s'. copy_mrs 0x1000 0x2000 6 sample_msg = Some (6, s') \<and> buf_msg (ks_bufs s' 0x9000) ! 4 = 7"
proof -
  have "\<forall>p. length (buf_msg (ks_bufs sample_msg p)) = 120" by (simp add: sample_msg_def empty_kstate_def)
  from copy_mrs_delivers [of "0x1000" "0x2000" sample_msg, OF _ sample_msg_bufs(1,3) _ _ this, of 6]
  show ?thesis by (auto simp: sample_msg_def)
qed

section \<open>Panics a thread can cause\<close>

text \<open>
  C26: A thread whose capability table lets it name any capability, but which has no IPC buffer, panics the
  kernel by any invocation: \<open>handle_invocation\<close> unwraps the buffer although the code before it allows for its
  absence.
\<close>

theorem handle_invocation_without_buffer:
  assumes "get_currenct_thread s = Some thread" "get_reg thread MsgInfo s = Some w" "get_reg thread Cap s = Some cptr"
    "lookup_slot thread cptr s = Some r" "ls_status r = EXCEPTION_NONE" "lookup_ipc_buffer thread False s = Some None"
  shows "handle_invocation n m isCall isBlocking s = None"
  using assms by (simp add: handle_invocation_def lookup_extra_caps_current_def lookup_extra_caps_with_buf_def)

definition sample_no_buffer :: kstate where
  "sample_no_buffer = sample_sched\<lparr>ks_ctes := (\<lambda>_. empty_cte)(0x1000 := empty_cte\<lparr>capability := sample_cnode_cap\<rparr>)\<rparr>"

theorem handle_invocation_without_buffer_witness:
  "handle_invocation 1 1 True True sample_no_buffer = None"
proof -
  have "lookup_slot 0x1000 0 sample_no_buffer = Some \<lparr>ls_status = EXCEPTION_NONE, ls_slot = 0xa000\<rparr>"
    by code_simp
  moreover have "lookup_ipc_buffer 0x1000 False sample_no_buffer = Some None" by code_simp
  moreover have "get_currenct_thread sample_no_buffer = Some 0x1000"
    "get_reg 0x1000 MsgInfo sample_no_buffer = Some 0" "get_reg 0x1000 Cap sample_no_buffer = Some 0" by code_simp+
  ultimately show ?thesis using handle_invocation_without_buffer by simp
qed

text \<open>
  C27: A receiver whose receive slot already holds a capability panics the kernel when a sender transfers a
  capability to it: \<open>get_receive_slot\<close> does not require the slot to be empty and \<open>cte_insert\<close> asserts it.
\<close>

theorem transfer_to_occupied_slot:
  assumes "lookup_mut_ipc_buffer self True s = Some (Some buffer)" "get_receive_slot self s = Some (Some dest)"
    "slot \<noteq> 0" "capability (ks_ctes s dest) \<noteq> cap_null_cap"
    "\<not> (is_cap_endpoint_cap c \<and> ep = Some (capEPPtr c))" "c = capability (ks_ctes s slot)"
    "derive_cap (ks_ctes s) slot c = Some d" "dc_status d = EXCEPTION_NONE" "dc_capability d \<noteq> cap_null_cap"
  shows "set_transfer_caps self ep info (slot # extra_caps) s = None"
proof -
  have "cte_insert (dc_capability d) slot dest (ks_ctes s) = None"
    using assms(4) by (simp add: cte_insert_def Let_def)
  then show ?thesis using assms by (auto simp: set_transfer_caps_def SEL4_MSG_MAX_EXTRA_CAPS_def on_ctes_def numeral_eq_Suc Let_def)
qed

theorem transfer_to_occupied_slot_witness:
  "set_transfer_caps 0x2000 None (mi_new 0 0 1 0) [0xb000, 0, 0] sample_msg = None"
proof -
  have "get_receive_slot 0x2000 sample_msg = Some (Some 0xa000)" by code_simp
  moreover have "derive_cap (ks_ctes sample_msg) 0xb000 (cap_notification_cap 0 True True 0xc000) =
    Some \<lparr>dc_status = EXCEPTION_NONE, dc_capability = cap_notification_cap 0 True True 0xc000\<rparr>" by code_simp
  ultimately show ?thesis
    using transfer_to_occupied_slot [OF sample_msg_bufs(3), of "0xa000" "0xb000"]
    by (simp add: sample_msg_def sample_cnode_cap_def)
qed

end
