(* ===== verification/RetypeProps.thy ===== *)
theory RetypeProps
  imports Untyped SchedulerProps
begin

text \<open>
  Properties of retyping: where the new objects lie, what their capabilities are, and what resetting an untyped
  capability clears.
\<close>

section \<open>Arithmetic of free memory\<close>

lemma and_not_mask_bits: "unat e < 64 \<Longrightarrow> x AND NOT (mask_bits e) = push_bit (unat e) (drop_bit (unat e) x)"
  by (rule bit_eqI) (auto simp: bit_mask_bits bit_simps)

lemma unat_and_not_mask_bits:
  assumes "unat e < 64"
  shows "unat (x AND NOT (mask_bits e)) = unat x div 2 ^ unat e * 2 ^ unat e"
proof -
  have "unat x div 2 ^ unat e * 2 ^ unat e \<le> unat x" by simp
  also have "\<dots> < 2 ^ 64" using unsigned_less [of x] by simp
  finally have *: "unat x div 2 ^ unat e * 2 ^ unat e < 2 ^ 64" .
  have "take_bit 64 (unat x) = unat x" using unsigned_less [of x] by (intro take_bit_nat_eq_self) simp
  with * show ?thesis
    unfolding and_not_mask_bits [OF assms] unsigned_push_bit_eq unsigned_drop_bit_eq
    by (simp add: push_bit_eq_mult drop_bit_eq_div take_bit_nat_eq_self)
qed

lemma unat_shr:
  assumes "unat e < 64"
  shows "unat (shr x e) = unat x div 2 ^ unat e"
proof -
  have "take_bit 64 (unat x) = unat x" using unsigned_less [of x] by (intro take_bit_nat_eq_self) simp
  then show ?thesis unfolding shr_def unsigned_drop_bit_eq using assms by (simp add: drop_bit_eq_div)
qed

lemma unat_alignUp:
  assumes "unat e < 64" "unat x + 2 ^ unat e \<le> 2 ^ 64"
  shows "unat (alignUp x e) = (unat x + 2 ^ unat e - 1) div 2 ^ unat e * 2 ^ unat e"
proof -
  have *: "x + bit_mac e - 1 = x + mask_bits e" by (simp add: bit_mac_def mask_bits_def)
  have "unat (x + mask_bits e) = unat x + 2 ^ unat e - 1"
    using assms by (subst unat_add_lem [THEN iffD1]) (auto simp: unat_mask_bits)
  then show ?thesis unfolding alignUp_def * unat_and_not_mask_bits [OF assms(1)] by simp
qed

lemma round_up_div:
  fixes a b k :: nat
  assumes "0 < k" "k dvd b" "a + n * k \<le> b"
  shows "a \<le> (a + k - 1) div k * k" "(a + k - 1) div k * k + n * k \<le> b"
proof -
  from assms(2) obtain c where c: "b = c * k" by (metis dvd_div_mult_self)
  have "(a + k - 1) div k * k + (a + k - 1) mod k = a + k - 1" by simp
  moreover have "(a + k - 1) mod k < k" using assms(1) by simp
  ultimately show "a \<le> (a + k - 1) div k * k" using assms(1) by linarith
  have "n * k \<le> c * k" using assms(3) c by linarith
  then have n: "n \<le> c" using assms(1) by simp
  then have "(c - n) * k + n * k = c * k" by (metis add_mult_distrib le_add_diff_inverse2)
  then have "a + k - 1 < (c - n + 1) * k" using assms(1,3) c by (simp add: algebra_simps)
  then have "(a + k - 1) div k < c - n + 1" by (rule less_mult_imp_div_less)
  then have "((a + k - 1) div k + n) * k \<le> c * k" using n by (intro mult_le_mono1) linarith
  then show "(a + k - 1) div k * k + n * k \<le> b" by (simp add: c algebra_simps)
qed

section \<open>Resetting\<close>

text \<open>
  The first \<open>n\<close> bytes from \<open>base\<close> have been cleared and nothing else of memory has changed, apart from the
  capability in \<open>slot\<close>.
\<close>

definition cleared :: "ptr \<Rightarrow> nat \<Rightarrow> ptr \<Rightarrow> kstate \<Rightarrow> kstate \<Rightarrow> bool" where
  "cleared base n slot s s' \<longleftrightarrow>
     (\<forall>p. p \<noteq> slot \<longrightarrow> ks_ctes s' p = (if unat (p - base) < n then empty_cte else ks_ctes s p)) \<and>
     (\<forall>p. ks_tcbs s' p = (if unat (p - base) < n then empty_tcb else ks_tcbs s p)) \<and>
     (\<forall>p. ks_eps s' p = (if unat (p - base) < n then ks_eps empty_kstate p else ks_eps s p)) \<and>
     (\<forall>p. ks_ntfns s' p = (if unat (p - base) < n then ks_ntfns empty_kstate p else ks_ntfns s p)) \<and>
     (\<forall>p. ks_bufs s' p = (if unat (p - base) < n then ks_bufs empty_kstate p else ks_bufs s p)) \<and>
     (\<forall>p. ks_ptes s' p = (if unat (p - base) < n then 0 else ks_ptes s p)) \<and>
     (\<forall>p. ks_pools s' p = (if unat (p - base) < n then ks_pools empty_kstate p else ks_pools s p))"

lemma cleared_0: "cleared base 0 slot s (s\<lparr>ks_ctes := set_capability slot c (ks_ctes s)\<rparr>)" "cleared base 0 slot s s"
  by (simp_all add: cleared_def set_capability_def)

lemma if_chunk:
  "n \<le> m \<Longrightarrow> (if a < n then x else if a < m then x else y) = (if a < (m :: nat) then x else y)"
  by simp

lemma cleared_chunk:
  assumes "cleared base n slot s' s''"
    and "\<And>p. in_region b e p \<longleftrightarrow> n \<le> unat (p - base) \<and> unat (p - base) < m" "n \<le> m"
    and "ks_tcbs s' = ks_tcbs (clear_memory b e s)" "ks_eps s' = ks_eps (clear_memory b e s)"
    "ks_ntfns s' = ks_ntfns (clear_memory b e s)" "ks_bufs s' = ks_bufs (clear_memory b e s)"
    "ks_ptes s' = ks_ptes (clear_memory b e s)" "ks_pools s' = ks_pools (clear_memory b e s)"
    "\<And>p. p \<noteq> slot \<Longrightarrow> ks_ctes s' p = ks_ctes (clear_memory b e s) p"
  shows "cleared base m slot s s''"
proof -
  note chunk = if_chunk [OF assms(3)]
  show ?thesis using assms(1,4-) by (simp add: cleared_def clear_memory_def assms(2) chunk cong: if_cong)
qed

lemma unat_sub_less:
  fixes x c :: word64
  assumes "unat c + n \<le> 2 ^ 64"
  shows "unat (x - c) < n \<longleftrightarrow> unat c \<le> unat x \<and> unat x < unat c + n"
  using assms unsigned_less [of x] by (auto simp: unat_sub_if_size word_size)

lemma chunk_region:
  assumes "256 * Suc k \<le> 2 ^ 47"
  shows "in_region (base + shl (of_nat k) 8) 8 p \<longleftrightarrow> 256 * k \<le> unat (p - base) \<and> unat (p - base) < 256 * Suc k"
proof -
  have k: "unat (shl (of_nat k) 8 :: word64) = 256 * k"
  proof -
    have "shl (of_nat k) 8 = (of_nat (256 * k) :: word64)" by (simp add: shl_def push_bit_eq_mult)
    then show ?thesis using assms by (simp only: unsigned_of_nat) (simp add: take_bit_nat_def)
  qed
  show ?thesis
    unfolding in_region_def word_less_nat_alt unat_bit_mac [of 8, simplified] diff_diff_eq [symmetric]
    using assms by (subst unat_sub_less) (auto simp: k)
qed

lemma preemption_point_frame:
  obtains w where "preemption_point s = (EXCEPTION_NONE, s\<lparr>ksWorkUnitsCompleted := w\<rparr>)"
  by (cases "ksWorkUnitsCompleted s + 1 \<ge> CONFIG_MAX_NUM_WORK_UNITS_PER_PREEMPTION")
    (auto simp: preemption_point_def is_irq_pending_def Let_def)

lemma reset_loop_run:
  assumes "capability (ks_ctes s slot) = cap_untyped_cap fi dev bs base" "256 * n \<le> 2 ^ 47"
    "256 * n \<le> unat (slot - base)"
  shows "\<exists>s'. reset_loop n slot base s = (EXCEPTION_NONE, s') \<and> cleared base (256 * n) slot s s' \<and>
    capability (ks_ctes s' slot) = cap_untyped_cap (if n = 0 then fi else 0) dev bs base"
  using assms
proof (induction n arbitrary: s fi)
  case 0
  then show ?case by (simp add: cleared_0)
next
  case (Suc k)
  let ?b = "base + shl (of_nat k) 8"
  let ?s1 = "clear_memory ?b 8 s"
  let ?fi = "ucast (shr (shl (of_nat k) 8) 4 :: word64)"
  let ?c = "cap_untyped_cap ?fi dev bs base"
  let ?s2 = "?s1\<lparr>ks_ctes := set_capability slot ?c (ks_ctes ?s1)\<rparr>"
  note reg = chunk_region [OF Suc.prems(2), of base]
  have "ks_ctes ?s1 slot = ks_ctes s slot" using reg [of slot] Suc.prems(3) by (simp add: clear_memory_def)
  then have c: "set_capFreeIndex (shr (shl (of_nat k) 8) 4) (capability (ks_ctes ?s1 slot)) = ?c"
    using Suc.prems(1) by (simp add: set_capFreeIndex_def)
  obtain w where w: "preemption_point ?s2 = (EXCEPTION_NONE, ?s2\<lparr>ksWorkUnitsCompleted := w\<rparr>)"
    by (rule preemption_point_frame)
  let ?s3 = "?s2\<lparr>ksWorkUnitsCompleted := w\<rparr>"
  have run: "reset_loop (Suc k) slot base s = reset_loop k slot base ?s3"
    using c w by (simp add: CONFIG_RESET_CHUNK_BITS_def GET_OFFSET_FREE_PTR_def OFFSET_TO_FREE_IDNEX_def
        SEL4_MIN_UNTYPED_BITS_def Let_def)
  have "capability (ks_ctes ?s3 slot) = ?c" by simp
  from Suc.IH [OF this] obtain s' where s': "reset_loop k slot base ?s3 = (EXCEPTION_NONE, s')"
    "cleared base (256 * k) slot ?s3 s'" "capability (ks_ctes s' slot) = cap_untyped_cap (if k = 0 then ?fi else 0) dev bs base"
    using Suc.prems(2,3) by auto
  have "cleared base (256 * Suc k) slot s s'"
    by (rule cleared_chunk [OF s'(2) reg]) (simp_all add: set_capability_def)
  moreover have "?fi = 0" if "k = 0" using that by (simp add: shl_def shr_def)
  ultimately show ?case using run s'(1,3) by auto
qed

text \<open>
  An untyped capability as the kernel keeps it: its region is aligned to its size and the free index lies in it.
\<close>

fun untyped_wf :: "cap \<Rightarrow> bool" where
  "untyped_wf (cap_untyped_cap fi dev bs base) \<longleftrightarrow>
     4 \<le> unat bs \<and> unat bs \<le> 47 \<and> 2 ^ unat bs dvd unat base \<and> 16 * unat fi \<le> 2 ^ unat bs"
| "untyped_wf _ \<longleftrightarrow> False"

lemma unat_free_offset:
  assumes "unat w < 2 ^ 60"
  shows "unat (FREE_INDEX_TO_OFFSET w) = 16 * unat w"
proof -
  have "FREE_INDEX_TO_OFFSET w = of_nat (16 * unat w)"
    by (simp add: FREE_INDEX_TO_OFFSET_def shl_def SEL4_MIN_UNTYPED_BITS_def push_bit_eq_mult)
  then show ?thesis using assms by (simp only: unsigned_of_nat) (simp add: take_bit_nat_def)
qed

lemma unat_ucast_up:
  fixes w :: "'a::len word"
  assumes "LENGTH('a) \<le> 64"
  shows "unat (ucast w :: word64) = unat w"
proof -
  have "(2 :: nat) ^ LENGTH('a) \<le> 2 ^ 64" using assms by (intro power_increasing) auto
  then have "unat w < 2 ^ 64" using unsigned_less [of w] by (rule less_le_trans [rotated])
  then show ?thesis by (simp add: unsigned_ucast_eq take_bit_nat_eq_self)
qed

lemma untyped_wf_bounds:
  assumes "untyped_wf (cap_untyped_cap fi dev bs base)"
  shows "unat (ucast bs :: word64) = unat bs" "unat (FREE_INDEX_TO_OFFSET (ucast fi)) = 16 * unat fi"
    "unat base + 2 ^ unat bs \<le> 2 ^ 64" "(2 :: nat) ^ unat bs \<le> 2 ^ 47"
proof -
  show "(2 :: nat) ^ unat bs \<le> 2 ^ 47" using assms by (intro power_increasing) auto
  then have fi: "unat fi < 2 ^ 60" using assms by simp
  show "unat (ucast bs :: word64) = unat bs" by (simp add: unat_ucast_up)
  show "unat (FREE_INDEX_TO_OFFSET (ucast fi)) = 16 * unat fi"
    using unat_free_offset [of "ucast fi"] fi by (simp add: unat_ucast_up)
  from assms obtain k where k: "unat base = 2 ^ unat bs * k" by (auto elim: dvdE)
  have "(2 :: nat) ^ 64 = 2 ^ unat bs * 2 ^ (64 - unat bs)" using assms by (simp flip: power_add)
  moreover have "unat base < 2 ^ 64" using unsigned_less [of base] by simp
  ultimately have "2 ^ unat bs * k < 2 ^ unat bs * 2 ^ (64 - unat bs)" using k by linarith
  then have "k < 2 ^ (64 - unat bs)" by (simp only: mult_less_cancel1)
  then have "2 ^ unat bs * (k + 1) \<le> (2 :: nat) ^ unat bs * 2 ^ (64 - unat bs)" by (intro mult_le_mono2) simp
  then show "unat base + 2 ^ unat bs \<le> 2 ^ 64" using \<open>2 ^ 64 = _\<close> k by (simp add: algebra_simps)
qed

lemma reset_untyped_cap_run:
  assumes "capability (ks_ctes s slot) = cap_untyped_cap fi dev bs base"
    "untyped_wf (cap_untyped_cap fi dev bs base)" "2 ^ unat bs \<le> unat (slot - base)"
  shows "\<exists>s' n. reset_untyped_cap slot s = (EXCEPTION_NONE, s') \<and> cleared base n slot s s' \<and>
    capability (ks_ctes s' slot) = cap_untyped_cap 0 dev bs base \<and>
    n \<le> 2 ^ unat bs \<and> (\<not> dev \<longrightarrow> 16 * unat fi \<le> n)"
proof -
  note W = untyped_wf_bounds [OF assms(2)]
  let ?off = "FREE_INDEX_TO_OFFSET (ucast fi)"
  have off: "?off = 0 \<longleftrightarrow> fi = 0" using W(2) by (simp add: word_unat_eq_iff)
  consider (none) "fi = 0" | (dev) "fi \<noteq> 0" "dev" | (small) "fi \<noteq> 0" "\<not> dev" "unat bs < 8"
    | (chunks) "fi \<noteq> 0" "\<not> dev" "8 \<le> unat bs" by linarith
  then show ?thesis
  proof cases
    case none
    then show ?thesis using assms(1) W(2)
      by (intro exI [of _ s] exI [of _ 0]) (simp add: reset_untyped_cap_def cleared_0 unat_eq_zero)
  next
    case dev
    then show ?thesis using assms(1) off
      by (intro exI [of _ "s\<lparr>ks_ctes := set_capability slot (cap_untyped_cap 0 dev bs base) (ks_ctes s)\<rparr>"] exI [of _ 0])
        (simp add: reset_untyped_cap_def cleared_0 set_capFreeIndex_def)
  next
    case small
    let ?s = "clear_memory base (ucast bs) s"
    let ?s' = "?s\<lparr>ks_ctes := set_capability slot (cap_untyped_cap 0 dev bs base) (ks_ctes ?s)\<rparr>"
    have reg: "in_region base (ucast bs) p \<longleftrightarrow> 0 \<le> unat (p - base) \<and> unat (p - base) < 2 ^ unat bs" for p
      using small(3) W(1) by (simp add: in_region_def word_less_nat_alt unat_bit_mac)
    have cl: "cleared base (2 ^ unat bs) slot s ?s'"
      by (rule cleared_chunk [OF cleared_0(2) reg]) (simp_all add: set_capability_def)
    have "ks_ctes ?s slot = ks_ctes s slot" using reg [of slot] assms(3) by (simp add: clear_memory_def)
    then have "reset_untyped_cap slot s = (EXCEPTION_NONE, ?s')" using small off assms(1) W(1)
      by (simp add: reset_untyped_cap_def set_capFreeIndex_def CONFIG_RESET_CHUNK_BITS_def word_less_nat_alt Let_def)
    with cl assms(2) show ?thesis by (intro exI [of _ ?s'] exI [of _ "2 ^ unat bs"]) simp
  next
    case chunks
    let ?k = "unat (shr (?off - 1) 8)"
    have k: "?k = (16 * unat fi - 1) div 256"
      using W(2) off chunks(1) unat_minus_one [of ?off] by (simp add: unat_shr)
    have "(256 :: nat) dvd 2 ^ unat bs" using chunks(3) le_imp_power_dvd [of 8 "unat bs" "2 :: nat"] by simp
    then obtain m where m: "(2 :: nat) ^ unat bs = 256 * m" by (auto elim: dvdE)
    have "0 < unat fi" using chunks(1) by (simp add: unat_gt_0)
    moreover have "16 * unat fi \<le> 256 * m" using assms(2) m by simp
    ultimately have "16 * unat fi - 1 < m * 256" by linarith
    then have "?k < m" unfolding k by (rule less_mult_imp_div_less)
    then have le: "256 * Suc ?k \<le> 2 ^ unat bs" "16 * unat fi \<le> 256 * Suc ?k" using k m by simp_all
    have "reset_untyped_cap slot s = reset_loop (Suc ?k) slot base s" using chunks off assms(1) W(1)
      by (simp add: reset_untyped_cap_def CONFIG_RESET_CHUNK_BITS_def word_less_nat_alt Let_def)
    moreover obtain s' where "reset_loop (Suc ?k) slot base s = (EXCEPTION_NONE, s')"
      "cleared base (256 * Suc ?k) slot s s'" "capability (ks_ctes s' slot) = cap_untyped_cap 0 dev bs base"
      using reset_loop_run [OF assms(1), of "Suc ?k"] le(1) W(4) assms(3) by auto
    ultimately show ?thesis using le by (intro exI [of _ s'] exI [of _ "256 * Suc ?k"]) simp
  qed
qed

section \<open>Creating objects\<close>

lemma create_object_frame:
  "create_object t p us dev s = Some (c, s') \<Longrightarrow> ks_ctes s' = ks_ctes s"
  by (auto simp: create_object_def init_tcb_def Let_def split: ObjectType.splits bind_splits)

lemma insert_new_cap_caps:
  assumes "insert_new_cap parent slot c h = Some h'"
  shows "capability (h' p) = (if p = slot then c else capability (h p))"
  using assms by (auto simp: insert_new_cap_def Let_def split: if_splits)

abbreviation dest_slot_of :: "ptr \<Rightarrow> word64 \<Rightarrow> nat \<Rightarrow> ptr" where
  "dest_slot_of cnode offset i \<equiv> cnode + 32 * (offset + of_nat i)"

lemma dest_slot_of_inj:
  assumes "i < 256" "j < 256"
  shows "dest_slot_of cnode offset i = dest_slot_of cnode offset j \<longleftrightarrow> i = j"
proof
  assume "dest_slot_of cnode offset i = dest_slot_of cnode offset j"
  then have "(of_nat (32 * i) :: word64) = of_nat (32 * j)" by (simp add: algebra_simps)
  then have "unat (of_nat (32 * i) :: word64) = unat (of_nat (32 * j) :: word64)" by simp
  then show "i = j" using assms by (simp only: unsigned_of_nat) (simp add: take_bit_nat_def)
qed simp

lemma create_objects_loop_caps:
  assumes "create_objects_loop is t parent cnode offset base sz us dev s = Some s'"
    "distinct is" "\<forall>i \<in> set is. i < 256"
  shows "(\<forall>i \<in> set is. \<exists>x y. create_object t (base + shl (of_nat i) sz) us dev x =
      Some (capability (ks_ctes s' (dest_slot_of cnode offset i)), y)) \<and>
    (\<forall>p. p \<notin> dest_slot_of cnode offset ` set is \<longrightarrow> capability (ks_ctes s' p) = capability (ks_ctes s p))"
  using assms
proof (induction "is" arbitrary: s)
  case (Cons i "is")
  from Cons.prems(1) obtain c s1 h where s1: "create_object t (base + shl (of_nat i) sz) us dev s = Some (c, s1)"
    "insert_new_cap parent (dest_slot_of cnode offset i) c (ks_ctes s1) = Some h"
    "create_objects_loop is t parent cnode offset base sz us dev (s1\<lparr>ks_ctes := h\<rparr>) = Some s'"
    by (auto simp: get_offset_slot_def on_ctes_def split: bind_splits)
  note IH = Cons.IH [OF s1(3)]
  have caps: "capability (h p) = (if p = dest_slot_of cnode offset i then c else capability (ks_ctes s p))" for p
    using insert_new_cap_caps [OF s1(2)] create_object_frame [OF s1(1)] by simp
  have "dest_slot_of cnode offset i \<notin> dest_slot_of cnode offset ` set is"
    using Cons.prems(2,3) dest_slot_of_inj [of i _ cnode offset] by auto
  then have "capability (ks_ctes s' (dest_slot_of cnode offset i)) = c" using IH caps Cons.prems(2,3) by simp
  then show ?case using IH caps s1(1) Cons.prems(2,3) by auto
qed simp

lemma set_current_restart:
  "set_current_state ThreadStateRestart s = Some s' \<Longrightarrow> ks_ctes s' = ks_ctes s"
  by (auto simp: set_current_state_def set_thread_state_restart set_tsType_def split: bind_splits)

lemma retype_checked_elim:
  assumes "retype_checked slot (cap_untyped_cap fi dev bs base) t us sz node_cap offset window s = Some (EXCEPTION_NONE, s')"
  obtains status s1 where "ensure_no_children (ks_ctes s) slot = Some status" "ks_ctes s1 = ks_ctes s"
    "window \<le> shr (bit_mac (ucast bs) - FREE_INDEX_TO_OFFSET (if status = EXCEPTION_NONE then 0 else ucast fi)) sz"
    "invoke_untyped_retype slot (status = EXCEPTION_NONE)
       (alignUp (GET_FREE_REF base (if status = EXCEPTION_NONE then 0 else ucast fi)) sz) t us (capCNodePtr node_cap) offset window dev s1
     = Some (EXCEPTION_NONE, s')"
proof -
  obtain status where status: "ensure_no_children (ks_ctes s) slot = Some status"
    using assms by (auto simp: retype_checked_def split: bind_splits)
  have "window \<le> shr (bit_mac (ucast bs) - FREE_INDEX_TO_OFFSET (if status = EXCEPTION_NONE then 0 else ucast fi)) sz"
    using assms status by (auto simp: retype_checked_def Let_def split: if_splits)
  moreover obtain s1 where s1: "set_current_state ThreadStateRestart
      (if status = EXCEPTION_NONE then s else set_error (\<lambda>x. x\<lparr>se_type := SEL4_REVOKE_FIRST\<rparr>) s) = Some s1"
    "invoke_untyped_retype slot (status = EXCEPTION_NONE)
       (alignUp (GET_FREE_REF base (if status = EXCEPTION_NONE then 0 else ucast fi)) sz) t us (capCNodePtr node_cap) offset window dev s1
     = Some (EXCEPTION_NONE, s')"
    using assms status by (auto simp: retype_checked_def Let_def throw_argument_def split: if_splits bind_splits)
  moreover have "ks_ctes s1 = ks_ctes s" using set_current_restart [OF s1(1)] by (simp add: set_error_def)
  ultimately show ?thesis using that [OF status] by blast
qed

section \<open>Retyping\<close>

lemma shl_of_nat: "unat e < 64 \<Longrightarrow> shl (of_nat i) e = of_nat (i * 2 ^ unat e)"
  by (simp add: shl_def push_bit_eq_mult)

lemma retype_base:
  assumes "untyped_wf (cap_untyped_cap fi dev bs base)" "16 * unat f \<le> 2 ^ unat bs" "unat sz < 64" "0 < window"
    "window \<le> shr (bit_mac (ucast bs) - FREE_INDEX_TO_OFFSET f) sz"
  defines "first \<equiv> unat (alignUp (GET_FREE_REF base f) sz)"
  shows "2 ^ unat sz dvd first" "unat base + 16 * unat f \<le> first"
    "first + unat window * 2 ^ unat sz \<le> unat base + 2 ^ unat bs"
proof -
  note W = untyped_wf_bounds [OF assms(1)]
  let ?k = "2 ^ unat sz :: nat"
  have f: "unat (FREE_INDEX_TO_OFFSET f) = 16 * unat f" using assms(2) W(4) by (intro unat_free_offset) simp
  have "unat (bit_mac (ucast bs)) = 2 ^ unat bs" using assms(1) W(1) by (simp add: unat_bit_mac)
  then have "unat (bit_mac (ucast bs) - FREE_INDEX_TO_OFFSET f) = 2 ^ unat bs - 16 * unat f"
    using assms(2) f by (simp add: unat_sub_if_size)
  then have "unat window \<le> (2 ^ unat bs - 16 * unat f) div ?k"
    using assms(3,5) by (simp add: word_le_nat_alt unat_shr)
  then have "unat window * ?k \<le> (2 ^ unat bs - 16 * unat f) div ?k * ?k" by (rule mult_le_mono1)
  also have "\<dots> \<le> 2 ^ unat bs - 16 * unat f" by simp
  finally have n: "16 * unat f + unat window * ?k \<le> 2 ^ unat bs" using assms(2) by linarith
  have w: "1 \<le> unat window" using assms(4) by (simp add: unat_gt_0 Suc_le_eq)
  have "1 * ?k \<le> unat window * ?k" using w by (rule mult_le_mono1)
  with n have k: "16 * unat f + ?k \<le> 2 ^ unat bs" by linarith
  then have "?k \<le> 2 ^ unat bs" by linarith
  then have "unat sz \<le> unat bs" by (rule power_le_imp_le_exp [rotated]) simp
  then have "?k dvd 2 ^ unat bs" by (rule le_imp_power_dvd)
  moreover have "2 ^ unat bs dvd unat base" using assms(1) by simp
  ultimately have dvd: "?k dvd unat base + 2 ^ unat bs" using dvd_trans by (intro dvd_add) blast+
  have "0 < ?k" by simp
  with k W(3) have "unat base + 16 * unat f < 2 ^ 64" by linarith
  then have A: "unat (GET_FREE_REF base f) = unat base + 16 * unat f"
    unfolding GET_FREE_REF_def by (subst unat_add_lem [THEN iffD1]) (simp_all add: f)
  have F: "first = (unat base + 16 * unat f + ?k - 1) div ?k * ?k"
    unfolding first_def using unat_alignUp [OF assms(3), of "GET_FREE_REF base f"] A k W(3) by simp
  show "?k dvd first" unfolding F by simp
  show "unat base + 16 * unat f \<le> first" "first + unat window * ?k \<le> unat base + 2 ^ unat bs"
    unfolding F using round_up_div [OF _ dvd, of "unat base + 16 * unat f" "unat window"] n by auto
qed

lemma free_index_after:
  assumes "untyped_wf (cap_untyped_cap fi dev bs base)" "4 \<le> unat sz" "unat sz < 64"
    "2 ^ unat sz dvd unat r" "unat base \<le> unat r" "unat r + unat w * 2 ^ unat sz \<le> unat base + 2 ^ unat bs"
  shows "unat base + 16 * unat (ucast (GET_FREE_INDEX base (r + shl w sz)) :: 48 word) = unat r + unat w * 2 ^ unat sz"
proof -
  note W = untyped_wf_bounds [OF assms(1)]
  let ?d = "unat r + unat w * 2 ^ unat sz - unat base"
  have "shl w sz = of_nat (unat w * 2 ^ unat sz)" using shl_of_nat [OF assms(3), of "unat w"] by simp
  moreover have "(of_nat ?d :: word64) = of_nat (unat r + unat w * 2 ^ unat sz) - of_nat (unat base)"
    using assms(5) by (intro of_nat_diff) linarith
  ultimately have "r + shl w sz - base = of_nat ?d" by simp
  moreover have d: "?d \<le> 2 ^ 47" using assms(6) W(4) by linarith
  ultimately have u: "unat (r + shl w sz - base) = ?d"
    by (simp only: unsigned_of_nat) (simp add: take_bit_nat_def)
  then have "unat (GET_FREE_INDEX base (r + shl w sz)) = ?d div 16"
    by (simp add: GET_FREE_INDEX_def unat_shr SEL4_MIN_UNTYPED_BITS_def)
  moreover have "?d div 16 < 2 ^ 48" using d by simp
  ultimately have i: "unat (ucast (GET_FREE_INDEX base (r + shl w sz)) :: 48 word) = ?d div 16"
    by (simp add: unsigned_ucast_eq take_bit_nat_eq_self)
  have "(16 :: nat) dvd 2 ^ unat sz" "(16 :: nat) dvd 2 ^ unat bs"
    using assms(1,2) le_imp_power_dvd [of 4 _ "2 :: nat"] by auto
  then have "16 dvd unat r" "16 dvd unat w * 2 ^ unat sz" "16 dvd unat base"
    using assms(1,4) dvd_trans by auto
  then have "16 dvd ?d" by (simp add: dvd_diff_nat)
  with i assms(5) show ?thesis by simp
qed

lemma invoke_untyped_retype_caps:
  assumes "capability (ks_ctes s slot) = cap_untyped_cap fi dev bs base" "untyped_wf (cap_untyped_cap fi dev bs base)"
    "2 ^ unat bs \<le> unat (slot - base)" "get_object_size t us = Some sz" "unat window \<le> 256"
    "\<forall>i < unat window. dest_slot_of cnode offset i \<noteq> slot"
    "invoke_untyped_retype slot reset r t us cnode offset window dev s = Some (EXCEPTION_NONE, s')"
  shows "(\<forall>i < unat window. \<exists>x y. create_object t (r + shl (of_nat i) sz) us dev x =
      Some (capability (ks_ctes s' (dest_slot_of cnode offset i)), y)) \<and>
    capability (ks_ctes s' slot) = cap_untyped_cap (ucast (GET_FREE_INDEX base (r + shl window sz))) dev bs base"
proof -
  obtain s1 g where s1: "(if reset then reset_untyped_cap slot s else (EXCEPTION_NONE, s)) = (EXCEPTION_NONE, s1)"
    "capability (ks_ctes s1 slot) = cap_untyped_cap g dev bs base"
    using reset_untyped_cap_run [OF assms(1-3)] assms(1) by (cases reset) auto
  let ?c = "cap_untyped_cap (ucast (GET_FREE_INDEX base (r + shl window sz))) dev bs base"
  let ?s2 = "s1\<lparr>ks_ctes := set_capability slot ?c (ks_ctes s1)\<rparr>"
  have "create_objects_loop [0 ..< unat window] t slot cnode offset r sz us dev ?s2 = Some s'"
    using assms(1,4,7) s1 by (auto simp: invoke_untyped_retype_def create_new_objects_def set_capFreeIndex_def Let_def
        split: bind_splits)
  from create_objects_loop_caps [OF this]
  have *: "\<forall>i \<in> set [0 ..< unat window]. \<exists>x y. create_object t (r + shl (of_nat i) sz) us dev x =
      Some (capability (ks_ctes s' (dest_slot_of cnode offset i)), y)"
    "\<forall>p. p \<notin> dest_slot_of cnode offset ` set [0 ..< unat window] \<longrightarrow> capability (ks_ctes s' p) = capability (ks_ctes ?s2 p)"
    using assms(5) by auto
  moreover have "slot \<notin> dest_slot_of cnode offset ` set [0 ..< unat window]" using assms(6) by auto
  ultimately show ?thesis by simp
qed

text \<open>
  C28: A successful retype creates its objects inside the memory of the untyped capability: they are aligned to
  their size, start at or above the free index (or at the base of the region when the capability has no
  children left), follow one another without overlap, end within the region, and the new free index is the end
  of the last one.  Each destination slot holds the capability created for its object.
\<close>

theorem retype_in_bounds:
  assumes "untyped_wf (cap_untyped_cap fi dev bs base)" "capability (ks_ctes s slot) = cap_untyped_cap fi dev bs base"
    "2 ^ unat bs \<le> unat (slot - base)" "get_object_size t us = Some sz" "4 \<le> unat sz" "unat sz \<le> 47"
    "0 < window" "window \<le> 256" "\<forall>i < unat window. dest_slot_of (capCNodePtr node_cap) offset i \<noteq> slot"
    "retype_checked slot (cap_untyped_cap fi dev bs base) t us sz node_cap offset window s = Some (EXCEPTION_NONE, s')"
  shows "\<exists>first. 2 ^ unat sz dvd first \<and>
    unat base + (if ensure_no_children (ks_ctes s) slot = Some EXCEPTION_NONE then 0 else 16 * unat fi) \<le> first \<and>
    first + unat window * 2 ^ unat sz = unat base + 16 * unat (capFreeIndex (capability (ks_ctes s' slot))) \<and>
    first + unat window * 2 ^ unat sz \<le> unat base + 2 ^ unat bs \<and>
    (\<forall>i < unat window. \<exists>x y. create_object t (of_nat (first + i * 2 ^ unat sz)) us dev x =
       Some (capability (ks_ctes s' (dest_slot_of (capCNodePtr node_cap) offset i)), y))"
proof -
  obtain status s1 where S: "ensure_no_children (ks_ctes s) slot = Some status" "ks_ctes s1 = ks_ctes s"
    "window \<le> shr (bit_mac (ucast bs) - FREE_INDEX_TO_OFFSET (if status = EXCEPTION_NONE then 0 else ucast fi)) sz"
    "invoke_untyped_retype slot (status = EXCEPTION_NONE)
       (alignUp (GET_FREE_REF base (if status = EXCEPTION_NONE then 0 else ucast fi)) sz) t us (capCNodePtr node_cap) offset window dev s1
     = Some (EXCEPTION_NONE, s')"
    using assms(10) by (rule retype_checked_elim)
  let ?f = "if status = EXCEPTION_NONE then 0 else ucast fi :: word64"
  let ?r = "alignUp (GET_FREE_REF base ?f) sz"
  have uf: "16 * unat ?f = (if status = EXCEPTION_NONE then 0 else 16 * unat fi)" by (simp add: unat_ucast_up)
  then have "16 * unat ?f \<le> 2 ^ unat bs" using assms(1) by simp
  note B = retype_base [OF assms(1) this _ assms(7) S(3)]
  have sz: "unat sz < 64" using assms(6) by simp
  have "unat base \<le> unat ?r" using B(2) [OF sz] by linarith
  note I = free_index_after [OF assms(1,5) sz B(1) [OF sz] this B(3) [OF sz]]
  have "unat window \<le> 256" using assms(8) by (simp add: word_le_nat_alt)
  note C = invoke_untyped_retype_caps [OF assms(2) [folded S(2)] assms(1,3,4) this assms(9) S(4)]
  have addr: "?r + shl (of_nat i) sz = of_nat (unat ?r + i * 2 ^ unat sz)" for i by (simp add: shl_of_nat [OF sz])
  show ?thesis
    using B [OF sz] I C uf S(1) unfolding addr by (intro exI [of _ "unat ?r"]) auto
qed

text \<open>
  C29: Resetting an untyped capability terminates without being preempted, sets the free index to 0, clears all
  memory below the old free index (unless it is device memory) and touches nothing outside the region.
\<close>

theorem reset_untyped_cap_clears:
  assumes "capability (ks_ctes s slot) = cap_untyped_cap fi dev bs base"
    "untyped_wf (cap_untyped_cap fi dev bs base)" "2 ^ unat bs \<le> unat (slot - base)"
  shows "\<exists>s' n. reset_untyped_cap slot s = (EXCEPTION_NONE, s') \<and> cleared base n slot s s' \<and>
    capability (ks_ctes s' slot) = cap_untyped_cap 0 dev bs base \<and>
    n \<le> 2 ^ unat bs \<and> (\<not> dev \<longrightarrow> 16 * unat fi \<le> n)"
  using assms by (rule reset_untyped_cap_run)

text \<open>An untyped capability for \<open>2\<^sup>12\<close> bytes at \<open>0x100000\<close> in the slot \<open>0x5000\<close>, 64 bytes of which
  are used, and the endpoint that was created last.\<close>

definition sample_untyped :: kstate where
  "sample_untyped = sample_sched\<lparr>ks_ctes := (\<lambda>_. empty_cte)(
     0x5000 := \<lparr>capability = cap_untyped_cap 4 False 12 0x100000, cteMDBNode = mdb_node_new 0x5020 True True 0\<rparr>,
     0x5020 := \<lparr>capability = cap_endpoint_cap 0 True True True True 0x100030, cteMDBNode = mdb_node_new 0 True True 0x5000\<rparr>)\<rparr>"

theorem retype_in_bounds_witness:
  "\<exists>s' first. retype_checked 0x5000 (cap_untyped_cap 4 False 12 0x100000) EndpointObject 0 4
      (cap_cnode_cap 0 0 4 0x6000) 1 2 sample_untyped = Some (EXCEPTION_NONE, s') \<and>
    0x100040 \<le> first \<and> first + 32 \<le> (0x101000 :: nat) \<and>
    (\<exists>x y. create_object EndpointObject (of_nat first) 0 False x = Some (capability (ks_ctes s' 0x6020), y))"
proof -
  have "map_option fst (retype_checked 0x5000 (cap_untyped_cap 4 False 12 0x100000) EndpointObject 0 4
      (cap_cnode_cap 0 0 4 0x6000) 1 2 sample_untyped) = Some EXCEPTION_NONE" by code_simp
  then obtain s' where run: "retype_checked 0x5000 (cap_untyped_cap 4 False 12 0x100000) EndpointObject 0 4
      (cap_cnode_cap 0 0 4 0x6000) 1 2 sample_untyped = Some (EXCEPTION_NONE, s')" by auto
  have "get_object_size EndpointObject 0 = Some 4" by code_simp
  moreover have "\<forall>i < unat (2 :: word64). dest_slot_of (capCNodePtr (cap_cnode_cap 0 0 4 0x6000)) 1 i \<noteq> 0x5000"
    by (auto simp: less_2_cases_iff)
  moreover have "ensure_no_children (ks_ctes sample_untyped) 0x5000 = Some EXCEPTION_SYSCALL_ERROR" by code_simp
  ultimately have "\<exists>first. 16 dvd first \<and> 0x100040 \<le> first \<and>
    first + 32 = 0x100000 + 16 * unat (capFreeIndex (capability (ks_ctes s' 0x5000))) \<and> first + 32 \<le> (0x101000 :: nat) \<and>
    (\<forall>i < 2. \<exists>x y. create_object EndpointObject (of_nat (first + i * 16)) 0 False x =
       Some (capability (ks_ctes s' (dest_slot_of 0x6000 1 i)), y))"
    using retype_in_bounds [OF _ _ _ _ _ _ _ _ _ run] by (simp add: sample_untyped_def size_consts)
  then obtain first where F: "0x100040 \<le> first" "first + 32 \<le> (0x101000 :: nat)"
    "\<forall>i < 2. \<exists>x y. create_object EndpointObject (of_nat (first + i * 16)) 0 False x =
       Some (capability (ks_ctes s' (dest_slot_of 0x6000 1 i)), y)"
    by (elim exE conjE)
  from F(3) [rule_format, of 0] have "\<exists>x y. create_object EndpointObject (of_nat first) 0 False x = Some (capability (ks_ctes s' 0x6020), y)"
    by simp
  with run F(1,2) show ?thesis by blast
qed

theorem reset_untyped_cap_clears_witness:
  "\<exists>s' n. reset_untyped_cap 0x5000 sample_untyped = (EXCEPTION_NONE, s') \<and> cleared 0x100000 n 0x5000 sample_untyped s' \<and>
    capability (ks_ctes s' 0x5000) = cap_untyped_cap 0 False 12 0x100000 \<and> n \<le> 4096 \<and> 64 \<le> n"
  using reset_untyped_cap_clears [of sample_untyped "0x5000" 4 False 12 "0x100000"]
  by (simp add: sample_untyped_def)

text \<open>
  C30: \<open>create_object\<close> returns for every object type, and the capability it makes is well formed, is of the kind
  the type asks for, points to the object (for a thread: to the control block inside it), and records the size
  that the retype was accounted with.
\<close>

theorem create_object_type:
  assumes "p + TCB_OFFSET \<noteq> 0" "unat us < 64"
  shows "\<exists>c s'. create_object t p us dev s = Some (c, s') \<and> cap_wf c \<and>
    get_cap_ptr c = (if t = TCBObject then p + TCB_OFFSET else p) \<and>
    (is_cap_untyped_cap c \<longleftrightarrow> t = UnytpedObject) \<and> (is_cap_thread_cap c \<longleftrightarrow> t = TCBObject) \<and>
    (is_cap_endpoint_cap c \<longleftrightarrow> t = EndpointObject) \<and> (is_cap_notification_cap c \<longleftrightarrow> t = NotificationObject) \<and>
    (is_cap_cnode_cap c \<longleftrightarrow> t = CapTableObject) \<and> (is_cap_vspace_cap c \<longleftrightarrow> t = seL4_ARM_VSpaceObject) \<and>
    (is_cap_page_table_cap c \<longleftrightarrow> t = seL4_ARM_PageTableObject) \<and>
    (is_cap_frame_cap c \<longleftrightarrow> is_arch_type t) \<and>
    get_object_size t us =
      (if t = TCBObject then Some SEL4_TCB_BITS
       else if is_cap_frame_cap c then pageBitsForSize (ucast (capFSize c))
       else if is_cap_vspace_cap c then Some 12
       else Some (get_cap_size_bits c))"
proof -
  have "ucast (ucast us :: 6 word) = us"
    using assms(2) by (simp add: word_unat_eq_iff unsigned_ucast_eq unsigned_take_bit_eq take_bit_nat_eq_self)
  moreover have "unat (ucast us :: 6 word) \<le> 64"
    using assms(2) by (simp add: unsigned_ucast_eq take_bit_nat_eq_self)
  moreover have two: "(0 :: 2 word) \<noteq> 3" by code_simp
  ultimately show ?thesis
    using assms(1) by (cases t) (simp_all add: create_object_def arch_create_object_def is_arch_type_def Let_def
        pageBitsForSize_def size_consts add.commute two [symmetric])
qed

theorem create_object_type_witness:
  "\<exists>c s'. create_object CapTableObject 0x6000 4 False sample_untyped = Some (c, s') \<and> cap_wf c \<and>
    is_cap_cnode_cap c \<and> get_cap_ptr c = 0x6000 \<and> get_cap_size_bits c = 9"
  using create_object_type [of "0x6000" 4 CapTableObject False sample_untyped]
  by (auto simp: TCB_OFFSET_def size_consts)

end
