(* ===== verification/Fastpath.thy ===== *)
theory Fastpath
  imports Syscall SchedulerProps
begin

text \<open>
  The fast path of \<^verbatim>\<open>kernel/src/kernel/fastpath.rs\<close>: a call or a reply-and-wait that meets a list of
  conditions is handled without the general code; at the first condition that fails the handler calls
  \<open>slowpath\<close>, which does not return to it.  The words that the handlers write into bit fields directly are
  written field by field here: word 0 of a thread state holds the object it is blocked on and its type, word 0 of
  an endpoint the tail of its queue and its state, word 1 of a mapping database node the successor and two flags.
\<close>

section \<open>Lookup\<close>

text \<open>The loop need not end when a CNode translates no bits: no result stands for that.\<close>

partial_function (option) lookup_fp_loop :: "cte_heap \<Rightarrow> word64 \<Rightarrow> cap \<Rightarrow> word64 \<Rightarrow> cap option" where
  "lookup_fp_loop h cptr c bits =
    (let guardBits = ucast (capCNodeGuardSize c);
         radixBits = ucast (capCNodeRadix c);
         cptr2 = shl cptr bits;
         capGuard = capCNodeGuard c in
     if guardBits \<noteq> 0 \<and> shr cptr2 (WORD_BITS - guardBits) \<noteq> capGuard then Some cap_null_cap
     else
       let radix = shr (shl cptr2 guardBits) (WORD_BITS - radixBits);
           slot = capCNodePtr c + 32 * radix;
           c = capability (h slot);
           bits = bits + guardBits + radixBits in
       if bits < WORD_BITS \<and> is_cap_cnode_cap c then lookup_fp_loop h cptr c bits
       else if bits > WORD_BITS then Some cap_null_cap
       else Some c)"

declare lookup_fp_loop.simps [code]

definition lookup_fp :: "cte_heap \<Rightarrow> cap \<Rightarrow> word64 \<Rightarrow> cap option" where
  "lookup_fp h c cptr = (if \<not> is_cap_cnode_cap c then Some cap_null_cap else lookup_fp_loop h cptr c 0)"

section \<open>Parts of the handlers\<close>

definition thread_state_ptr_mset_blockingObject_tsType :: "ptr \<Rightarrow> ptr \<Rightarrow> ThreadState \<Rightarrow> kstate \<Rightarrow> kstate" where
  "thread_state_ptr_mset_blockingObject_tsType t ep st =
     upd_tcb t (\<lambda>u. u\<lparr>tcbState := (tcbState u)\<lparr>blockingObject := ep, tsType := st\<rparr>\<rparr>)"

definition endpoint_ptr_mset_epQueue_tail_state :: "ptr \<Rightarrow> ptr \<Rightarrow> EPState \<Rightarrow> kstate \<Rightarrow> kstate" where
  "endpoint_ptr_mset_epQueue_tail_state e tail st = upd_ep e (\<lambda>x. x\<lparr>epQueue_tail := tail, ep_state := st\<rparr>)"

definition switch_to_thread_fp :: "ptr \<Rightarrow> ptr \<Rightarrow> word64 \<Rightarrow> kstate \<Rightarrow> kstate" where
  "switch_to_thread_fp thread vroot asid s =
     set_current_thread thread (set_current_user_vspace_root (ttbr_new asid (to_paddr vroot)) s)"

definition mdb_node_ptr_mset_mdbNext_mdbRevocable_mdbFirstBadged ::
  "ptr \<Rightarrow> ptr \<Rightarrow> bool \<Rightarrow> bool \<Rightarrow> cte_heap \<Rightarrow> cte_heap" where
  "mdb_node_ptr_mset_mdbNext_mdbRevocable_mdbFirstBadged p nxt revocable firstBadged h =
     set_mdb p ((cteMDBNode (h p))\<lparr> mdbNext := nxt, mdbRevocable := revocable, mdbFirstBadged := firstBadged \<rparr>) h"

definition isValidVTableRoot_fp :: "cap \<Rightarrow> bool" where
  "isValidVTableRoot_fp c \<longleftrightarrow> is_cap_page_table_cap c \<and> capPTIsMapped c"

definition fastpath_mi_check :: "word64 \<Rightarrow> bool" where
  "fastpath_mi_check msgInfo \<longleftrightarrow> msgInfo AND mask_bits (7 + 2) > 4"

definition fastpath_copy_mrs :: "nat \<Rightarrow> ptr \<Rightarrow> ptr \<Rightarrow> kstate \<Rightarrow> kstate" where
  "fastpath_copy_mrs len src dest s =
     upd_tcb dest (\<lambda>t. t\<lparr>tcbArch := (\<lambda>r. if 2 \<le> r \<and> r < 2 + len then tcbArch (tcb_at s src) r else tcbArch t r)\<rparr>) s"

text \<open>
  \<open>fastpath_restore\<close> returns to the thread with the badge and the message information in the first two
  registers and all others as saved.  The state shows the registers as the thread sees them.
\<close>

definition fastpath_restore :: "word64 \<Rightarrow> word64 \<Rightarrow> ptr \<Rightarrow> kstate \<Rightarrow> kstate" where
  "fastpath_restore badge msgInfo t = upd_tcb t (\<lambda>u. u\<lparr>tcbArch := (tcbArch u)(0 := badge, 1 := msgInfo)\<rparr>)"

text \<open>The end of both handlers: the message is copied, the partner runs and the kernel returns to it.\<close>

definition fastpath_switch :: "nat \<Rightarrow> word64 \<Rightarrow> word64 \<Rightarrow> ptr \<Rightarrow> ptr \<Rightarrow> kstate \<Rightarrow> kstate" where
  "fastpath_switch len badge info current dest s =
    (let s = fastpath_copy_mrs len current dest s;
         s = thread_state_ptr_mset_blockingObject_tsType dest 0 ThreadStateRunning s;
         new_vtable = capability (ks_ctes s (get_cspace dest TCB_VTABLE));
         s = switch_to_thread_fp dest (capPTBasePtr new_vtable) (ucast (capPTMappedASID new_vtable)) s
     in fastpath_restore badge (mi_set_capsUnwrapped 0 info) dest s)"

section \<open>Call\<close>

text \<open>The part of \<open>fastpath_call\<close> after the last check.\<close>

definition fastpath_call_commit :: "nat \<Rightarrow> word64 \<Rightarrow> cap \<Rightarrow> ptr \<Rightarrow> ptr \<Rightarrow> ptr \<Rightarrow> kstate \<Rightarrow> kstate option" where
  "fastpath_call_commit len info ep_cap ep current dest s = do {
     let nxt = tcbEPNext (tcb_at s dest);
     let s = upd_ep ep (\<lambda>x. x\<lparr>epQueue_head := nxt\<rparr>) s;
     let s = (if nxt \<noteq> 0 then upd_tcb nxt (\<lambda>t. t\<lparr>tcbEPNext := 0\<rparr>) s
              else upd_ep ep (\<lambda>x. x\<lparr>epQueue_tail := 0, ep_state := EPState_Idle\<rparr>) s);
     let s = thread_state_ptr_mset_blockingObject_tsType current 0 ThreadStateBlockedOnReply s;
     let reply_slot = get_cspace current TCB_REPLY;
     let caller_slot = get_cspace dest TCB_CALLER;
     let h = set_capability caller_slot
       (cap_reply_cap current (blockingIPCCanGrant (tcbState (tcb_at s dest))) False) (ks_ctes s);
     let h = set_mdbPrev caller_slot reply_slot h;
     let h = mdb_node_ptr_mset_mdbNext_mdbRevocable_mdbFirstBadged reply_slot caller_slot True True h;
     Some (fastpath_switch len (capEPBadge ep_cap) info current dest (s\<lparr>ks_ctes := h\<rparr>))
   }"

definition fastpath_call ::
  "nat \<Rightarrow> nat \<Rightarrow> word64 \<Rightarrow> word64 \<Rightarrow> word64 \<Rightarrow> word64 \<Rightarrow> word64 \<Rightarrow> kstate \<Rightarrow> outcome" where
  "fastpath_call n m int_ack clock name_len cptr msgInfo s = do {
     current \<leftarrow> get_currenct_thread s;
     let len = unat (mi_get_length msgInfo);
     let slow = slowpath n m int_ack clock name_len SYS_CALL s;
     if fastpath_mi_check msgInfo \<or> tcbFault (tcb_at s current) \<noteq> seL4_Fault_NullFault then slow
     else do {
       ep_cap \<leftarrow> lookup_fp (ks_ctes s) (capability (ks_ctes s (get_cspace current TCB_CTABLE))) cptr;
       if \<not> is_cap_endpoint_cap ep_cap \<or> \<not> capCanSend ep_cap then slow
       else do {
         ep \<leftarrow> convert_to_mut_type_ref (capEPPtr ep_cap);
         if get_ep_state ep s \<noteq> EPState_Recv then slow
         else do {
           dest \<leftarrow> convert_to_mut_type_ref (epQueue_head (ks_eps s ep));
           if \<not> isValidVTableRoot_fp (capability (ks_ctes s (get_cspace dest TCB_VTABLE))) then slow
           else do {
             highest \<leftarrow> (if tcbPriority (tcb_at s dest) < tcbPriority (tcb_at s current)
                           then is_highest_prio 0 (tcbPriority (tcb_at s dest)) s else Some True);
             if \<not> highest then slow
             else if \<not> capCanGrant ep_cap \<and> \<not> capCanGrantReply ep_cap then slow
             else map_option (\<lambda>s. (EXCEPTION_NONE, s))
               (fastpath_call_commit len msgInfo ep_cap ep current dest s)
           }
         }
       }
     }
   }"

section \<open>Reply and wait\<close>

definition fastpath_reply_recv_commit ::
  "nat \<Rightarrow> word64 \<Rightarrow> cap \<Rightarrow> ptr \<Rightarrow> ptr \<Rightarrow> ptr \<Rightarrow> kstate \<Rightarrow> kstate option" where
  "fastpath_reply_recv_commit len info ep_cap ep current caller s = do {
     let s = thread_state_ptr_mset_blockingObject_tsType current ep ThreadStateBlockedOnReceive s;
     let s = upd_tcb current (\<lambda>t. t\<lparr>tcbState := (tcbState t)\<lparr>blockingIPCCanGrant := capCanGrant ep_cap\<rparr>\<rparr>) s;
     let tail = epQueue_tail (ks_eps s ep);
     let s = (if tail \<noteq> 0 then
         upd_tcb current (\<lambda>t. t\<lparr>tcbEPPrev := tail, tcbEPNext := 0\<rparr>) (upd_tcb tail (\<lambda>t. t\<lparr>tcbEPNext := current\<rparr>) s)
       else
         upd_ep ep (\<lambda>x. x\<lparr>epQueue_head := current\<rparr>) (upd_tcb current (\<lambda>t. t\<lparr>tcbEPPrev := 0, tcbEPNext := 0\<rparr>) s));
     let s = endpoint_ptr_mset_epQueue_tail_state ep current EPState_Recv s;
     let caller_slot = get_cspace current TCB_CALLER;
     node \<leftarrow> convert_to_mut_type_ref (mdbPrev (cteMDBNode (ks_ctes s caller_slot)));
     let h = mdb_node_ptr_mset_mdbNext_mdbRevocable_mdbFirstBadged node 0 True True (ks_ctes s);
     let h = set_capability caller_slot cap_null_cap h;
     let h = set_mdb caller_slot null_mdb h;
     Some (fastpath_switch len 0 info current caller (s\<lparr>ks_ctes := h\<rparr>))
   }"

definition fastpath_reply_recv ::
  "nat \<Rightarrow> nat \<Rightarrow> word64 \<Rightarrow> word64 \<Rightarrow> word64 \<Rightarrow> word64 \<Rightarrow> word64 \<Rightarrow> kstate \<Rightarrow> outcome" where
  "fastpath_reply_recv n m int_ack clock name_len cptr msgInfo s = do {
     current \<leftarrow> get_currenct_thread s;
     let len = unat (mi_get_length msgInfo);
     let slow = slowpath n m int_ack clock name_len SYS_REPLY_RECV s;
     if fastpath_mi_check msgInfo \<or> tcbFault (tcb_at s current) \<noteq> seL4_Fault_NullFault then slow
     else do {
       ep_cap \<leftarrow> lookup_fp (ks_ctes s) (capability (ks_ctes s (get_cspace current TCB_CTABLE))) cptr;
       if \<not> is_cap_endpoint_cap ep_cap \<or> \<not> capCanSend ep_cap then slow
       else
         let ntfn = tcbBoundNotification (tcb_at s current) in
         if ntfn \<noteq> 0 \<and> get_ntfn_state ntfn s = NtfnState_Active then slow
         else do {
           ep \<leftarrow> convert_to_mut_type_ref (capEPPtr ep_cap);
           if get_ep_state ep s = EPState_Send then slow
           else
             let caller_cap = capability (ks_ctes s (get_cspace current TCB_CALLER)) in
             if \<not> is_cap_reply_cap caller_cap then slow
             else do {
               caller \<leftarrow> convert_to_mut_type_ref (capReplyTCBPtr caller_cap);
               if tcbFault (tcb_at s caller) \<noteq> seL4_Fault_NullFault then slow
               else if \<not> isValidVTableRoot_fp (capability (ks_ctes s (get_cspace caller TCB_VTABLE))) then slow
               else do {
                 highest \<leftarrow> is_highest_prio 0 (tcbPriority (tcb_at s caller)) s;
                 if \<not> highest then slow
                 else map_option (\<lambda>s. (EXCEPTION_NONE, s))
                   (fastpath_reply_recv_commit len msgInfo ep_cap ep current caller s)
               }
             }
         }
     }
   }"

section \<open>The lookup agrees with address resolution\<close>

fun found_cap :: "cte_heap \<Rightarrow> lookup_result \<Rightarrow> cap" where
  "found_cap h Lookup_Fault = cap_null_cap"
| "found_cap h (Found slot _) = capability (h slot)"

lemma shift_window:
  fixes w :: word64
  assumes "b < 64" "0 < g" "b + g \<le> 64"
  shows "drop_bit (64 - g) (push_bit b w) = take_bit g (drop_bit (64 - b - g) w)"
proof (rule bit_eqI)
  fix i :: nat
  assume "possible_bit TYPE(word64) i"
  have "64 - g + i - b = 64 - b - g + i" if "i < g" using that assms by linarith
  then show "bit (drop_bit (64 - g) (push_bit b w)) i = bit (take_bit g (drop_bit (64 - b - g) w)) i"
    using assms by (auto simp: bit_simps)
qed

lemma unat_word_bits_minus: "unat (WORD_BITS - ucast (r :: 6 word)) = 64 - unat r"
  using less_imp_le [OF unat_6_less, of r] by (simp add: WORD_BITS_def word_le_nat_alt unat_sub)

lemma guard_fp:
  assumes "unat bits = 64 - n" "0 < n" "n \<le> 64" "unat gs \<le> n" "unat gd < 2 ^ unat gs"
  shows "(ucast gs \<noteq> (0 :: word64) \<and> shr (shl w bits) (WORD_BITS - ucast (gs :: 6 word)) \<noteq> gd) \<longleftrightarrow>
    take (unat gs) (addr_bits n w) \<noteq> addr_bits (unat gs) gd"
proof (cases "unat gs = 0")
  case True
  then have "gs = 0" by (simp add: unat_eq_0)
  then show ?thesis by (simp add: addr_bits_def)
next
  case False
  have "ucast gs \<noteq> (0 :: word64)" using False by (simp add: word_unat_eq_iff)
  moreover have "shr (shl w bits) (WORD_BITS - ucast gs) = take_bit (unat gs) (drop_bit (n - unat gs) w)"
    using shift_window [of "64 - n" "unat gs" w] assms False by (simp add: shr_def shl_def unat_word_bits_minus)
  moreover have "take_bit (unat gs) gd = gd"
    using assms(5) by (simp add: word_unat_eq_iff unsigned_take_bit_eq take_bit_nat_eq_self)
  ultimately show ?thesis using assms(4) by (simp add: take_addr_bits addr_bits_eq_iff)
qed

lemma index_fp:
  assumes "unat bits = 64 - n" "0 < n" "n \<le> 64" "unat gs + unat rd \<le> n" "0 < unat rd"
  shows "shr (shl (shl w bits) (ucast (gs :: 6 word))) (WORD_BITS - ucast (rd :: 6 word)) =
    bits_value (take (unat rd) (drop (unat gs) (addr_bits n w)))"
proof -
  have "shl (shl w bits) (ucast gs) = push_bit (64 - n + unat gs) w"
    using assms(1,2) by (simp add: shl_def add.commute)
  then have "shr (shl (shl w bits) (ucast gs)) (WORD_BITS - ucast rd) =
      take_bit (unat rd) (drop_bit (n - unat gs - unat rd) w)"
    using shift_window [of "64 - n + unat gs" "unat rd" w] assms by (simp add: shr_def unat_word_bits_minus)
  then show ?thesis using assms by (simp add: drop_addr_bits take_addr_bits bits_value_addr_bits)
qed

definition cnodes_wf :: "cte_heap \<Rightarrow> bool" where
  "cnodes_wf h \<longleftrightarrow> (\<forall>p. cap_wf (capability (h p)) \<and>
     (is_cap_cnode_cap (capability (h p)) \<longrightarrow> 0 < unat (capCNodeRadix (capability (h p)))))"

lemma lookup_fp_loop_refines:
  assumes "cnodes_wf h"
    and "is_cap_cnode_cap c" "cap_wf c" "0 < unat (capCNodeRadix c)" "unat bits = 64 - n" "0 < n" "n \<le> 64"
  shows "lookup_fp_loop h w c bits = map_option (found_cap h) (spec_resolve h c (addr_bits n w))"
  using assms(2-)
proof (induction n arbitrary: c bits rule: less_induct)
  case (less n)
  obtain gd gs rd p where c: "c = cap_cnode_cap gd gs rd p" using less.prems(1) by (cases c) auto
  have gd: "unat gd < 2 ^ unat gs" and rd: "0 < unat rd" using less.prems(2,3) c by simp_all
  have sum: "unat (bits + ucast gs + ucast rd) = 64 - n + unat gs + unat rd"
  proof -
    have "unat gs \<le> 63" "unat rd \<le> 63" using unat_6_less [of gs] unat_6_less [of rd] by linarith+
    then show ?thesis using less.prems(4) by (simp add: unat_word_ariths)
  qed
  note fp = lookup_fp_loop.simps [of h w c bits]
  consider (short) "n < unat gs + unat rd" | (guard) "unat gs + unat rd \<le> n" "take (unat gs) (addr_bits n w) \<noteq> addr_bits (unat gs) gd"
    | (step) "unat gs + unat rd \<le> n" "take (unat gs) (addr_bits n w) = addr_bits (unat gs) gd" by linarith
  then show ?case
  proof cases
    case short
    then have "bits + ucast gs + ucast rd > WORD_BITS" using sum by (simp add: word_less_nat_alt WORD_BITS_def)
    then have "(bits + ucast gs + ucast rd < WORD_BITS) = False" "(WORD_BITS < bits + ucast gs + ucast rd) = True"
      using less_asym by auto
    then have "lookup_fp_loop h w c bits = Some cap_null_cap"
      using fp [unfolded c cap.sel Let_def] unfolding c by (simp only: simp_thms if_True if_False if_cancel)
    moreover have "spec_resolve h c (addr_bits n w) = Some Lookup_Fault"
      using short rd by (subst spec_resolve.simps) (simp add: c Let_def)
    ultimately show ?thesis by simp
  next
    case guard
    then have "lookup_fp_loop h w c bits = Some cap_null_cap"
      using guard_fp [OF less.prems(4-6) _ gd, of w] by (subst fp) (simp add: c Let_def)
    moreover have "spec_resolve h c (addr_bits n w) = Some Lookup_Fault"
      using guard(2) rd by (subst spec_resolve.simps) (simp add: c Let_def)
    ultimately show ?thesis by simp
  next
    case step
    define slot where "slot = p + 32 * bits_value (take (unat rd) (drop (unat gs) (addr_bits n w)))"
    define m where "m = n - (unat gs + unat rd)"
    have m: "unat (bits + ucast gs + ucast rd) = 64 - m" "m < n" "m \<le> 64" using sum step(1) less.prems(6) rd by (auto simp: m_def)
    have lt: "bits + ucast gs + ucast rd < WORD_BITS \<longleftrightarrow> 0 < m" "\<not> bits + ucast gs + ucast rd > WORD_BITS"
      using m by (auto simp: word_less_nat_alt WORD_BITS_def)
    have g: "\<not> (ucast gs \<noteq> (0 :: word64) \<and> shr (shl w bits) (WORD_BITS - ucast gs) \<noteq> gd)"
      using guard_fp [OF less.prems(4-6) _ gd] step by simp
    have code: "lookup_fp_loop h w c bits = (if 0 < m \<and> is_cap_cnode_cap (capability (h slot))
        then lookup_fp_loop h w (capability (h slot)) (bits + ucast gs + ucast rd) else Some (capability (h slot)))"
      using lt fp [unfolded c cap.sel Let_def if_not_P [OF g] index_fp [OF less.prems(4-6) step(1) rd] slot_def [symmetric]]
      by (simp add: c)
    have spec: "spec_resolve h c (addr_bits n w) = (if m = 0 \<or> \<not> is_cap_cnode_cap (capability (h slot))
        then Some (Found slot m) else spec_resolve h (capability (h slot)) (addr_bits m w))"
      using step rd by (subst spec_resolve.simps) (auto simp: c Let_def slot_def m_def drop_addr_bits)
    show ?thesis
    proof (cases "0 < m \<and> is_cap_cnode_cap (capability (h slot))")
      case True
      have "lookup_fp_loop h w (capability (h slot)) (bits + ucast gs + ucast rd) =
          map_option (found_cap h) (spec_resolve h (capability (h slot)) (addr_bits m w))"
        by (rule less.IH) (use True m assms(1) in \<open>auto simp: cnodes_wf_def\<close>)
      with True show ?thesis unfolding code spec by simp
    next
      case False
      then show ?thesis unfolding code spec by auto
    qed
  qed
qed

lemma spec_resolve_total:
  assumes "cnodes_wf h" "0 < unat (capCNodeRadix c)"
  shows "\<exists>r. spec_resolve h c bs = Some r"
  using assms
proof (induction h c bs rule: spec_resolve.induct)
  case (1 h c bs)
  show ?case
  proof (cases "length bs < unat (capCNodeGuardSize c) + unat (capCNodeRadix c) \<or>
      take (unat (capCNodeGuardSize c)) bs \<noteq> addr_bits (unat (capCNodeGuardSize c)) (capCNodeGuard c)")
    case True
    then show ?thesis using 1 by (subst spec_resolve.simps) (auto simp: Let_def)
  next
    case False
    then show ?thesis using 1 by (subst spec_resolve.simps) (auto simp: Let_def cnodes_wf_def)
  qed
qed

lemma lookup_fp_run:
  assumes "cnodes_wf h" "cap_wf c" "is_cap_cnode_cap c \<longrightarrow> 0 < unat (capCNodeRadix c)"
  shows "\<exists>r. resolve_address_bits h c cptr WORD_BITS = Some r \<and>
    lookup_fp h c cptr = Some (if ra_status r = EXCEPTION_NONE then capability (h (ra_slot r)) else cap_null_cap)"
proof (cases "is_cap_cnode_cap c")
  case True
  obtain r where r: "spec_resolve h c (addr_bits 64 cptr) = Some r"
    using spec_resolve_total [OF assms(1)] assms(3) True by blast
  have "resolve_address_bits h c cptr WORD_BITS = Some (lookup_ret WORD_BITS r)"
    using resolve_loop_refines [of h c WORD_BITS cptr WORD_BITS] assms True r
    by (simp add: resolve_address_bits_def cnodes_wf_def WORD_BITS_def)
  moreover have "lookup_fp h c cptr = Some (found_cap h r)"
    using lookup_fp_loop_refines [OF assms(1) True assms(2), of 0 64 cptr] assms(3) True r by (simp add: lookup_fp_def)
  ultimately show ?thesis by (cases r) (simp_all add: resolve_fault_def)
next
  case False
  then show ?thesis by (simp add: lookup_fp_def resolve_address_bits_def resolve_fault_def)
qed

text \<open>
  C31: The lookup of the fast path agrees with the general address resolution in every capability space of
  well-formed CNodes: it ends, returns the capability in the slot that the resolution of the whole word finds,
  and the null capability exactly where the resolution faults (or finds an empty slot).
\<close>

theorem lookup_fp_correct:
  assumes "cnodes_wf h" "cap_wf c" "is_cap_cnode_cap c \<longrightarrow> 0 < unat (capCNodeRadix c)"
  shows "\<exists>r. resolve_address_bits h c cptr WORD_BITS = Some r \<and>
    lookup_fp h c cptr = Some (if ra_status r = EXCEPTION_NONE then capability (h (ra_slot r)) else cap_null_cap)"
  using assms by (rule lookup_fp_run)

text \<open>A CNode of 16 slots at \<open>0xa000\<close> that translates the whole word and has an endpoint in slot 3.\<close>

definition sample_root :: cap where
  "sample_root = cap_cnode_cap 0 60 4 0xa000"

definition sample_fp :: cte_heap where
  "sample_fp = (\<lambda>_. empty_cte)(0x1000 := empty_cte\<lparr>capability := sample_root\<rparr>,
     0xa060 := empty_cte\<lparr>capability := cap_endpoint_cap 7 True True True True 0x7000\<rparr>)"

lemma sample_fp_wf: "cnodes_wf sample_fp"
  by (simp add: cnodes_wf_def sample_fp_def sample_root_def empty_cte_def)

theorem lookup_fp_correct_witness:
  "lookup_fp sample_fp sample_root 3 = Some (cap_endpoint_cap 7 True True True True 0x7000)"
proof -
  have "resolve_address_bits sample_fp sample_root 3 WORD_BITS =
    Some \<lparr>ra_status = EXCEPTION_NONE, ra_slot = 0xa060, ra_bitsRemaining = 0\<rparr>" by code_simp
  with lookup_fp_correct [OF sample_fp_wf, of sample_root 3] show ?thesis by (simp add: sample_root_def sample_fp_def)
qed

text \<open>
  What the kernel keeps of capabilities and endpoints, and what it allows as the root of an address space: on
  this architecture \<open>TCB_VTABLE\<close> holds a \<open>VSpace\<close> capability or none.
\<close>

definition fastpath_pre :: "kstate \<Rightarrow> bool" where
  "fastpath_pre s \<longleftrightarrow> cnodes_wf (ks_ctes s) \<and>
     (\<forall>p. is_cap_endpoint_cap (capability (ks_ctes s p)) \<longrightarrow> capEPPtr (capability (ks_ctes s p)) \<noteq> 0) \<and>
     (\<forall>p. is_cap_reply_cap (capability (ks_ctes s p)) \<longrightarrow> capReplyTCBPtr (capability (ks_ctes s p)) \<noteq> 0) \<and>
     (\<forall>e. get_ep_state e s = EPState_Recv \<longrightarrow> epQueue_head (ks_eps s e) \<noteq> 0) \<and>
     (\<forall>t. \<not> is_cap_page_table_cap (capability (ks_ctes s (get_cspace t TCB_VTABLE))))"

lemma lookup_fp_cap:
  assumes "fastpath_pre s"
  obtains c where "lookup_fp (ks_ctes s) (capability (ks_ctes s p)) cptr = Some c"
    "is_cap_endpoint_cap c \<longrightarrow> capEPPtr c \<noteq> 0"
  using assms lookup_fp_run [of "ks_ctes s" "capability (ks_ctes s p)" cptr] that
  by (fastforce simp: fastpath_pre_def cnodes_wf_def split: if_splits)



end
