(* ===== verification/Traps.thy ===== *)
theory Traps
  imports Fastpath
begin

text \<open>
  Kernel entry and exit: the vectors of \<^verbatim>\<open>kernel/src/arch/aarch64/traps.S\<close>, the handlers of
  \<^verbatim>\<open>c_traps.rs\<close> and \<^verbatim>\<open>exception.rs\<close> that they branch to, and \<open>restore_user_context\<close>.  An entry takes the
  registers of the processor and leaves them as the thread that runs next finds them.  A handler that loops or
  halts has no result.
\<close>

section \<open>Registers of the processor\<close>

record cpu_regs =
  cpu_x :: "nat \<Rightarrow> word64"
  cpu_sp_el0 :: word64
  cpu_elr :: word64
  cpu_spsr :: word64
  cpu_tpidr_el0 :: word64
  cpu_tpidrro_el0 :: word64

definition SP_EL0 :: nat where "SP_EL0 = 31"
definition ELR_EL1 :: nat where "ELR_EL1 = 32"
definition SPSR_EL1 :: nat where "SPSR_EL1 = 33"
definition FAULT_IP :: nat where "FAULT_IP = 34"
definition TPIDR_EL0 :: nat where "TPIDR_EL0 = 35"
definition TPIDRRO_EL0 :: nat where "TPIDRRO_EL0 = 36"

lemmas context_regs = SP_EL0_def ELR_EL1_def SPSR_EL1_def FAULT_IP_def TPIDR_EL0_def TPIDRRO_EL0_def

section \<open>Saving and restoring\<close>

text \<open>While a thread runs, the stack pointer of the kernel points to the register array of its control block.\<close>

definition kernel_enter :: "cpu_regs \<Rightarrow> kstate \<Rightarrow> kstate" where
  "kernel_enter cpu s = upd_tcb (ksCurThread s) (\<lambda>t. t\<lparr>tcbArch := (\<lambda>r.
     if r \<le> 30 then cpu_x cpu r
     else if r = SP_EL0 then cpu_sp_el0 cpu
     else if r = ELR_EL1 then cpu_elr cpu
     else if r = SPSR_EL1 then cpu_spsr cpu
     else tcbArch t r)\<rparr>) s"

definition set_fault_ip :: "word64 \<Rightarrow> kstate \<Rightarrow> kstate" where
  "set_fault_ip v s = upd_tcb (ksCurThread s) (\<lambda>t. t\<lparr>tcbArch := (tcbArch t)(FAULT_IP := v)\<rparr>) s"

definition save_thread_local :: "cpu_regs \<Rightarrow> ptr \<Rightarrow> kstate \<Rightarrow> kstate" where
  "save_thread_local cpu t = upd_tcb t (\<lambda>u. u\<lparr>tcbArch :=
     (tcbArch u)(TPIDR_EL0 := cpu_tpidr_el0 cpu, TPIDRRO_EL0 := cpu_tpidrro_el0 cpu)\<rparr>)"

definition entry_hook :: "cpu_regs \<Rightarrow> kstate \<Rightarrow> kstate option" where
  "entry_hook cpu s = do { cur \<leftarrow> get_currenct_thread s; Some (save_thread_local cpu cur s) }"

definition load_thread_local :: "(nat \<Rightarrow> word64) \<Rightarrow> cpu_regs \<Rightarrow> cpu_regs" where
  "load_thread_local regs cpu = cpu\<lparr>cpu_tpidr_el0 := regs TPIDR_EL0, cpu_tpidrro_el0 := regs TPIDRRO_EL0\<rparr>"

definition restore_user_context :: "cpu_regs \<Rightarrow> kstate \<Rightarrow> cpu_regs option" where
  "restore_user_context cpu s = do {
     cur \<leftarrow> get_currenct_thread s;
     let regs = tcbArch (tcb_at s cur);
     let cpu = load_thread_local regs cpu;
     Some (cpu\<lparr>cpu_sp_el0 := regs SP_EL0, cpu_elr := regs ELR_EL1, cpu_spsr := regs SPSR_EL1,
               cpu_x := (\<lambda>r. if r \<le> 30 then regs r else cpu_x cpu r)\<rparr>)
   }"

section \<open>Handlers\<close>

type_synonym kernel_exit = "(cpu_regs \<times> kstate) option"

definition leave_kernel :: "cpu_regs \<Rightarrow> kstate option \<Rightarrow> kernel_exit" where
  "leave_kernel cpu res = do { s \<leftarrow> res; cpu \<leftarrow> restore_user_context cpu s; Some (cpu, s) }"

definition c_handle_interrupt :: "word64 \<Rightarrow> cpu_regs \<Rightarrow> kstate \<Rightarrow> kernel_exit" where
  "c_handle_interrupt int_ack cpu s =
     leave_kernel cpu (do { s \<leftarrow> entry_hook cpu s; handle_interrupt_entry int_ack s })"

definition c_handle_syscall ::
  "nat \<Rightarrow> nat \<Rightarrow> word64 \<Rightarrow> word64 \<Rightarrow> word64 \<Rightarrow> word64 \<Rightarrow> cpu_regs \<Rightarrow> kstate \<Rightarrow> kernel_exit" where
  "c_handle_syscall n m int_ack clock name_len syscall cpu s =
     leave_kernel cpu (do {
       s \<leftarrow> entry_hook cpu s;
       (_, s) \<leftarrow> slowpath n m int_ack clock name_len syscall s;
       Some s
     })"

definition c_handle_fastpath_call ::
  "nat \<Rightarrow> nat \<Rightarrow> word64 \<Rightarrow> word64 \<Rightarrow> word64 \<Rightarrow> word64 \<Rightarrow> word64 \<Rightarrow> cpu_regs \<Rightarrow> kstate \<Rightarrow> kernel_exit" where
  "c_handle_fastpath_call n m int_ack clock name_len cptr msgInfo cpu s =
     leave_kernel cpu (do {
       s \<leftarrow> entry_hook cpu s;
       (_, s) \<leftarrow> fastpath_call n m int_ack clock name_len cptr msgInfo s;
       Some s
     })"

definition c_handle_fastpath_reply_recv ::
  "nat \<Rightarrow> nat \<Rightarrow> word64 \<Rightarrow> word64 \<Rightarrow> word64 \<Rightarrow> word64 \<Rightarrow> word64 \<Rightarrow> cpu_regs \<Rightarrow> kstate \<Rightarrow> kernel_exit" where
  "c_handle_fastpath_reply_recv n m int_ack clock name_len cptr msgInfo cpu s =
     leave_kernel cpu (do {
       s \<leftarrow> entry_hook cpu s;
       (_, s) \<leftarrow> fastpath_reply_recv n m int_ack clock name_len cptr msgInfo s;
       Some s
     })"

definition c_handle_undefined_instruction :: "word64 \<Rightarrow> cpu_regs \<Rightarrow> kstate \<Rightarrow> kernel_exit" where
  "c_handle_undefined_instruction esr cpu s =
     leave_kernel cpu (do {
       s \<leftarrow> entry_hook cpu s;
       (_, s) \<leftarrow> handleUserLevelFault esr 0 s;
       Some s
     })"

definition c_handle_vm_fault :: "word64 \<Rightarrow> word64 \<Rightarrow> word64 \<Rightarrow> cpu_regs \<Rightarrow> kstate \<Rightarrow> kernel_exit" where
  "c_handle_vm_fault far esr type cpu s =
     leave_kernel cpu (do {
       s \<leftarrow> entry_hook cpu s;
       (_, s) \<leftarrow> handleVMFaultEvent far esr type s;
       Some s
     })"

definition DATA_FAULT :: word64 where "DATA_FAULT = 0"
definition INSTRUCTION_FAULT :: word64 where "INSTRUCTION_FAULT = 1"

section \<open>Vectors\<close>

definition ESR_EC_LEL_DABT :: word64 where "ESR_EC_LEL_DABT = 0x24"
definition ESR_EC_LEL_IABT :: word64 where "ESR_EC_LEL_IABT = 0x20"
definition ESR_EC_LEL_SVC64 :: word64 where "ESR_EC_LEL_SVC64 = 0x15"

text \<open>
  A synchronous exception of a thread: the class in the syndrome selects the handler.  Without the
  floating-point feature an access to those registers falls through to the handler of undefined instructions.
\<close>

definition lower_el_sync ::
  "nat \<Rightarrow> nat \<Rightarrow> word64 \<Rightarrow> word64 \<Rightarrow> word64 \<Rightarrow> word64 \<Rightarrow> word64 \<Rightarrow> cpu_regs \<Rightarrow> kstate \<Rightarrow> kernel_exit" where
  "lower_el_sync n m int_ack clock name_len far esr cpu s =
    (let s = kernel_enter cpu s;
         ec = drop_bit 26 esr in
     if ec = ESR_EC_LEL_DABT then c_handle_vm_fault far esr DATA_FAULT cpu (set_fault_ip (cpu_elr cpu) s)
     else if ec = ESR_EC_LEL_IABT then c_handle_vm_fault far esr INSTRUCTION_FAULT cpu (set_fault_ip (cpu_elr cpu) s)
     else if ec = ESR_EC_LEL_SVC64 then
       let s = set_fault_ip (cpu_elr cpu - 4) s; x = cpu_x cpu in
       if x 7 = SYS_CALL then c_handle_fastpath_call n m int_ack clock name_len (x 0) (x 1) cpu s
       else if x 7 = SYS_REPLY_RECV then c_handle_fastpath_reply_recv n m int_ack clock name_len (x 0) (x 1) cpu s
       else c_handle_syscall n m int_ack clock name_len (x 7) cpu s
     else c_handle_undefined_instruction esr cpu (set_fault_ip (cpu_elr cpu) s))"

definition lower_el_irq :: "word64 \<Rightarrow> cpu_regs \<Rightarrow> kstate \<Rightarrow> kernel_exit" where
  "lower_el_irq int_ack cpu s =
     c_handle_interrupt int_ack cpu (set_fault_ip (cpu_elr cpu) (kernel_enter cpu s))"

text \<open>An interrupt while the idle thread runs: its registers are not saved.\<close>

definition cur_el_irq :: "word64 \<Rightarrow> cpu_regs \<Rightarrow> kstate \<Rightarrow> kernel_exit" where
  "cur_el_irq int_ack cpu s = c_handle_interrupt int_ack cpu s"

section \<open>Properties\<close>

lemma restore_user_context_regs:
  assumes "ksCurThread s \<noteq> 0" "regs = tcbArch (tcb_at s (ksCurThread s))"
  shows "restore_user_context cpu s = Some \<lparr>cpu_x = (\<lambda>r. if r \<le> 30 then regs r else cpu_x cpu r),
    cpu_sp_el0 = regs SP_EL0, cpu_elr = regs ELR_EL1, cpu_spsr = regs SPSR_EL1,
    cpu_tpidr_el0 = regs TPIDR_EL0, cpu_tpidrro_el0 = regs TPIDRRO_EL0\<rparr>"
  unfolding assms(2) using assms(1)
  by (cases cpu) (simp add: restore_user_context_def get_currenct_thread_def load_thread_local_def Let_def cong: if_cong)



lemma args_to_regs_run:
  assumes "ksCurThread s \<noteq> 0" "dest \<noteq> ksCurThread s" "inj_on u (set is)" "distinct is"
    "\<forall>i \<in> set is. to_index (f i) = Some (u i) \<and> get_syscall_arg (i + off) buffer s = Some (v i)"
  shows "\<exists>g. args_to_regs is off buffer dest f s = Some (upd_tcb dest (\<lambda>t. t\<lparr>tcbArch := g\<rparr>) s) \<and>
    (\<forall>i \<in> set is. g (u i) = v i) \<and> (\<forall>r. r \<notin> u ` set is \<longrightarrow> g r = tcbArch (tcb_at s dest) r)"
  using assms
proof (induction "is" arbitrary: s)
  case Nil
  then show ?case by (intro exI [of _ "tcbArch (tcb_at s dest)"]) (simp add: upd_tcb_def)
next
  case (Cons i "is")
  let ?s = "upd_tcb dest (\<lambda>t. t\<lparr>tcbArch := (tcbArch (tcb_at s dest))(u i := v i)\<rparr>) s"
  have arg: "get_syscall_arg j buffer ?s = get_syscall_arg j buffer s" for j
    using Cons.prems(1,2) by (simp add: get_syscall_arg_def get_currenct_thread_def get_reg_def)
  have run: "args_to_regs (i # is) off buffer dest f s = args_to_regs is off buffer dest f ?s"
    using Cons.prems(5) by (simp add: set_reg_def set_register_def)
  obtain g where g: "args_to_regs is off buffer dest f ?s = Some (upd_tcb dest (\<lambda>t. t\<lparr>tcbArch := g\<rparr>) ?s)"
    "\<forall>i \<in> set is. g (u i) = v i" "\<forall>r. r \<notin> u ` set is \<longrightarrow> g r = tcbArch (tcb_at ?s dest) r"
    using Cons.IH [of ?s] Cons.prems arg by auto
  have "u i \<notin> u ` set is" using Cons.prems(3,4) by (auto simp: inj_on_def)
  moreover have "upd_tcb dest (\<lambda>t. t\<lparr>tcbArch := g\<rparr>) ?s = upd_tcb dest (\<lambda>t. t\<lparr>tcbArch := g\<rparr>) s"
    by (simp add: upd_tcb_def)
  ultimately show ?case using run g by (intro exI [of _ g]) auto
qed

lemma get_syscall_arg_total:
  assumes "ksCurThread s \<noteq> 0" "length (buf_msg (ks_bufs s buffer)) = 120" "i < 120"
  shows "get_syscall_arg i buffer s = Some (the (get_syscall_arg i buffer s))"
  using assms by (auto simp: get_syscall_arg_def get_currenct_thread_def get_reg_def get_register_def MSG_REGISTER_def
      MSG_REGISTER_NUM_def nth_opt_def)

lemma register_lists:
  "distinct FRAME_REGISTERS" "length FRAME_REGISTERS = 17" "distinct GP_REGISTERS" "length GP_REGISTERS = 19"
  by (simp_all add: FRAME_REGISTERS_def GP_REGISTERS_def)

lemma args_to_reg_list:
  assumes "ksCurThread s \<noteq> 0" "dest \<noteq> ksCurThread s" "length (buf_msg (ks_bufs s buffer)) = 120"
    "distinct L" "m \<le> length L" "\<And>i. to_index (f i) = nth_opt L i" "m + off \<le> 120"
  shows "\<exists>g. args_to_regs [0 ..< m] off buffer dest f s = Some (upd_tcb dest (\<lambda>t. t\<lparr>tcbArch := g\<rparr>) s) \<and>
    (\<forall>i < m. g (L ! i) = the (get_syscall_arg (i + off) buffer s)) \<and>
    (\<forall>r. r \<notin> set L \<longrightarrow> g r = tcbArch (tcb_at s dest) r)"
proof -
  have "inj_on ((!) L) (set [0 ..< m])" using assms(4,5) by (intro inj_on_nth) auto
  moreover have "\<forall>i \<in> set [0 ..< m]. to_index (f i) = Some (L ! i) \<and>
      get_syscall_arg (i + off) buffer s = Some (the (get_syscall_arg (i + off) buffer s))"
    using get_syscall_arg_total [OF assms(1,3)] assms(5-7) by (simp add: nth_opt_def)
  ultimately obtain g where g: "args_to_regs [0 ..< m] off buffer dest f s = Some (upd_tcb dest (\<lambda>t. t\<lparr>tcbArch := g\<rparr>) s)"
    "\<forall>i \<in> set [0 ..< m]. g (L ! i) = the (get_syscall_arg (i + off) buffer s)"
    "\<forall>r. r \<notin> (!) L ` set [0 ..< m] \<longrightarrow> g r = tcbArch (tcb_at s dest) r"
    using args_to_regs_run [OF assms(1,2), of "(!) L" "[0 ..< m]" f off buffer "\<lambda>i. the (get_syscall_arg (i + off) buffer s)"] by auto
  have "(!) L ` set [0 ..< m] \<subseteq> set L" using assms(5) by auto
  then have "\<forall>r. r \<notin> set L \<longrightarrow> g r = tcbArch (tcb_at s dest) r" using g(3) by blast
  with g(1,2) show ?thesis by (intro exI [of _ g]) simp
qed

text \<open>
  C34: The registers that one thread writes to another with \<open>TCB_WriteRegisters\<close> reach the processor as they
  are: when the target runs, the processor status is restored from the argument, without the check that its
  mode bits are those of user mode, so a thread can be started at the exception level of the kernel.
\<close>

theorem write_registers_unsanitised:
  assumes "ksCurThread s \<noteq> 0" "dest \<noteq> ksCurThread s" "dest \<noteq> 0" "length (buf_msg (ks_bufs s buffer)) = 120"
    "3 \<le> n" "n \<le> 36"
  shows "\<exists>s' cpu'. invoke_tcb_write_registers dest 0 n buffer s = Some (EXCEPTION_NONE, s') \<and>
    restore_user_context cpu (set_current_thread dest s') = Some cpu' \<and>
    get_syscall_arg 2 buffer s = Some (cpu_elr cpu') \<and> get_syscall_arg 3 buffer s = Some (cpu_sp_el0 cpu') \<and>
    get_syscall_arg 4 buffer s = Some (cpu_spsr cpu')"
proof -
  let ?F = "[0 ..< min FRAME_REG_NUM n]" and ?G = "[0 ..< min GP_REG_NUM (n - FRAME_REG_NUM)]"
  let ?arg = "\<lambda>i. the (get_syscall_arg i buffer s)"
  obtain g where g: "args_to_regs ?F 2 buffer dest Frame s = Some (upd_tcb dest (\<lambda>t. t\<lparr>tcbArch := g\<rparr>) s)"
    "\<forall>i < min FRAME_REG_NUM n. g (FRAME_REGISTERS ! i) = ?arg (i + 2)"
    using args_to_reg_list [OF assms(1,2,4), of FRAME_REGISTERS "min FRAME_REG_NUM n" Frame 2]
    by (simp add: register_lists FRAME_REG_NUM_def min_le_iff_disj) blast
  let ?s = "upd_tcb dest (\<lambda>t. t\<lparr>tcbArch := g\<rparr>) s"
  obtain h where h: "args_to_regs ?G (FRAME_REG_NUM + 2) buffer dest GP ?s = Some (upd_tcb dest (\<lambda>t. t\<lparr>tcbArch := h\<rparr>) ?s)"
    "\<forall>r. r \<notin> set GP_REGISTERS \<longrightarrow> h r = g r"
    using args_to_reg_list [of ?s dest buffer GP_REGISTERS "min GP_REG_NUM (n - FRAME_REG_NUM)" GP "FRAME_REG_NUM + 2"] assms(1,2,4)
    by (simp add: register_lists FRAME_REG_NUM_def GP_REG_NUM_def min_le_iff_disj) blast
  have "{31, 33, 34} \<inter> set GP_REGISTERS = {}" by (simp add: GP_REGISTERS_def)
  moreover have "g 34 = ?arg 2" "g 31 = ?arg 3" "g 33 = ?arg 4"
    using assms(5) g(2) [rule_format, of 0] g(2) [rule_format, of 1] g(2) [rule_format, of 2]
    by (simp_all add: FRAME_REGISTERS_def FRAME_REG_NUM_def numeral_eq_Suc)
  ultimately have hr: "h 34 = ?arg 2" "h 31 = ?arg 3" "h 33 = ?arg 4" using h(2) by auto
  let ?s' = "upd_tcb dest (\<lambda>t. t\<lparr>tcbArch := h(32 := h 34)\<rparr>) s"
  have "upd_tcb dest (\<lambda>t. t\<lparr>tcbArch := (tcbArch (tcb_at (upd_tcb dest (\<lambda>t. t\<lparr>tcbArch := h\<rparr>) ?s) dest))(32 := h 34)\<rparr>)
      (upd_tcb dest (\<lambda>t. t\<lparr>tcbArch := h\<rparr>) ?s) = ?s'" by (simp add: upd_tcb_def)
  then have run: "invoke_tcb_write_registers dest 0 n buffer s = Some (EXCEPTION_NONE, ?s')"
    using g(1) h(1) assms(1,2,6) by (simp add: invoke_tcb_write_registers_def get_reg_def get_register_def set_reg_def
        set_register_def is_current_def get_currenct_thread_def reg_nums Let_def)
  have "restore_user_context cpu (set_current_thread dest ?s') = Some \<lparr>cpu_x = (\<lambda>r. if r \<le> 30 then h r else cpu_x cpu r),
    cpu_sp_el0 = ?arg 3, cpu_elr = ?arg 2, cpu_spsr = ?arg 4, cpu_tpidr_el0 = h TPIDR_EL0, cpu_tpidrro_el0 = h TPIDRRO_EL0\<rparr>"
    using restore_user_context_regs [of "set_current_thread dest ?s'" "h(32 := h 34)" cpu] assms(3) hr
    by (simp add: set_current_thread_def context_regs cong: if_cong)
  with run show ?thesis using get_syscall_arg_total [OF assms(1,4)] by auto
qed

text \<open>Thread \<open>0x1000\<close> writes the status \<open>0x3c5\<close> (exception level 1) to thread \<open>0x2000\<close>.\<close>

definition sample_write :: kstate where
  "sample_write = upd_buf 0x8000 (\<lambda>b. b\<lparr>buf_msg := (replicate 120 0)[4 := 0x3c5]\<rparr>) sample_sched"

theorem write_registers_unsanitised_witness:
  "\<exists>s' cpu'. invoke_tcb_write_registers 0x2000 0 3 0x8000 sample_write = Some (EXCEPTION_NONE, s') \<and>
    restore_user_context \<lparr>cpu_x = (\<lambda>r. 0), cpu_sp_el0 = 0, cpu_elr = 0, cpu_spsr = 0, cpu_tpidr_el0 = 0, cpu_tpidrro_el0 = 0\<rparr>
      (set_current_thread 0x2000 s') = Some cpu' \<and> cpu_spsr cpu' = 0x3c5"
proof -
  have "get_syscall_arg 4 0x8000 sample_write = Some 0x3c5"
    by (simp add: get_syscall_arg_def MSG_REGISTER_NUM_def sample_write_def upd_buf_def nth_opt_def)
  moreover have "ksCurThread sample_write = 0x1000" "length (buf_msg (ks_bufs sample_write 0x8000)) = 120"
    by (simp_all add: sample_write_def sample_sched_def upd_buf_def)
  ultimately show ?thesis
    using write_registers_unsanitised [of sample_write "0x2000" "0x8000" 3] by simp blast
qed

end
