(* ===== verification/Bitfield.thy ===== *)
theory Bitfield
  imports KState
begin

text \<open>
  The packed fields of kernel objects: \<^verbatim>\<open>sel4_common/src/sel4_bitfield_types.rs\<close> for arrays of 64-bit words
  with 64-bit fields, which is the instance the generated structures use.  A field is a range of bits of the
  array, counted from the least significant bit of the first word, and may straddle a word boundary.
\<close>

section \<open>Model\<close>

definition NUM_BITS :: nat where "NUM_BITS = 64"

definition bf_mask :: "nat \<Rightarrow> nat \<Rightarrow> word64" where
  "bf_mask start end' =
    (let num_bits = end' - start in
     if num_bits = 0 then 0
     else if num_bits = NUM_BITS then NOT 0
     else push_bit start (NOT (push_bit num_bits (NOT 0))))"

definition bf_take :: "nat \<Rightarrow> word64 \<Rightarrow> word64" where
  "bf_take num_bits w = w AND bf_mask 0 num_bits"

definition check_range :: "word64 list \<Rightarrow> nat \<Rightarrow> nat \<Rightarrow> unit option" where
  "check_range arr start end' = do {
     kassert (start \<le> end');
     kassert (end' \<le> length arr * NUM_BITS);
     kassert (end' - start \<le> NUM_BITS)
   }"

function get_bits_loop :: "word64 list \<Rightarrow> nat \<Rightarrow> nat \<Rightarrow> nat \<Rightarrow> word64 \<Rightarrow> word64 option" where
  "get_bits_loop arr num_bits so_far index bits =
    (if so_far < num_bits then do {
       let n = min (num_bits - so_far) NUM_BITS;
       w \<leftarrow> nth_opt arr index;
       get_bits_loop arr num_bits (so_far + n) (index + 1) (bits OR push_bit so_far (bf_take n w))
     } else Some bits)"
  by pat_completeness auto
termination
  by (relation "measure (\<lambda>(arr, num_bits, so_far, index, bits). num_bits - so_far)") (auto simp: NUM_BITS_def)

definition get_bits :: "word64 list \<Rightarrow> nat \<Rightarrow> nat \<Rightarrow> word64 option" where
  "get_bits arr start end' = do {
     _ \<leftarrow> check_range arr start end';
     let num_bits = end' - start;
     let index = start div NUM_BITS;
     let offset = start mod NUM_BITS;
     let n = min (NUM_BITS - offset) num_bits;
     w \<leftarrow> nth_opt arr index;
     get_bits_loop arr num_bits n (index + 1) (bf_take n (drop_bit offset w))
   }"

function set_bits_loop :: "nat \<Rightarrow> nat \<Rightarrow> nat \<Rightarrow> word64 \<Rightarrow> word64 list \<Rightarrow> word64 list option" where
  "set_bits_loop num_bits so_far index bits arr =
    (if so_far < num_bits then do {
       let n = min (num_bits - so_far) NUM_BITS;
       w \<leftarrow> nth_opt arr index;
       set_bits_loop num_bits (so_far + n) (index + 1) bits
         (arr[index := (w AND bf_mask n NUM_BITS) OR bf_take n (drop_bit so_far bits)])
     } else Some arr)"
  by pat_completeness auto
termination
  by (relation "measure (\<lambda>(num_bits, so_far, index, bits, arr). num_bits - so_far)") (auto simp: NUM_BITS_def)

definition set_bits :: "nat \<Rightarrow> nat \<Rightarrow> word64 \<Rightarrow> word64 list \<Rightarrow> word64 list option" where
  "set_bits start end' bits arr = do {
     _ \<leftarrow> check_range arr start end';
     let num_bits = end' - start;
     let index = start div NUM_BITS;
     let offset = start mod NUM_BITS;
     let n = min (NUM_BITS - offset) num_bits;
     w \<leftarrow> nth_opt arr index;
     set_bits_loop num_bits n (index + 1) bits
       (arr[index := (w AND NOT (bf_mask offset (offset + n))) OR push_bit offset (bf_take n bits)])
   }"

declare get_bits_loop.simps [simp del] set_bits_loop.simps [simp del]

section \<open>The array as a sequence of bits\<close>

definition bit_at :: "word64 list \<Rightarrow> nat \<Rightarrow> bool" where
  "bit_at arr i \<longleftrightarrow> bit (arr ! (i div 64)) (i mod 64)"

lemma bit_bf_mask:
  assumes "start \<le> end'" "end' \<le> 64"
  shows "bit (bf_mask start end') i \<longleftrightarrow> start \<le> i \<and> i < end'"
  using assms by (auto simp: bf_mask_def NUM_BITS_def Let_def bit_simps)

lemma bit_bf_take: "n \<le> 64 \<Longrightarrow> bit (bf_take n w) i \<longleftrightarrow> i < n \<and> bit w i"
  by (auto simp: bf_take_def bit_simps bit_bf_mask)

lemma bit_above: "bit (w :: word64) i \<Longrightarrow> i < 64"
  using bit_imp_le_length [of w i] by simp

lemma word_bit_ext: "(\<And>i. i < 64 \<Longrightarrow> bit (v :: word64) i = bit w i) \<Longrightarrow> v = w"
  by (rule bit_word_eqI) simp

lemma split_start:
  obtains k off where "start = 64 * k + off" "off < 64" "start div 64 = k" "start mod 64 = (off :: nat)"
  using that [of "start div 64" "start mod 64"] by simp

lemma bit_at_offset:
  assumes "off < 64" "j < 64"
  shows "bit_at arr (64 * k + off + j) = (if off + j < 64 then bit (arr ! k) (off + j) else bit (arr ! Suc k) (off + j - 64))"
proof (cases "off + j < 64")
  case True
  then have "(64 * k + off + j) div 64 = k" "(64 * k + off + j) mod 64 = off + j" by (simp_all add: add.assoc)
  with True show ?thesis by (simp add: bit_at_def)
next
  case False
  then obtain r where r: "off + j = 64 + r" by (metis le_add_diff_inverse not_less)
  then have e: "64 * k + off + j = 64 * Suc k + r" and "r < 64" using assms by simp_all
  then have "(64 * k + off + j) div 64 = Suc k" "(64 * k + off + j) mod 64 = r"
    unfolding e by (simp_all only: div_mult_self4 mod_mult_self4) simp_all
  with r False show ?thesis by (simp add: bit_at_def)
qed

lemma get_bits_correct:
  assumes "start < end'" "end' \<le> 64 * length arr" "end' - start \<le> 64"
  shows "\<exists>w. get_bits arr start end' = Some w \<and> (\<forall>j. bit w j \<longleftrightarrow> j < end' - start \<and> bit_at arr (start + j))"
proof -
  obtain k off where so: "start = 64 * k + off" "off < 64" "start div 64 = k" "start mod 64 = off" by (rule split_start)
  have k: "k < length arr" using assms(1,2) so(1) by linarith
  have chk: "check_range arr start end' = Some ()" using assms by (simp add: check_range_def NUM_BITS_def)
  define m where "m = end' - start"
  have m: "m \<le> 64" "end' = start + m" using assms(1,3) by (simp_all add: m_def)
  have at: "bit_at arr (start + j) = (if off + j < 64 then bit (arr ! k) (off + j) else bit (arr ! Suc k) (off + j - 64))"
    if "j < 64" for j using bit_at_offset [OF so(2) that, of arr k] unfolding so(1) .
  show ?thesis
  proof (cases "m \<le> 64 - off")
    case True
    let ?w = "bf_take m (drop_bit off (arr ! k))"
    have "get_bits arr start end' = Some ?w"
      using chk k True by (simp add: get_bits_def NUM_BITS_def get_bits_loop.simps Let_def so(3,4) m_def [symmetric] min_absorb2)
    moreover have "bit ?w j \<longleftrightarrow> j < m \<and> bit_at arr (start + j)" for j
      using True m(1) at [of j] so(2) by (auto simp: bit_bf_take bit_simps)
    ultimately show ?thesis unfolding m_def by blast
  next
    case False
    let ?w = "bf_take (64 - off) (drop_bit off (arr ! k)) OR push_bit (64 - off) (bf_take (m - (64 - off)) (arr ! Suc k))"
    have k1: "Suc k < length arr" using False m so(1,2) assms(2) by linarith
    have "get_bits arr start end' = Some ?w"
      using chk k k1 False m(1) by (simp add: get_bits_def NUM_BITS_def get_bits_loop.simps Let_def so(3,4)
          m_def [symmetric] min_absorb1 min_absorb2)
    moreover have "bit ?w j \<longleftrightarrow> j < m \<and> bit_at arr (start + j)" for j
    proof (cases "j < 64")
      case True
      have "bit ?w j \<longleftrightarrow> j < 64 - off \<and> bit (arr ! k) (off + j) \<or> 64 - off \<le> j \<and> j - (64 - off) < m - (64 - off) \<and> bit (arr ! Suc k) (j - (64 - off))"
        using True m(1) so(2) by (simp add: bit_or_iff bit_push_bit_iff bit_bf_take bit_drop_bit_eq)
      moreover have "j - (64 - off) = off + j - 64" if "64 - off \<le> j" using that so(2) by linarith
      ultimately show ?thesis using False at [OF True] by (cases "j < 64 - off") auto
    next
      case F: False
      then show ?thesis using m(1) bit_above [of ?w j] by auto
    qed
    ultimately show ?thesis unfolding m_def by blast
  qed
qed

lemma bit_at_update:
  "i < 64 * length arr \<Longrightarrow> bit_at (arr[k := w]) i = (if i div 64 = k then bit w (i mod 64) else bit_at arr i)"
  by (auto simp: bit_at_def nth_list_update less_mult_imp_div_less)

lemma set_bits_correct:
  assumes "start < end'" "end' \<le> 64 * length arr" "end' - start \<le> 64"
  shows "\<exists>arr'. set_bits start end' v arr = Some arr' \<and> length arr' = length arr \<and>
    (\<forall>i < 64 * length arr. bit_at arr' i = (if start \<le> i \<and> i < end' then bit v (i - start) else bit_at arr i))"
proof -
  obtain k off where so: "start = 64 * k + off" "off < 64" "start div 64 = k" "start mod 64 = off" by (rule split_start)
  have k: "k < length arr" using assms(1,2) so(1) by linarith
  have chk: "check_range arr start end' = Some ()" using assms by (simp add: check_range_def NUM_BITS_def)
  define m where "m = end' - start"
  have m: "m \<le> 64" "end' = start + m" "0 < m" using assms(1,3) by (simp_all add: m_def)
  let ?n = "min (64 - off) m"
  let ?w = "(arr ! k AND NOT (bf_mask off (off + ?n))) OR push_bit off (bf_take ?n v)"
  have w: "bit ?w r = (if off \<le> r \<and> r < off + ?n then bit v (r - off) else bit (arr ! k) r)" if "r < 64" for r
    using that so(2) m(1) by (auto simp: bit_or_iff bit_and_iff bit_not_iff bit_push_bit_iff bit_bf_take bit_bf_mask)
  have pos: "i = 64 * (i div 64) + i mod 64" "i mod 64 < 64" for i :: nat by simp_all
  show ?thesis
  proof (cases "m \<le> 64 - off")
    case True
    have run: "set_bits start end' v arr = Some (arr[k := ?w])"
      using chk k True by (simp add: set_bits_def NUM_BITS_def set_bits_loop.simps Let_def so(3,4) m_def [symmetric] min_absorb2)
    have "bit_at (arr[k := ?w]) i = (if start \<le> i \<and> i < end' then bit v (i - start) else bit_at arr i)"
      if i: "i < 64 * length arr" for i
    proof (cases "i div 64 = k")
      case K: True
      obtain q r where r: "i = 64 * q + r" "r < 64" "i div 64 = q" "i mod 64 = r" by (rule split_start)
      have "start \<le> i \<and> i < end' \<longleftrightarrow> off \<le> r \<and> r < off + ?n" "i - start = r - off"
        using r(1) K r(3) so(1) m(2) True by auto
      then show ?thesis using bit_at_update [OF i, of k ?w] w [OF r(2)] K r by (simp add: bit_at_def)
    next
      case K: False
      obtain q r where r: "i = 64 * q + r" "r < 64" "i div 64 = q" by (rule split_start)
      have "\<not> (start \<le> i \<and> i < end')" using r K so(1,2) m(2) True by (auto simp: not_le)
      then show ?thesis using bit_at_update [OF i, of k ?w] K by auto
    qed
    with run show ?thesis by (intro exI [of _ "arr[k := ?w]"]) simp
  next
    case False
    let ?m = "m - (64 - off)"
    let ?v = "(arr ! Suc k AND bf_mask ?m 64) OR bf_take ?m (drop_bit (64 - off) v)"
    let ?arr = "arr[k := ?w, Suc k := ?v]"
    have k1: "Suc k < length arr" using False m so(1,2) assms(2) by linarith
    have run: "set_bits start end' v arr = Some ?arr"
      using chk k k1 False m(1) by (simp add: set_bits_def NUM_BITS_def set_bits_loop.simps Let_def so(3,4)
          m_def [symmetric] min_absorb1 min_absorb2)
    have v: "bit ?v r = (if r < ?m then bit v (64 - off + r) else bit (arr ! Suc k) r)" if "r < 64" for r
      using that m(1) by (auto simp: bit_or_iff bit_and_iff bit_bf_take bit_bf_mask bit_drop_bit_eq)
    have "bit_at ?arr i = (if start \<le> i \<and> i < end' then bit v (i - start) else bit_at arr i)"
      if i: "i < 64 * length arr" for i
    proof -
      obtain q r where r: "i = 64 * q + r" "r < 64" "i div 64 = q" "i mod 64 = r" by (rule split_start)
      have upd: "bit_at ?arr i = (if q = Suc k then bit ?v r else if q = k then bit ?w r else bit (arr ! q) r)"
        using bit_at_update [of i "arr[k := ?w]" "Suc k" ?v] bit_at_update [OF i, of k ?w] i r(3,4) by (simp add: bit_at_def)
      consider "q = k" | "q = Suc k" | "q < k" | "Suc k < q" by linarith
      then show ?thesis
      proof cases
        case 1
        then have "start \<le> i \<and> i < end' \<longleftrightarrow> off \<le> r \<and> r < off + ?n" "i - start = r - off"
          using r(1,2) so(1,2) m(2) False by auto
        then show ?thesis using upd w [OF r(2)] 1 r by (simp add: bit_at_def)
      next
        case 2
        then have "start \<le> i \<and> i < end' \<longleftrightarrow> r < ?m" "i - start = 64 - off + r"
          using r(1,2) so(1,2) m(2) False by auto
        then show ?thesis using upd v [OF r(2)] 2 r by (simp add: bit_at_def)
      next
        case 3
        then have "\<not> start \<le> i" using r(1,2) so(1) by linarith
        then show ?thesis using upd 3 r by (simp add: bit_at_def)
      next
        case 4
        then have "\<not> i < end'" using r(1,2) so(1,2) m(1,2) by linarith
        then show ?thesis using upd 4 r by (simp add: bit_at_def)
      qed
    qed
    with run show ?thesis by (intro exI [of _ ?arr]) simp
  qed
qed

text \<open>
  C35: Fields of a packed structure round-trip and do not interfere: after writing a field, wherever it lies and
  even when it straddles two words, reading it returns the value cut to the width of the field, and every
  disjoint field reads as before.
\<close>

theorem bitfield_roundtrip:
  assumes "start < end'" "end' \<le> 64 * length arr" "end' - start \<le> 64"
  shows "\<exists>arr'. set_bits start end' v arr = Some arr' \<and> length arr' = length arr \<and>
    get_bits arr' start end' = Some (take_bit (end' - start) v) \<and>
    (\<forall>a b. a < b \<and> b \<le> 64 * length arr \<and> b - a \<le> 64 \<and> (b \<le> start \<or> end' \<le> a) \<longrightarrow> get_bits arr' a b = get_bits arr a b)"
proof -
  obtain arr' where arr': "set_bits start end' v arr = Some arr'" "length arr' = length arr"
    "\<forall>i < 64 * length arr. bit_at arr' i = (if start \<le> i \<and> i < end' then bit v (i - start) else bit_at arr i)"
    using set_bits_correct [OF assms] by blast
  obtain w where w: "get_bits arr' start end' = Some w" "\<forall>j. bit w j \<longleftrightarrow> j < end' - start \<and> bit_at arr' (start + j)"
    using get_bits_correct [of start end' arr'] assms arr'(2) by auto
  have "w = take_bit (end' - start) v"
    by (rule bit_eqI) (use w(2) arr'(3) assms in \<open>auto simp: bit_take_bit_iff less_diff_conv add.commute\<close>)
  moreover have "get_bits arr' a b = get_bits arr a b"
    if ab: "a < b" "b \<le> 64 * length arr" "b - a \<le> 64" "b \<le> start \<or> end' \<le> a" for a b
  proof -
    obtain x where x: "get_bits arr a b = Some x" "\<forall>j. bit x j \<longleftrightarrow> j < b - a \<and> bit_at arr (a + j)"
      using get_bits_correct [OF ab(1-3)] by blast
    obtain y where y: "get_bits arr' a b = Some y" "\<forall>j. bit y j \<longleftrightarrow> j < b - a \<and> bit_at arr' (a + j)"
      using get_bits_correct [of a b arr'] ab arr'(2) by auto
    have "bit_at arr' (a + j) = bit_at arr (a + j)" if "j < b - a" for j
    proof -
      have "a + j < 64 * length arr" "\<not> (start \<le> a + j \<and> a + j < end')" using ab that by linarith+
      then show ?thesis using arr'(3) by auto
    qed
    then have "x = y" using x(2) y(2) by (intro bit_eqI) auto
    with x y show ?thesis by simp
  qed
  ultimately show ?thesis using arr'(1,2) w(1) by blast
qed

text \<open>A field of 10 bits that straddles the two words of an array, and one next to it.\<close>

theorem bitfield_roundtrip_witness:
  "\<exists>arr'. set_bits 60 70 0x3ab [0, 0xff] = Some arr' \<and> get_bits arr' 60 70 = Some 0x3ab \<and> get_bits arr' 70 80 = get_bits [0, 0xff] 70 80"
  using bitfield_roundtrip [of 60 70 "[0, 0xff]" "0x3ab"] by fastforce

end
