(* ===== verification/SmpLock.thy ===== *)
theory SmpLock
  imports Prelude
begin

text \<open>
  The big kernel lock of the multi-core kernel, \<^verbatim>\<open>kernel/src/smp/lock.rs\<close>: a CLH queue lock.  Pointers to the
  \<open>n + 1\<close> queue nodes are node numbers, the null pointer is \<open>None\<close>.  Every access to shared memory is one step of
  the processor that makes it, and steps of different processors interleave arbitrarily (sequentially
  consistent memory).  Requests from other processors that are handled while waiting do not touch the lock and
  are left out.
\<close>

section \<open>The lock\<close>

datatype clh_qnode_state = CLHState_Granted | CLHState_Pending

record clh_lock =
  lk_nodes :: "nat \<Rightarrow> clh_qnode_state"
  lk_node :: "nat \<Rightarrow> nat option"
  lk_next :: "nat \<Rightarrow> nat option"
  lk_ipi :: "nat \<Rightarrow> nat"
  lk_head :: "nat option"

definition clh_new :: clh_lock where
  "clh_new = \<lparr>lk_nodes = (\<lambda>_. CLHState_Granted), lk_node = (\<lambda>_. None), lk_next = (\<lambda>_. None), lk_ipi = (\<lambda>_. 0),
     lk_head = None\<rparr>"

definition clh_init :: "nat \<Rightarrow> clh_lock \<Rightarrow> clh_lock" where
  "clh_init n l = l\<lparr>lk_node := (\<lambda>i. if i < n then Some i else lk_node l i),
     lk_nodes := (lk_nodes l)(n := CLHState_Granted), lk_head := Some n\<rparr>"

definition is_ipi_pending :: "nat \<Rightarrow> clh_lock \<Rightarrow> bool" where
  "is_ipi_pending cpu l \<longleftrightarrow> lk_ipi l cpu = 1"

definition set_ipi :: "nat \<Rightarrow> nat \<Rightarrow> clh_lock \<Rightarrow> clh_lock" where
  "set_ipi cpu ipi l = l\<lparr>lk_ipi := (lk_ipi l)(cpu := ipi)\<rparr>"

definition set_node_state :: "nat option \<Rightarrow> clh_qnode_state \<Rightarrow> clh_lock \<Rightarrow> clh_lock option" where
  "set_node_state p st l = map_option (\<lambda>x. l\<lparr>lk_nodes := (lk_nodes l)(x := st)\<rparr>) p"

definition next_node_value :: "nat \<Rightarrow> clh_lock \<Rightarrow> clh_qnode_state option" where
  "next_node_value cpu l = map_option (lk_nodes l) (lk_next l cpu)"

definition is_self_in_queue :: "nat \<Rightarrow> clh_lock \<Rightarrow> bool option" where
  "is_self_in_queue cpu l = map_option (\<lambda>x. lk_nodes l x = CLHState_Pending) (lk_node l cpu)"

section \<open>Steps\<close>

text \<open>
  Where a processor is: outside; in \<open>acquire\<close> before the exchange of the head, before storing what the
  exchange returned, or waiting; inside; or in \<open>release\<close> after it has granted its node.
\<close>

datatype clh_pc = Out | Swap | Store_Next "nat option" | Spin | In | Store_Node

type_synonym clh_sys = "clh_lock \<times> (nat \<Rightarrow> clh_pc)"

fun acquire_step :: "nat \<Rightarrow> clh_sys \<Rightarrow> clh_sys option" where
  "acquire_step cpu (l, pc) = (case pc cpu of
       Out \<Rightarrow> map_option (\<lambda>l. (l, pc(cpu := Swap))) (set_node_state (lk_node l cpu) CLHState_Pending l)
     | Swap \<Rightarrow> Some (l\<lparr>lk_head := lk_node l cpu\<rparr>, pc(cpu := Store_Next (lk_head l)))
     | Store_Next raw_ptr \<Rightarrow>
         Some (l\<lparr>lk_next := (lk_next l)(cpu := raw_ptr)\<rparr>, pc(cpu := if raw_ptr = None then Swap else Spin))
     | Spin \<Rightarrow> map_option (\<lambda>v. (l, pc(cpu := if v = CLHState_Granted then In else Spin))) (next_node_value cpu l)
     | _ \<Rightarrow> None)"

fun release_step :: "nat \<Rightarrow> clh_sys \<Rightarrow> clh_sys option" where
  "release_step cpu (l, pc) = (case pc cpu of
       In \<Rightarrow> map_option (\<lambda>l. (l, pc(cpu := Store_Node))) (set_node_state (lk_node l cpu) CLHState_Granted l)
     | Store_Node \<Rightarrow> Some (l\<lparr>lk_node := (lk_node l)(cpu := lk_next l cpu)\<rparr>, pc(cpu := Out))
     | _ \<Rightarrow> None)"

definition clh_step :: "nat \<Rightarrow> clh_sys \<Rightarrow> clh_sys option" where
  "clh_step cpu s = (if snd s cpu \<in> {In, Store_Node} then release_step cpu s else acquire_step cpu s)"

inductive clh_reach :: "nat \<Rightarrow> clh_sys \<Rightarrow> bool" for n where
  init: "clh_reach n (clh_init n clh_new, \<lambda>_. Out)"
| step: "clh_reach n s \<Longrightarrow> cpu < n \<Longrightarrow> clh_step cpu s = Some s' \<Longrightarrow> clh_reach n s'"

section \<open>The queue\<close>

fun queued_pc :: "clh_pc \<Rightarrow> bool" where
  "queued_pc (Store_Next _) = True"
| "queued_pc Spin = True"
| "queued_pc In = True"
| "queued_pc _ = False"

text \<open>The node a processor waits for, and the node it owns (the one it takes over while it releases).\<close>

definition pred_of :: "clh_sys \<Rightarrow> nat \<Rightarrow> nat option" where
  "pred_of s c = (case snd s c of Store_Next r \<Rightarrow> r | _ \<Rightarrow> lk_next (fst s) c)"

definition own_of :: "clh_sys \<Rightarrow> nat \<Rightarrow> nat option" where
  "own_of s c = (if snd s c = Store_Node then lk_next (fst s) c else lk_node (fst s) c)"

fun chain :: "(nat \<Rightarrow> nat option) \<Rightarrow> (nat \<Rightarrow> nat) \<Rightarrow> nat \<Rightarrow> nat list \<Rightarrow> bool" where
  "chain pred own b [] \<longleftrightarrow> True"
| "chain pred own b (c # cs) \<longleftrightarrow> pred c = Some b \<and> chain pred own (own c) cs"

text \<open>
  The processors \<open>cs\<close> wait in this order, each for the node of its predecessor and the first one for the
  granted node \<open>b\<close>; no two processors own the same node.
\<close>

definition clh_inv :: "nat \<Rightarrow> nat list \<Rightarrow> nat \<Rightarrow> (nat \<Rightarrow> nat) \<Rightarrow> clh_sys \<Rightarrow> bool" where
  "clh_inv n cs b own s \<longleftrightarrow>
     distinct cs \<and> set cs = {c. c < n \<and> queued_pc (snd s c)} \<and>
     (\<forall>c < n. own_of s c = Some (own c)) \<and> inj_on own {..<n} \<and> b \<notin> own ` {..<n} \<and>
     chain (pred_of s) own b cs \<and>
     lk_head (fst s) = Some (if cs = [] then b else own (last cs)) \<and>
     lk_nodes (fst s) b = CLHState_Granted \<and>
     (\<forall>c < n. queued_pc (snd s c) \<or> snd s c = Swap \<longrightarrow> lk_nodes (fst s) (own c) = CLHState_Pending) \<and>
     (\<forall>c < n. snd s c = In \<longrightarrow> cs \<noteq> [] \<and> c = hd cs)"

lemma chain_append: "chain pred own b (cs @ ds) \<longleftrightarrow> chain pred own b cs \<and> chain pred own (if cs = [] then b else own (last cs)) ds"
  by (induction cs arbitrary: b) auto

lemma chain_cong:
  "(\<And>c. c \<in> set cs \<Longrightarrow> pred' c = pred c \<and> own' c = own c) \<Longrightarrow> chain pred' own' b cs = chain pred own b cs"
  by (induction cs arbitrary: b) auto

lemma chain_pred:
  assumes "chain pred own b cs" "c \<in> set cs" "c \<noteq> hd cs"
  shows "\<exists>d \<in> set cs. pred c = Some (own d)"
  using assms
proof (induction cs arbitrary: b)
  case (Cons d cs)
  then show ?case by (cases cs) (auto split: if_splits)
qed simp

lemma chain_Some: "chain pred own b cs \<Longrightarrow> c \<in> set cs \<Longrightarrow> \<exists>x. pred c = Some x"
  by (induction cs arbitrary: b) auto

lemma clh_inv_init: "clh_inv n [] n (\<lambda>c. c) (clh_init n clh_new, \<lambda>_. Out)"
  by (auto simp: clh_inv_def clh_init_def clh_new_def own_of_def inj_on_def)

section \<open>Every step preserves the queue\<close>

text \<open>The parts of the invariant, for one processor.\<close>

lemma clh_invD:
  assumes "clh_inv n cs b own s"
  shows "distinct cs" "set cs = {c. c < n \<and> queued_pc (snd s c)}" "c < n \<Longrightarrow> own_of s c = Some (own c)"
    "inj_on own {..<n}" "c < n \<Longrightarrow> own c \<noteq> b" "chain (pred_of s) own b cs"
    "lk_head (fst s) = Some (if cs = [] then b else own (last cs))" "lk_nodes (fst s) b = CLHState_Granted"
    "c < n \<Longrightarrow> queued_pc (snd s c) \<or> snd s c = Swap \<Longrightarrow> lk_nodes (fst s) (own c) = CLHState_Pending"
    "c < n \<Longrightarrow> snd s c = In \<Longrightarrow> cs \<noteq> [] \<and> c = hd cs"
    "c < n \<Longrightarrow> d < n \<Longrightarrow> own c = own d \<Longrightarrow> c = d"
  using assms by (auto simp: clh_inv_def dest: inj_onD)

lemma clh_invI:
  assumes "distinct cs" "set cs = {c. c < n \<and> queued_pc (snd s c)}" "\<And>c. c < n \<Longrightarrow> own_of s c = Some (own c)"
    "inj_on own {..<n}" "\<And>c. c < n \<Longrightarrow> own c \<noteq> b" "chain (pred_of s) own b cs"
    "lk_head (fst s) = Some (if cs = [] then b else own (last cs))" "lk_nodes (fst s) b = CLHState_Granted"
    "\<And>c. c < n \<Longrightarrow> queued_pc (snd s c) \<or> snd s c = Swap \<Longrightarrow> lk_nodes (fst s) (own c) = CLHState_Pending"
    "\<And>c. c < n \<Longrightarrow> snd s c = In \<Longrightarrow> cs \<noteq> [] \<and> c = hd cs"
  shows "clh_inv n cs b own s"
proof -
  have nb: "b \<notin> own ` {..<n}" using assms(5) by auto
  show ?thesis
    unfolding clh_inv_def
    by (intro conjI allI impI; (rule assms(1,2,4,6-8) nb | erule assms(3) | erule (1) assms(9)
        | erule (1) assms(10) [THEN conjunct1] | erule (1) assms(10) [THEN conjunct2]))
qed

lemma step_Out:
  assumes "clh_inv n cs b own (l, pc)" "cpu < n" "pc cpu = Out"
  shows "\<exists>s'. clh_step cpu (l, pc) = Some s' \<and> clh_inv n cs b own s'"
proof -
  note I = clh_invD [OF assms(1)]
  have own: "lk_node l cpu = Some (own cpu)" using I(3) [OF assms(2)] assms(3) by (simp add: own_of_def)
  let ?l = "l\<lparr>lk_nodes := (lk_nodes l)(own cpu := CLHState_Pending)\<rparr>"
  have run: "clh_step cpu (l, pc) = Some (?l, pc(cpu := Swap))"
    using own assms(3) by (simp add: clh_step_def set_node_state_def)
  have nq: "cpu \<notin> set cs" using I(2) assms(3) by simp
  have "chain (pred_of (?l, pc(cpu := Swap))) own b cs"
    by (rule chain_cong [THEN iffD2, OF _ I(6)]) (use nq in \<open>auto simp: pred_of_def split: clh_pc.split\<close>)
  then have "clh_inv n cs b own (?l, pc(cpu := Swap))"
    using assms I(1,2,4,7,8) I(3,5,9,10,11) unfolding clh_inv_def
    by (auto simp: own_of_def)
  with run show ?thesis by blast
qed

lemma step_Swap:
  assumes "clh_inv n cs b own (l, pc)" "cpu < n" "pc cpu = Swap"
  shows "\<exists>s'. clh_step cpu (l, pc) = Some s' \<and> clh_inv n (cs @ [cpu]) b own s'"
proof -
  note I = clh_invD [OF assms(1)]
  have own: "lk_node l cpu = Some (own cpu)" using I(3) [OF assms(2)] assms(3) by (simp add: own_of_def)
  let ?s = "(l\<lparr>lk_head := lk_node l cpu\<rparr>, pc(cpu := Store_Next (lk_head l)))"
  have run: "clh_step cpu (l, pc) = Some ?s" using assms(3) by (simp add: clh_step_def)
  have nq: "cpu \<notin> set cs" using I(2) assms(3) by simp
  have "chain (pred_of ?s) own b cs"
    by (rule chain_cong [THEN iffD2, OF _ I(6)]) (use nq in \<open>auto simp: pred_of_def split: clh_pc.split\<close>)
  then have "chain (pred_of ?s) own b (cs @ [cpu])" using I(7) by (simp add: chain_append) (simp add: pred_of_def)
  then have "clh_inv n (cs @ [cpu]) b own ?s"
    using assms I(1,2,4,7,8) I(3,5,9,10,11) own nq unfolding clh_inv_def
    by (auto simp: own_of_def)
  with run show ?thesis by blast
qed

text \<open>A waiting processor moves on without leaving the queue.\<close>

lemma inv_requeue:
  assumes "clh_inv n cs b own (l, pc)" "cpu < n" "queued_pc (pc cpu)" "queued_pc p"
    and "p = In \<Longrightarrow> cpu = hd cs" "\<And>c. pred_of (l\<lparr>lk_next := nx\<rparr>, pc(cpu := p)) c = pred_of (l, pc) c"
    and "\<And>c. pc c = Store_Node \<Longrightarrow> nx c = lk_next l c"
  shows "clh_inv n cs b own (l\<lparr>lk_next := nx\<rparr>, pc(cpu := p))" (is "clh_inv n cs b own ?s")
proof -
  note I = clh_invD [OF assms(1)]
  have q: "cpu \<in> set cs" using I(2) assms(2,3) by simp
  have ch: "chain (pred_of ?s) own b cs" by (rule chain_cong [THEN iffD2, OF _ I(6)]) (simp add: assms(6))
  have set: "set cs = {c. c < n \<and> queued_pc (snd ?s c)}" using I(2) assms(3,4) by auto
  have "pc cpu \<noteq> Store_Node" "p \<noteq> Store_Node" using assms(3,4) by auto
  then have own: "own_of ?s c = Some (own c)" if "c < n" for c
    using I(3) [OF that] assms(7) [of c] by (cases "c = cpu") (simp_all add: own_of_def split: if_splits)
  have pend: "lk_nodes (fst ?s) (own c) = CLHState_Pending" if "c < n" "queued_pc (snd ?s c) \<or> snd ?s c = Swap" for c
    using I(9) [OF that(1)] that(2) assms(3) by (cases "c = cpu") auto
  have hd: "cs \<noteq> [] \<and> c = hd cs" if "c < n" "snd ?s c = In" for c
    using I(10) [OF that(1)] that(2) assms(5) q by (cases "c = cpu") auto
  show ?thesis by (rule clh_invI [OF I(1) set own I(4,5) ch _ _ pend hd]) (use I(7,8) in simp_all)
qed

lemma step_Store_Next:
  assumes "clh_inv n cs b own (l, pc)" "cpu < n" "pc cpu = Store_Next r"
  shows "\<exists>s'. clh_step cpu (l, pc) = Some s' \<and> clh_inv n cs b own s'"
proof -
  note I = clh_invD [OF assms(1)]
  have q: "cpu \<in> set cs" using I(2) assms(2,3) by simp
  have "\<exists>x. pred_of (l, pc) cpu = Some x" using I(6) q by (rule chain_Some)
  then obtain y where r: "r = Some y" using assms(3) by (auto simp: pred_of_def)
  let ?s = "(l\<lparr>lk_next := (lk_next l)(cpu := r)\<rparr>, pc(cpu := Spin))"
  have run: "clh_step cpu (l, pc) = Some ?s" using assms(3) r by (simp add: clh_step_def)
  have "clh_inv n cs b own ?s"
    by (rule inv_requeue [OF assms(1,2)]) (use assms(3) in \<open>auto simp: pred_of_def split: clh_pc.split\<close>)
  with run show ?thesis by blast
qed

lemma step_Spin:
  assumes "clh_inv n cs b own (l, pc)" "cpu < n" "pc cpu = Spin"
  shows "\<exists>s'. clh_step cpu (l, pc) = Some s' \<and> clh_inv n cs b own s'"
proof -
  note I = clh_invD [OF assms(1)]
  have q: "cpu \<in> set cs" using I(2) assms(2,3) by simp
  obtain x where x: "pred_of (l, pc) cpu = Some x" using I(6) q by (blast dest: chain_Some)
  then have nx: "lk_next l cpu = Some x" using assms(3) by (simp add: pred_of_def)
  define p where "p = (if lk_nodes l x = CLHState_Granted then In else Spin)"
  have run: "clh_step cpu (l, pc) = Some (l\<lparr>lk_next := lk_next l\<rparr>, pc(cpu := p))"
    using assms(3) nx by (simp add: clh_step_def next_node_value_def p_def)
  have first: "cpu = hd cs" if "p = In"
  proof (rule ccontr)
    assume "cpu \<noteq> hd cs"
    then obtain d where "d \<in> set cs" "x = own d" using chain_pred [OF I(6) q] x by auto
    then show False using I(9) [of d] I(2) that by (simp add: p_def split: if_splits)
  qed
  have p: "queued_pc p" "\<And>r. p \<noteq> Store_Next r" by (simp_all add: p_def)
  have "clh_inv n cs b own (l\<lparr>lk_next := lk_next l\<rparr>, pc(cpu := p))"
    by (rule inv_requeue [OF assms(1,2) _ p(1) first]) (use assms(3) p(2) in \<open>auto simp: pred_of_def split: clh_pc.split\<close>)
  with run show ?thesis by blast
qed

lemma step_In:
  assumes "clh_inv n cs b own (l, pc)" "cpu < n" "pc cpu = In"
  shows "\<exists>s'. clh_step cpu (l, pc) = Some s' \<and> clh_inv n (tl cs) (own cpu) (own(cpu := b)) s'"
proof -
  note I = clh_invD [OF assms(1)]
  obtain ds where cs: "cs = cpu # ds" using I(10) [OF assms(2)] assms(3) by (cases cs) auto
  have own: "lk_node l cpu = Some (own cpu)" using I(3) [OF assms(2)] assms(3) by (simp add: own_of_def)
  have nx: "lk_next l cpu = Some b" using I(6) cs assms(3) by (simp add: pred_of_def)
  let ?s = "(l\<lparr>lk_nodes := (lk_nodes l)(own cpu := CLHState_Granted)\<rparr>, pc(cpu := Store_Node))"
  let ?own = "own(cpu := b)"
  have run: "clh_step cpu (l, pc) = Some ?s" using own assms(3) by (simp add: clh_step_def set_node_state_def)
  have nq: "cpu \<notin> set ds" using I(1) cs by simp
  have "chain (pred_of ?s) ?own (own cpu) ds"
    by (rule chain_cong [THEN iffD2, of _ _ "pred_of (l, pc)" _ own]) (use nq I(6) cs in \<open>auto simp: pred_of_def split: clh_pc.split\<close>)
  note ch = this
  have set: "set ds = {c. c < n \<and> queued_pc (snd ?s c)}" using I(1,2) cs assms(3) by auto
  have inj: "inj_on ?own {..<n}" using I(4,5) by (auto simp: inj_on_def)
  have nb: "?own c \<noteq> own cpu" if "c < n" for c using I(5,11) assms(2) that by auto
  have own': "own_of ?s c = Some (?own c)" if "c < n" for c using I(3) [OF that] nx by (auto simp: own_of_def)
  have hd: "ds \<noteq> [] \<and> c = hd ds" if "c < n" "snd ?s c = In" for c using I(10) [OF that(1)] that(2) cs by (auto split: if_splits)
  have pend: "lk_nodes (fst ?s) (?own c) = CLHState_Pending" if "c < n" "queued_pc (snd ?s c) \<or> snd ?s c = Swap" for c
    using I(9) [OF that(1)] that I(11) [OF that(1) assms(2)] by (cases "c = cpu") auto
  have head: "lk_head (fst ?s) = Some (if ds = [] then own cpu else ?own (last ds))"
    using I(7) cs nq last_in_set [of ds] by auto
  have "clh_inv n ds (own cpu) ?own ?s"
    by (rule clh_invI [OF _ set own' inj nb ch head _ pend hd]) (use I(1) cs in simp_all)
  with run cs show ?thesis by auto
qed

lemma step_Store_Node:
  assumes "clh_inv n cs b own (l, pc)" "cpu < n" "pc cpu = Store_Node"
  shows "\<exists>s'. clh_step cpu (l, pc) = Some s' \<and> clh_inv n cs b own s'"
proof -
  note I = clh_invD [OF assms(1)]
  let ?s = "(l\<lparr>lk_node := (lk_node l)(cpu := lk_next l cpu)\<rparr>, pc(cpu := Out))"
  have run: "clh_step cpu (l, pc) = Some ?s" using assms(3) by (simp add: clh_step_def)
  have nq: "cpu \<notin> set cs" using I(2) assms(3) by simp
  have "chain (pred_of ?s) own b cs"
    by (rule chain_cong [THEN iffD2, OF _ I(6)]) (use nq in \<open>auto simp: pred_of_def split: clh_pc.split\<close>)
  then have "clh_inv n cs b own ?s"
    using assms I(1,2,4,7,8) I(3,5,9,10,11) unfolding clh_inv_def by (auto simp: own_of_def)
  with run show ?thesis by blast
qed

lemma step_inv:
  assumes "clh_inv n cs b own s" "cpu < n"
  shows "\<exists>s' cs' b' own'. clh_step cpu s = Some s' \<and> clh_inv n cs' b' own' s'"
proof -
  obtain l pc where s: "s = (l, pc)" by (cases s)
  show ?thesis
    using step_Out [OF assms [unfolded s]] step_Swap [OF assms [unfolded s]] step_Store_Next [OF assms [unfolded s]]
      step_Spin [OF assms [unfolded s]] step_In [OF assms [unfolded s]] step_Store_Node [OF assms [unfolded s]]
    by (cases "pc cpu") (simp_all add: s, blast+)
qed

lemma reach_inv: "clh_reach n s \<Longrightarrow> \<exists>cs b own. clh_inv n cs b own s"
proof (induction rule: clh_reach.induct)
  case init
  show ?case using clh_inv_init by blast
next
  case (step s cpu s')
  then obtain cs b own where "clh_inv n cs b own s" by blast
  with step_inv [OF this step.hyps(2)] step.hyps(3) show ?case by auto
qed



end
