(* ===== verification/BootMem.thy ===== *)
theory BootMem
  imports RetypeProps
begin

text \<open>
  Memory of the booting kernel: the lists of free and reserved regions (\<^verbatim>\<open>kernel/src/boot/mm.rs\<close>), the slots of
  the root CNode (\<^verbatim>\<open>boot/utils.rs\<close>) and the untyped capabilities that hand the remaining memory to the initial
  thread (\<^verbatim>\<open>boot/untyped.rs\<close>).  Regions of kernel addresses, physical addresses and user addresses are one
  record; array indices and the number of reserved regions are natural numbers, since they stay below the
  lengths of the arrays.  The frame with the boot information is absent until the root server creates it.
\<close>

section \<open>Regions and the state of the booting kernel\<close>

record region =
  r_start :: word64
  r_end :: word64

definition region_empty :: region where
  "region_empty = \<lparr> r_start = 0, r_end = 0 \<rparr>"

definition is_empty :: "region \<Rightarrow> bool" where
  "is_empty r \<longleftrightarrow> r_start r = r_end r"

definition to_pregion :: "region \<Rightarrow> region" where
  "to_pregion r = \<lparr> r_start = to_paddr (r_start r), r_end = to_paddr (r_end r) \<rparr>"

definition to_region :: "region \<Rightarrow> region" where
  "to_region r = \<lparr> r_start = to_pptr (r_start r), r_end = to_pptr (r_end r) \<rparr>"

definition MAX_NUM_FREEMEM_REG :: nat where "MAX_NUM_FREEMEM_REG = 16"
definition NUM_RESERVED_REGIONS :: nat where "NUM_RESERVED_REGIONS = 3"
definition MAX_NUM_RESV_REG :: nat where "MAX_NUM_RESV_REG = MAX_NUM_FREEMEM_REG + NUM_RESERVED_REGIONS"
definition PPTR_BASE :: word64 where "PPTR_BASE = 0xffffff8000000000"
definition PPTR_TOP :: word64 where "PPTR_TOP = 0xffffffffc0000000"
definition PADDR_TOP :: word64 where "PADDR_TOP = PPTR_TOP - PPTR_BASE_OFFSET"
definition SEL4_NUM_INITIAL_CAPS :: word64 where "SEL4_NUM_INITIAL_CAPS = 16"
definition CONFIG_ROOT_CNODE_SIZE_BITS :: word64 where "CONFIG_ROOT_CNODE_SIZE_BITS = 12"
definition CONFIG_MAX_NUM_BOOTINFO_UNTYPED_CAPS :: word64 where "CONFIG_MAX_NUM_BOOTINFO_UNTYPED_CAPS = 230"
definition CONFIG_PADDR_USER_DEVICE_TOP :: word64 where "CONFIG_PADDR_USER_DEVICE_TOP = 1099511627776"

lemmas boot_consts = MAX_NUM_FREEMEM_REG_def NUM_RESERVED_REGIONS_def MAX_NUM_RESV_REG_def MAX_UNTYPED_BITS_def
  PPTR_BASE_def PPTR_TOP_def PADDR_TOP_def SEL4_NUM_INITIAL_CAPS_def CONFIG_ROOT_CNODE_SIZE_BITS_def
  CONFIG_MAX_NUM_BOOTINFO_UNTYPED_CAPS_def CONFIG_PADDR_USER_DEVICE_TOP_def PPTR_BASE_OFFSET_def

record SlotRegion =
  sl_start :: word64
  sl_end :: word64

record UntypedDesc =
  ud_paddr :: word64
  ud_sizeBits :: "8 word"
  ud_isDevice :: bool

record BootInfo =
  extraLen :: word64
  nodeID :: word64
  numNodes :: word64
  numIOPTLevels :: word64
  ipcBuffer :: word64
  bi_empty :: SlotRegion
  sharedFrames :: SlotRegion
  userImageFrames :: SlotRegion
  userImagePaging :: SlotRegion
  ioSpaceCaps :: SlotRegion
  extraBIPages :: SlotRegion
  initThreadCNodeSizeBits :: word64
  initThreadDomain :: word64
  bi_untyped :: SlotRegion
  untypedList :: "UntypedDesc list"

record rootserver_mem_t =
  rs_cnode :: ptr
  rs_vspace :: ptr
  rs_asid_pool :: ptr
  rs_ipc_buf :: ptr
  rs_boot_info :: ptr
  rs_extra_bi :: ptr
  rs_tcb :: ptr
  rs_paging :: region

text \<open>
  The boot-time variables (\<^verbatim>\<open>ndks_boot\<close>, \<^verbatim>\<open>avail_reg\<close>, \<^verbatim>\<open>rootserver\<close>, \<^verbatim>\<open>rootserver_mem\<close>) beside the state of the
  kernel proper.  The headers of the extra boot information are a map of their own, and the copy of the device
  tree is recorded as a triple of destination, source and length.
\<close>

record boot_state =
  reserved :: "region list"
  resv_count :: nat
  freemem :: "region list"
  bi_frame :: "BootInfo option"
  slot_pos_cur :: word64
  avail_reg :: "region list"
  rootserver :: rootserver_mem_t
  rootserver_mem :: region
  boot_headers :: "ptr \<Rightarrow> (word64 \<times> word64) option"
  boot_copies :: "(ptr \<times> ptr \<times> word64) list"
  boot_ks :: kstate

text \<open>The initial values of the boot-time variables.\<close>

definition ndks_boot_init :: "kstate \<Rightarrow> boot_state" where
  "ndks_boot_init s = \<lparr> reserved = replicate MAX_NUM_RESV_REG region_empty, resv_count = 0,
     freemem = replicate MAX_NUM_FREEMEM_REG region_empty, bi_frame = None, slot_pos_cur = SEL4_NUM_INITIAL_CAPS,
     avail_reg = replicate MAX_NUM_FREEMEM_REG region_empty,
     rootserver = \<lparr> rs_cnode = 0, rs_vspace = 0, rs_asid_pool = 0, rs_ipc_buf = 0, rs_boot_info = 0, rs_extra_bi = 0,
       rs_tcb = 0, rs_paging = region_empty \<rparr>, rootserver_mem = region_empty, boot_headers = (\<lambda>_. None), boot_copies = [], boot_ks = s \<rparr>"

definition upd_nth :: "'a list \<Rightarrow> nat \<Rightarrow> 'a \<Rightarrow> 'a list option" where
  "upd_nth xs i v = (if i < length xs then Some (xs[i := v]) else None)"

section \<open>Reserved regions\<close>

text \<open>The loop that closes the gap at \<open>j - 1\<close> by moving the later regions down.\<close>

function shift_down :: "nat \<Rightarrow> nat \<Rightarrow> region list \<Rightarrow> region list option" where
  "shift_down j n rs = (if j < n then do {
     r \<leftarrow> nth_opt rs j;
     rs \<leftarrow> upd_nth rs (j - 1) r;
     shift_down (j + 1) n rs
   } else Some rs)"
  by pat_completeness auto
termination by (relation "measure (\<lambda>(j, n, rs). n - j)") auto

function merge_loop :: "nat \<Rightarrow> nat \<Rightarrow> region list \<Rightarrow> (nat \<times> region list) option" where
  "merge_loop i n rs = (if i < n then do {
     p \<leftarrow> nth_opt rs (i - 1);
     r \<leftarrow> nth_opt rs i;
     if r_end p = r_start r then do {
       rs \<leftarrow> upd_nth rs (i - 1) (p\<lparr>r_end := r_end r\<rparr>);
       rs \<leftarrow> shift_down (i + 1) n rs;
       merge_loop i (n - 1) rs
     } else merge_loop (i + 1) n rs
   } else Some (n, rs))"
  by pat_completeness auto
termination by (relation "measure (\<lambda>(i, n, rs). n - i)") auto

definition merge_regions :: "boot_state \<Rightarrow> boot_state option" where
  "merge_regions b = do {
     (n, rs) \<leftarrow> merge_loop 1 (resv_count b) (reserved b);
     Some (b\<lparr>resv_count := n, reserved := rs\<rparr>)
   }"

text \<open>The loop that makes room at \<open>i\<close> by moving the regions from \<open>i\<close> on up.\<close>

function shift_up :: "nat \<Rightarrow> nat \<Rightarrow> region list \<Rightarrow> region list option" where
  "shift_up i j rs = (if i < j then do {
     r \<leftarrow> nth_opt rs (j - 1);
     rs \<leftarrow> upd_nth rs j r;
     shift_up i (j - 1) rs
   } else Some rs)"
  by pat_completeness auto
termination by (relation "measure (\<lambda>(i, j, rs). j - i)") auto

function reserve_loop :: "region \<Rightarrow> nat \<Rightarrow> boot_state \<Rightarrow> (bool \<times> boot_state) option" where
  "reserve_loop reg i b = (if i < resv_count b then do {
     r \<leftarrow> nth_opt (reserved b) i;
     if r_start r = r_end reg then do {
       rs \<leftarrow> upd_nth (reserved b) i (r\<lparr>r_start := r_start reg\<rparr>);
       b \<leftarrow> merge_regions (b\<lparr>reserved := rs\<rparr>);
       Some (True, b)
     } else if r_end r = r_start reg then do {
       rs \<leftarrow> upd_nth (reserved b) i (r\<lparr>r_end := r_end reg\<rparr>);
       b \<leftarrow> merge_regions (b\<lparr>reserved := rs\<rparr>);
       Some (True, b)
     } else if r_start r > r_end reg then
       if resv_count b + 1 \<ge> MAX_NUM_RESV_REG then Some (False, b)
       else do {
         rs \<leftarrow> shift_up i (resv_count b) (reserved b);
         rs \<leftarrow> upd_nth rs i reg;
         Some (True, b\<lparr>reserved := rs, resv_count := resv_count b + 1\<rparr>)
       }
     else reserve_loop reg (i + 1) b
   } else if i + 1 = MAX_NUM_RESV_REG then Some (False, b)
   else do {
     rs \<leftarrow> upd_nth (reserved b) i reg;
     Some (True, b\<lparr>reserved := rs, resv_count := resv_count b + 1\<rparr>)
   })"
  by pat_completeness auto
termination by (relation "measure (\<lambda>(reg, i, b). resv_count b - i)") auto

definition reserve_region :: "region \<Rightarrow> boot_state \<Rightarrow> (bool \<times> boot_state) option" where
  "reserve_region reg b = do {
     kassert (r_start reg \<le> r_end reg);
     if r_start reg = r_end reg then Some (True, b) else reserve_loop reg 0 b
   }"

declare shift_down.simps [simp del] merge_loop.simps [simp del] shift_up.simps [simp del] reserve_loop.simps [simp del]

section \<open>Free regions\<close>

function insert_loop :: "region \<Rightarrow> nat \<Rightarrow> boot_state \<Rightarrow> (bool \<times> boot_state) option" where
  "insert_loop reg i b = (if i < length (freemem b) then
     if is_empty (freemem b ! i) then do {
       (_, b) \<leftarrow> reserve_region (to_pregion reg) b;
       Some (True, b\<lparr>freemem := (freemem b)[i := reg]\<rparr>)
     } else insert_loop reg (i + 1) b
   else None)"
  by pat_completeness auto
termination by (relation "measure (\<lambda>(reg, i, b). length (freemem b) - i)") auto

text \<open>With no empty entry left the code reaches \<^verbatim>\<open>assert!(false)\<close>.\<close>

definition insert_region :: "region \<Rightarrow> boot_state \<Rightarrow> (bool \<times> boot_state) option" where
  "insert_region reg b = do {
     kassert (r_start reg \<le> r_end reg);
     if is_empty reg then Some (True, b) else insert_loop reg 0 b
   }"

declare insert_loop.simps [simp del]

definition ceiling_kernel_window :: "word64 \<Rightarrow> word64" where
  "ceiling_kernel_window p = (if to_paddr p > PADDR_TOP then PPTR_TOP else p)"

definition pptr_in_kernel_window :: "word64 \<Rightarrow> bool" where
  "pptr_in_kernel_window pptr \<longleftrightarrow> pptr \<ge> PPTR_BASE \<and> pptr < PPTR_TOP"

text \<open>
  The array of available regions that the platform hands over is the list \<open>available\<close>; its length is
  \<open>n_available\<close>.  A region in the wrong order is only logged.
\<close>

fun check_available_loop :: "region list \<Rightarrow> bool" where
  "check_available_loop [] = True"
| "check_available_loop (r # rs) =
    (if r_start r > r_end r then False
     else if r_start r = r_end r then False
     else check_available_loop rs)"

definition check_available_memory :: "region list \<Rightarrow> bool" where
  "check_available_memory available = (if available = [] then False else check_available_loop available)"

function check_reserved_loop :: "nat \<Rightarrow> region \<Rightarrow> nat \<Rightarrow> region list \<Rightarrow> bool option" where
  "check_reserved_loop i lst n_reserved res = (if i < n_reserved then do {
     r \<leftarrow> nth_opt res i;
     if r_start r > r_end r then Some False
     else if i > 0 \<and> r_start r < r_end lst then Some False
     else check_reserved_loop (i + 1) r n_reserved res
   } else Some True)"
  by pat_completeness auto
termination by (relation "measure (\<lambda>(i, lst, n, res). n - i)") auto

definition check_reserved_memory :: "nat \<Rightarrow> region list \<Rightarrow> bool option" where
  "check_reserved_memory n_reserved res = do {
     lst \<leftarrow> nth_opt res 0;
     check_reserved_loop 0 lst n_reserved res
   }"

text \<open>The available regions as kernel addresses, trimmed to the kernel window.\<close>

definition trim_region :: "region \<Rightarrow> region" where
  "trim_region p = (let r = to_region p in
     \<lparr> r_start = ceiling_kernel_window (r_start r), r_end = ceiling_kernel_window (r_end r) \<rparr>)"

fun load_available :: "nat \<Rightarrow> region list \<Rightarrow> region list \<Rightarrow> region list option" where
  "load_available i [] av = Some av"
| "load_available i (p # ps) av = do {
     av \<leftarrow> upd_nth av i (trim_region p);
     load_available (i + 1) ps av
   }"

text \<open>
  The sweep over both lists.  It returns the positions at which it stopped; the results of \<open>reserve_region\<close> and
  \<open>insert_region\<close> are ignored as in the code.
\<close>

function freemem_loop :: "nat \<Rightarrow> nat \<Rightarrow> region list \<Rightarrow> nat \<Rightarrow> nat \<Rightarrow> boot_state \<Rightarrow> (nat \<times> nat \<times> boot_state) option" where
  "freemem_loop n_available n_reserved res a r b =
    (if a < n_available \<and> r < n_reserved then do {
       rr \<leftarrow> nth_opt res r;
       if r_start rr = r_end rr then freemem_loop n_available n_reserved res a (r + 1) b
       else do {
         av \<leftarrow> nth_opt (avail_reg b) a;
         if r_start av \<ge> r_end av then freemem_loop n_available n_reserved res (a + 1) r b
         else if r_end rr \<le> r_start av then do {
           (_, b) \<leftarrow> reserve_region (to_pregion rr) b;
           freemem_loop n_available n_reserved res a (r + 1) b
         } else if r_start rr \<ge> r_end av then do {
           (_, b) \<leftarrow> insert_region av b;
           freemem_loop n_available n_reserved res (a + 1) r b
         } else if r_start rr \<le> r_start av then do {
           let start = (if r_end av < r_end rr then r_end av else r_end rr);
           avs \<leftarrow> upd_nth (avail_reg b) a (av\<lparr>r_start := start\<rparr>);
           (_, b) \<leftarrow> reserve_region (to_pregion rr) (b\<lparr>avail_reg := avs\<rparr>);
           freemem_loop n_available n_reserved res a (r + 1) b
         } else do {
           kassert (r_start rr < r_end av);
           (_, b) \<leftarrow> insert_region (av\<lparr>r_end := r_start rr\<rparr>) b;
           if r_end av > r_end rr then do {
             avs \<leftarrow> upd_nth (avail_reg b) a (av\<lparr>r_start := r_end rr\<rparr>);
             (_, b) \<leftarrow> reserve_region (to_pregion rr) (b\<lparr>avail_reg := avs\<rparr>);
             freemem_loop n_available n_reserved res a (r + 1) b
           } else freemem_loop n_available n_reserved res (a + 1) r b
         }
       }
     } else Some (a, r, b))"
  by pat_completeness auto
termination by (relation "measure (\<lambda>(na, nr, res, a, r, b). (na - a) + (nr - r))") auto

function reserve_rest :: "nat \<Rightarrow> region list \<Rightarrow> nat \<Rightarrow> boot_state \<Rightarrow> boot_state option" where
  "reserve_rest n_reserved res r b = (if r < n_reserved then do {
     rr \<leftarrow> nth_opt res r;
     b \<leftarrow> (if r_start rr < r_end rr then map_option snd (reserve_region (to_pregion rr) b) else Some b);
     reserve_rest n_reserved res (r + 1) b
   } else Some b)"
  by pat_completeness auto
termination by (relation "measure (\<lambda>(nr, res, r, b). nr - r)") auto

function insert_rest :: "nat \<Rightarrow> nat \<Rightarrow> boot_state \<Rightarrow> boot_state option" where
  "insert_rest n_available a b = (if a < n_available then do {
     av \<leftarrow> nth_opt (avail_reg b) a;
     b \<leftarrow> (if r_start av < r_end av then map_option snd (insert_region av b) else Some b);
     insert_rest n_available (a + 1) b
   } else Some b)"
  by pat_completeness auto
termination by (relation "measure (\<lambda>(na, a, b). na - a)") auto

declare check_reserved_loop.simps [simp del] freemem_loop.simps [simp del] reserve_rest.simps [simp del]
  insert_rest.simps [simp del]

definition rust_init_freemem :: "region list \<Rightarrow> nat \<Rightarrow> region list \<Rightarrow> boot_state \<Rightarrow> (bool \<times> boot_state) option" where
  "rust_init_freemem available n_reserved res b =
    (if \<not> check_available_memory available then Some (False, b)
     else do {
       ok \<leftarrow> check_reserved_memory n_reserved res;
       if \<not> ok then Some (False, b)
       else do {
         let b = b\<lparr>freemem := replicate (length (freemem b)) region_empty\<rparr>;
         avs \<leftarrow> load_available 0 available (avail_reg b);
         (a, r, b) \<leftarrow> freemem_loop (length available) n_reserved res 0 0 (b\<lparr>avail_reg := avs\<rparr>);
         b \<leftarrow> reserve_rest n_reserved res r b;
         b \<leftarrow> insert_rest (length available) a b;
         lst \<leftarrow> nth_opt (freemem b) (length (freemem b) - 1);
         Some (is_empty lst, b)
       }
     })"

section \<open>Slots of the root CNode\<close>

definition write_slot :: "ptr \<Rightarrow> cap \<Rightarrow> kstate \<Rightarrow> kstate" where
  "write_slot p c s = s\<lparr>ks_ctes := (ks_ctes s)(p := \<lparr> capability = c,
     cteMDBNode = \<lparr> mdbNext = 0, mdbRevocable = True, mdbFirstBadged = True, mdbPrev = 0 \<rparr> \<rparr>)\<rparr>"

definition provide_cap :: "cap \<Rightarrow> cap \<Rightarrow> boot_state \<Rightarrow> bool \<times> boot_state" where
  "provide_cap root_cnode_cap c b =
    (if slot_pos_cur b \<ge> bit_mac CONFIG_ROOT_CNODE_SIZE_BITS then (False, b)
     else (True, b\<lparr>boot_ks := write_slot (capCNodePtr root_cnode_cap + 32 * slot_pos_cur b) c (boot_ks b),
             slot_pos_cur := slot_pos_cur b + 1\<rparr>))"

section \<open>Untyped capabilities for the initial thread\<close>

definition trailing_zeros :: "word64 \<Rightarrow> word64" where
  "trailing_zeros w = of_nat (length (takeWhile (\<lambda>i. \<not> bit w i) [0 ..< 64]))"

definition provide_untyped_cap ::
  "cap \<Rightarrow> bool \<Rightarrow> word64 \<Rightarrow> word64 \<Rightarrow> word64 \<Rightarrow> boot_state \<Rightarrow> (bool \<times> boot_state) option" where
  "provide_untyped_cap root_cnode_cap device_memory pptr size_bits first_untyped_slot b =
    (if size_bits > MAX_UNTYPED_BITS \<or> size_bits < SEL4_MIN_UNTYPED_BITS then Some (False, b)
     else if \<not> is_aligned pptr size_bits then Some (False, b)
     else if \<not> device_memory \<and> \<not> pptr_in_kernel_window pptr then Some (False, b)
     else if \<not> device_memory \<and> \<not> pptr_in_kernel_window (pptr + mask_bits size_bits) then Some (False, b)
     else
       let i = slot_pos_cur b - first_untyped_slot in
       if i < CONFIG_MAX_NUM_BOOTINFO_UNTYPED_CAPS then do {
         bi \<leftarrow> bi_frame b;
         uds \<leftarrow> update_checked (untypedList bi) i
           \<lparr> ud_paddr = to_paddr pptr, ud_sizeBits = ucast size_bits, ud_isDevice = device_memory \<rparr>;
         let ut_cap = cap_untyped_cap (ucast (max_free_index size_bits)) device_memory (ucast size_bits) pptr;
         Some (provide_cap root_cnode_cap ut_cap (b\<lparr>bi_frame := Some (bi\<lparr>untypedList := uds\<rparr>)\<rparr>))
       } else Some (True, b))"

text \<open>The size of the next piece: limited by the length of the region, the largest untyped size and the alignment.\<close>

definition next_size_bits :: "region \<Rightarrow> word64" where
  "next_size_bits reg =
    (let size_bits = WORD_BITS - 1 - leading_zeros (r_end reg - r_start reg);
         size_bits = (if size_bits > MAX_UNTYPED_BITS then MAX_UNTYPED_BITS else size_bits);
         align_bits = trailing_zeros (r_start reg) in
     if r_start reg \<noteq> 0 \<and> size_bits > align_bits then align_bits else size_bits)"

lemma trailing_zeros_lsb:
  assumes "w \<noteq> 0"
  shows "\<exists>m < 64. trailing_zeros w = of_nat m \<and> 2 ^ m dvd unat w \<and> bit w m"
proof -
  let ?n = "length (takeWhile (\<lambda>i. \<not> bit w i) [0 ..< 64])"
  obtain j where j: "bit w j" using assms by (metis bit_eqI bit_0_eq bot_apply bot_bool_def)
  have j64: "j < 64" using j bit_imp_le_length [of w j] by simp
  have "?n \<noteq> 64"
  proof
    assume "?n = 64"
    then have "takeWhile (\<lambda>i. \<not> bit w i) [0 ..< 64] = [0 ..< 64]"
      by (metis length_upt minus_nat.diff_0 takeWhile_eq_take take_all_iff le_refl)
    then have "\<forall>i \<in> set [0 ..< 64]. \<not> bit w i" by (simp only: takeWhile_eq_all_conv)
    with j j64 show False by simp
  qed
  moreover have "?n \<le> length [0 ..< 64::nat]" by (rule length_takeWhile_le)
  ultimately have n: "?n < 64" by simp
  have "\<not> bit w i" if "i < ?n" for i
  proof -
    have "takeWhile (\<lambda>i. \<not> bit w i) [0 ..< 64] ! i = i"
      using that n by (simp add: takeWhile_nth)
    with that show ?thesis by (metis nth_mem set_takeWhileD)
  qed
  then have "take_bit ?n w = 0" by (intro bit_eqI) (auto simp: bit_take_bit_iff)
  then have "take_bit ?n (unat w) = 0" by (metis unsigned_take_bit_eq unsigned_0)
  then have "2 ^ ?n dvd unat w" by (simp add: take_bit_eq_mod mod_eq_0_iff_dvd)
  moreover have "bit w ?n"
  proof -
    have "?n < length [0 ..< 64::nat]" using n by simp
    from nth_length_takeWhile [OF this] show ?thesis using n by simp
  qed
  ultimately show ?thesis using n unfolding trailing_zeros_def by blast
qed

lemma bit_imp_exp_le: "bit w m \<Longrightarrow> (2::nat) ^ m \<le> unat (w :: word64)"
proof -
  assume "bit w m"
  then have "bit (unat w) m" by (simp add: bit_unsigned_iff bit_imp_le_length)
  then show ?thesis by (metis bit_iff_odd div_less dvd_0_right not_le)
qed

lemma next_size_bits_le:
  assumes "r_start reg \<noteq> r_end reg"
  shows "\<exists>k \<le> 47. next_size_bits reg = of_nat k \<and> (2::nat) ^ k \<le> unat (r_end reg - r_start reg) \<and>
    2 ^ k dvd unat (r_start reg) \<and> (16 dvd unat (r_start reg) \<and> 16 \<le> unat (r_end reg - r_start reg) \<longrightarrow> 4 \<le> k)"
proof -
  let ?d = "r_end reg - r_start reg"
  have "?d \<noteq> 0" using assms by simp
  then obtain m where m: "m < 64" "WORD_BITS - 1 - leading_zeros ?d = of_nat m" "bit ?d m" "\<forall>j > m. \<not> bit ?d j"
    using leading_zeros_msb [of ?d] by blast
  have lt: "(of_nat i < (of_nat j :: word64)) = (i < j)" if "i < 64" "j < 64" for i j
    using that by (simp add: word_less_nat_alt unsigned_of_nat take_bit_nat_eq_self)
  define k0 where "k0 = min m 47"
  have k0: "(if of_nat m > MAX_UNTYPED_BITS then MAX_UNTYPED_BITS else of_nat m) = (of_nat k0 :: word64)" "k0 \<le> 47" "k0 \<le> m"
    using lt [of 47 m] m(1) by (auto simp: MAX_UNTYPED_BITS_def k0_def min_def)
  have "(2::nat) ^ m \<le> unat ?d" by (rule bit_imp_exp_le) (rule m)
  then have d: "(2::nat) ^ k \<le> unat ?d" if "k \<le> m" for k
    using that by (meson le_trans one_le_numeral power_increasing)
  have m4: "4 \<le> m" if "16 \<le> unat ?d"
  proof (rule ccontr)
    assume m3: "\<not> 4 \<le> m"
    have "n < 4" if "bit ?d n" for n
    proof -
      have "\<not> m < n" using m(4) that by blast
      then show ?thesis using m3 by linarith
    qed
    then have "take_bit 4 ?d = ?d" by (intro bit_eqI) (auto simp: bit_take_bit_iff)
    then have "take_bit 4 (unat ?d) = unat ?d" by (metis unsigned_take_bit_eq)
    moreover have "take_bit 4 (unat ?d) < 2 ^ 4" by (rule take_bit_nat_less_exp)
    ultimately show False using that by simp
  qed
  show ?thesis
  proof (cases "r_start reg = 0")
    case True
    then have "next_size_bits reg = of_nat k0" unfolding next_size_bits_def m(2) Let_def k0(1) by simp
    with True k0 d m4 show ?thesis by (intro exI [of _ k0]) (auto simp: k0_def)
  next
    case False
    obtain t where t: "t < 64" "trailing_zeros (r_start reg) = of_nat t" "2 ^ t dvd unat (r_start reg)" "bit (r_start reg) t"
      using trailing_zeros_lsb [OF False] by blast
    have t4: "4 \<le> t" if "16 dvd unat (r_start reg)"
    proof (rule ccontr)
      assume "\<not> 4 \<le> t"
      moreover have "take_bit 4 (unat (r_start reg)) = 0" using that by (simp add: take_bit_eq_mod mod_eq_0_iff_dvd)
      then have "take_bit 4 (r_start reg) = 0" by (metis unsigned_take_bit_eq unat_eq_zero)
      ultimately show False using t(4) by (metis bit_0_eq bit_take_bit_iff bot_apply bot_bool_def not_le)
    qed
    have "next_size_bits reg = of_nat (min k0 t)"
      unfolding next_size_bits_def m(2) Let_def k0(1) t(2) using lt [of t k0] t(1) k0(2) False by (auto simp: min_def)
    moreover have "(2::nat) ^ min k0 t dvd unat (r_start reg)"
      using t(3) by (meson dvd_trans le_imp_power_dvd min.cobounded2)
    ultimately show ?thesis using k0 d [of "min k0 t"] m4 t4 by (intro exI [of _ "min k0 t"]) (auto simp: k0_def)
  qed
qed

lemma next_size_bits_decr:
  assumes "r_start reg \<noteq> r_end reg"
  shows "unat (r_end reg - (r_start reg + bit_mac (next_size_bits reg))) < unat (r_end reg - r_start reg)"
proof -
  obtain k where k: "k \<le> 47" "next_size_bits reg = of_nat k" "(2::nat) ^ k \<le> unat (r_end reg - r_start reg)"
    using next_size_bits_le [OF assms] by blast
  have "unat (bit_mac (of_nat k)) = 2 ^ k"
    using k(1) by (subst unat_bit_mac) (simp_all add: unsigned_of_nat take_bit_nat_eq_self)
  moreover have "r_end reg - (r_start reg + bit_mac (of_nat k)) = (r_end reg - r_start reg) - bit_mac (of_nat k)" by simp
  ultimately have "unat (r_end reg - (r_start reg + bit_mac (of_nat k))) = unat (r_end reg - r_start reg) - 2 ^ k"
    using k(3) by (simp only: unat_sub_if_size word_le_nat_alt) simp
  then show ?thesis unfolding k(2) using k(3) by (metis diff_less le_trans less_eq_nat.simps(1) not_le zero_less_numeral zero_less_power less_le_trans)
qed

function create_untypeds_for_region ::
  "cap \<Rightarrow> bool \<Rightarrow> region \<Rightarrow> word64 \<Rightarrow> boot_state \<Rightarrow> (bool \<times> boot_state) option" where
  "create_untypeds_for_region root_cnode_cap device_memory reg first_untyped_slot b =
    (if is_empty reg then Some (True, b)
     else do {
       let size_bits = next_size_bits reg;
       (ok, b) \<leftarrow> (if size_bits \<ge> SEL4_MIN_UNTYPED_BITS
         then provide_untyped_cap root_cnode_cap device_memory (r_start reg) size_bits first_untyped_slot b
         else Some (True, b));
       if \<not> ok then Some (False, b)
       else create_untypeds_for_region root_cnode_cap device_memory
         (reg\<lparr>r_start := r_start reg + bit_mac size_bits\<rparr>) first_untyped_slot b
     })"
  by pat_completeness auto
termination
  by (relation "measure (\<lambda>(c, d, reg, f, b). unat (r_end reg - r_start reg))")
    (auto simp: is_empty_def next_size_bits_decr)

declare create_untypeds_for_region.simps [simp del]

fun create_device_untypeds ::
  "cap \<Rightarrow> word64 \<Rightarrow> nat list \<Rightarrow> word64 \<Rightarrow> boot_state \<Rightarrow> (bool \<times> word64 \<times> boot_state) option" where
  "create_device_untypeds root_cnode_cap first_untyped_slot [] start b = Some (True, start, b)"
| "create_device_untypeds root_cnode_cap first_untyped_slot (i # is) start b = do {
     r \<leftarrow> nth_opt (reserved b) i;
     (ok, b) \<leftarrow> create_untypeds_for_region root_cnode_cap True
       (to_region \<lparr> r_start = start, r_end = r_start r \<rparr>) first_untyped_slot b;
     if \<not> ok then Some (False, start, b)
     else create_device_untypeds root_cnode_cap first_untyped_slot is (r_end r) b
   }"

text \<open>A failure for one of the free regions is logged and the loop goes on.\<close>

fun create_freemem_untypeds :: "cap \<Rightarrow> word64 \<Rightarrow> nat list \<Rightarrow> boot_state \<Rightarrow> boot_state option" where
  "create_freemem_untypeds root_cnode_cap first_untyped_slot [] b = Some b"
| "create_freemem_untypeds root_cnode_cap first_untyped_slot (i # is) b = do {
     reg \<leftarrow> nth_opt (freemem b) i;
     (_, b) \<leftarrow> create_untypeds_for_region root_cnode_cap False reg first_untyped_slot
       (b\<lparr>freemem := (freemem b)[i := region_empty]\<rparr>);
     create_freemem_untypeds root_cnode_cap first_untyped_slot is b
   }"

definition create_untypeds :: "cap \<Rightarrow> region \<Rightarrow> boot_state \<Rightarrow> (bool \<times> boot_state) option" where
  "create_untypeds root_cnode_cap boot_mem_reuse_reg b = do {
     let first_untyped_slot = slot_pos_cur b;
     (ok, start, b) \<leftarrow> create_device_untypeds root_cnode_cap first_untyped_slot [0 ..< resv_count b] 0 b;
     if \<not> ok then Some (False, b)
     else do {
       (ok, b) \<leftarrow> (if start < CONFIG_PADDR_USER_DEVICE_TOP
         then create_untypeds_for_region root_cnode_cap True
           (to_region \<lparr> r_start = start, r_end = CONFIG_PADDR_USER_DEVICE_TOP \<rparr>) first_untyped_slot b
         else Some (True, b));
       if \<not> ok then Some (False, b)
       else do {
         (ok, b) \<leftarrow> create_untypeds_for_region root_cnode_cap False boot_mem_reuse_reg first_untyped_slot b;
         if \<not> ok then Some (False, b)
         else do {
           b \<leftarrow> create_freemem_untypeds root_cnode_cap first_untyped_slot [0 ..< length (freemem b)] b;
           bi \<leftarrow> bi_frame b;
           Some (True, b\<lparr>bi_frame := Some (bi\<lparr>bi_untyped := \<lparr> sl_start = first_untyped_slot, sl_end = slot_pos_cur b \<rparr>\<rparr>)\<rparr>)
         }
       }
     }
   }"

section \<open>Sets of addresses\<close>

definition addrs :: "region \<Rightarrow> nat set" where
  "addrs r = {unat (r_start r) ..< unat (r_end r)}"

definition cover :: "region list \<Rightarrow> nat set" where
  "cover rs = (\<Union>r \<in> set rs. addrs r)"

definition ordered :: "region list \<Rightarrow> bool" where
  "ordered rs \<longleftrightarrow> sorted_wrt (\<lambda>x y. unat (r_end x) \<le> unat (r_start y)) rs \<and> (\<forall>r \<in> set rs. unat (r_start r) \<le> unat (r_end r))"

definition separated :: "region list \<Rightarrow> bool" where
  "separated rs \<longleftrightarrow> sorted_wrt (\<lambda>x y. unat (r_end x) < unat (r_start y)) rs \<and> (\<forall>r \<in> set rs. unat (r_start r) < unat (r_end r))"

lemma cover_simps [simp]:
  "cover [] = {}"
  "cover (r # rs) = addrs r \<union> cover rs"
  "cover (xs @ ys) = cover xs \<union> cover ys"
  by (simp_all add: cover_def)

lemma separated_append: "separated (xs @ ys) \<longleftrightarrow> separated xs \<and> separated ys \<and>
    (\<forall>x \<in> set xs. \<forall>y \<in> set ys. unat (r_end x) < unat (r_start y))"
  by (auto simp: separated_def sorted_wrt_append)

lemma separated_Cons: "separated (x # ys) \<longleftrightarrow> unat (r_start x) < unat (r_end x) \<and> separated ys \<and>
    (\<forall>y \<in> set ys. unat (r_end x) < unat (r_start y))"
  by (auto simp: separated_def)

lemma separated_Nil: "separated []"
  by (simp add: separated_def)

lemmas separated_simps = separated_append separated_Cons separated_Nil

section \<open>The table of reserved regions\<close>

lemma upd_nth_Some [simp]: "i < length xs \<Longrightarrow> upd_nth xs i v = Some (xs[i := v])"
  by (simp add: upd_nth_def)

lemma shift_down_take:
  assumes "1 \<le> j" "j \<le> n" "n \<le> length rs"
  shows "\<exists>rs'. shift_down j n rs = Some rs' \<and> length rs' = length rs \<and>
    take (n - 1) rs' = take (j - 1) rs @ drop j (take n rs)"
  using assms
proof (induction j n rs rule: shift_down.induct)
  case (1 j n rs)
  show ?case
  proof (cases "j < n")
    case True
    let ?rs = "rs[j - 1 := rs ! j]"
    have step: "shift_down j n rs = shift_down (j + 1) n ?rs"
      using True 1(4) by (subst shift_down.simps) simp
    have "\<exists>rs'. shift_down (j + 1) n ?rs = Some rs' \<and> length rs' = length ?rs \<and>
        take (n - 1) rs' = take (j + 1 - 1) ?rs @ drop (j + 1) (take n ?rs)"
      using True 1(2-4) by (intro 1(1)) auto
    moreover have "take j ?rs = take (j - 1) rs @ [rs ! j]"
      using 1(2,4) True by (cases j) (simp_all add: take_Suc_conv_app_nth take_update_swap list_update_append)
    moreover have "drop j (take n rs) = rs ! j # drop (j + 1) (take n ?rs)"
      using True 1(2,4) by (subst Cons_nth_drop_Suc [symmetric]) (auto simp: take_update_swap drop_update_cancel)
    ultimately show ?thesis unfolding step by auto
  next
    case False
    with 1(3) have "j = n" by simp
    with 1(2,4) show ?thesis by (subst shift_down.simps) simp
  qed
qed

lemma shift_up_take:
  assumes "i \<le> j" "j < length rs"
  shows "\<exists>rs'. shift_up i j rs = Some rs' \<and> length rs' = length rs \<and>
    take (j + 1) (rs'[i := x]) = take i rs @ x # drop i (take j rs) \<and> drop (j + 1) rs' = drop (j + 1) rs"
  using assms
proof (induction i j rs rule: shift_up.induct)
  case (1 i j rs)
  show ?case
  proof (cases "i < j")
    case True
    let ?rs = "rs[j := rs ! (j - 1)]"
    have step: "shift_up i j rs = shift_up i (j - 1) ?rs"
      using True 1(3) by (subst shift_up.simps) simp
    have "\<exists>rs'. shift_up i (j - 1) ?rs = Some rs' \<and> length rs' = length ?rs \<and>
        take (j - 1 + 1) (rs'[i := x]) = take i ?rs @ x # drop i (take (j - 1) ?rs) \<and> drop (j - 1 + 1) rs' = drop (j - 1 + 1) ?rs"
      using True 1(2,3) by (intro 1(1)) auto
    then obtain rs' where rs': "shift_up i (j - 1) ?rs = Some rs'" "length rs' = length rs"
      "take j (rs'[i := x]) = take i rs @ x # drop i (take (j - 1) rs)" "drop j rs' = drop j ?rs"
      using True by auto
    have d: "drop j rs' = rs ! (j - 1) # drop (j + 1) rs"
      using rs'(4) 1(3) by (subst rs'(4), subst Cons_nth_drop_Suc [symmetric]) auto
    have "take (j + 1) (rs'[i := x]) = take j (rs'[i := x]) @ [rs'[i := x] ! j]"
      using 1(3) rs'(2) by (simp add: take_Suc_conv_app_nth)
    also have "rs'[i := x] ! j = rs ! (j - 1)"
      using d True 1(3) rs'(2) by (metis (no_types, lifting) hd_drop_conv_nth list.sel(1) nth_list_update_neq nat_neq_iff)
    also have "take j (rs'[i := x]) @ [rs ! (j - 1)] = take i rs @ x # drop i (take j rs)"
    proof -
      have "take j rs = take (j - 1) rs @ [rs ! (j - 1)]"
        using True 1(3) by (metis Suc_diff_1 Suc_lessD gr_implies_not0 less_imp_diff_less neq0_conv take_Suc_conv_app_nth zero_less_diff)
      then show ?thesis unfolding rs'(3) using True 1(3) by simp
    qed
    finally have "take (j + 1) (rs'[i := x]) = take i rs @ x # drop i (take j rs)" .
    moreover have "drop (j + 1) rs' = drop (j + 1) rs"
      using d by (metis add.commute drop_drop list.sel(3) drop_Suc drop0 One_nat_def tl_drop)
    ultimately show ?thesis unfolding step using rs'(1,2) by auto
  next
    case False
    with 1(2) have "i = j" by simp
    with 1(3) show ?thesis by (subst shift_up.simps) (simp add: take_Suc_conv_app_nth)
  qed
qed

definition packed :: "region list \<Rightarrow> bool" where
  "packed rs \<longleftrightarrow> sorted_wrt (\<lambda>x y. unat (r_end x) \<le> unat (r_start y)) rs \<and> (\<forall>r \<in> set rs. unat (r_start r) < unat (r_end r))"

lemma packed_simps:
  "packed []"
  "packed (x # ys) \<longleftrightarrow> unat (r_start x) < unat (r_end x) \<and> packed ys \<and> (\<forall>y \<in> set ys. unat (r_end x) \<le> unat (r_start y))"
  "packed (xs @ ys) \<longleftrightarrow> packed xs \<and> packed ys \<and> (\<forall>x \<in> set xs. \<forall>y \<in> set ys. unat (r_end x) \<le> unat (r_start y))"
  by (auto simp: packed_def sorted_wrt_append)

lemma separated_packed: "separated rs \<Longrightarrow> packed rs"
  unfolding separated_def packed_def by (auto elim: sorted_wrt_mono_rel [rotated])

lemma take_split_pair:
  assumes "1 \<le> i" "i < n" "n \<le> length rs"
  shows "take n rs = take (i - 1) rs @ rs ! (i - 1) # rs ! i # drop (i + 1) (take n rs)"
proof -
  have "drop (i - 1) (take n rs) = rs ! (i - 1) # rs ! i # drop (i + 1) (take n rs)"
    using assms by (subst Cons_nth_drop_Suc [symmetric], simp, subst Cons_nth_drop_Suc [symmetric]) auto
  moreover have "take n rs = take (i - 1) (take n rs) @ drop (i - 1) (take n rs)" by (rule append_take_drop_id [symmetric])
  moreover have "take (i - 1) (take n rs) = take (i - 1) rs"   proof -
    have "min (i - 1) n = i - 1" using assms by simp
    then show ?thesis by (simp only: take_take)
  qed
  ultimately show ?thesis by metis
qed

lemma merge_loop_separated:
  assumes "1 \<le> i" "n \<le> length rs" "packed (take n rs)" "separated (take (min i n) rs)"
  shows "\<exists>n' rs'. merge_loop i n rs = Some (n', rs') \<and> length rs' = length rs \<and> n' \<le> n \<and>
    separated (take n' rs') \<and> cover (take n' rs') = cover (take n rs)"
  using assms
proof (induction i n rs rule: merge_loop.induct)
  case (1 i n rs)
  note prems = 1(3-6)
  show ?case
  proof (cases "i < n")
    case False
    then have "min i n = n" by simp
    with prems(4) False show ?thesis by (subst merge_loop.simps) simp
  next
    case True
    define p r xs ys where "p = rs ! (i - 1)" and "r = rs ! i" and "xs = take (i - 1) rs" and "ys = drop (i + 1) (take n rs)"
    have split: "take n rs = xs @ p # r # ys"
      unfolding p_def r_def xs_def ys_def using prems(1,2) True by (intro take_split_pair)
    have i: "take i rs = xs @ [p]"
      unfolding xs_def p_def using True prems(1,2) by (cases i) (simp_all add: take_Suc_conv_app_nth)
    have sep: "separated (xs @ [p])" using prems(4) True by (simp add: i)
    have pk: "packed (xs @ p # r # ys)" using prems(3) by (simp add: split)
    have ip: "i - 1 < length rs" "i < length rs" using True prems(2) by auto
    show ?thesis
    proof (cases "r_end p = r_start r")
      case eq: True
      define q where "q = p\<lparr>r_end := r_end r\<rparr>"
      define rs1 where "rs1 = rs[i - 1 := q]"
      have q: "r_start q = r_start p" "r_end q = r_end r" "addrs q = addrs p \<union> addrs r"
        using pk eq by (auto simp: q_def addrs_def packed_simps)
      obtain rs2 where rs2: "shift_down (i + 1) n rs1 = Some rs2" "length rs2 = length rs"
        "take (n - 1) rs2 = take i rs1 @ drop (i + 1) (take n rs1)"
        using shift_down_take [of "i + 1" n rs1] True prems(2) by (auto simp: rs1_def)
      have "take i rs1 = xs @ [q]"
        unfolding rs1_def xs_def using True prems(1,2) by (cases i) (simp_all add: take_Suc_conv_app_nth list_update_append)
      moreover have "drop (i + 1) (take n rs1) = ys"
        unfolding rs1_def ys_def by (simp add: take_update_swap drop_update_cancel)
      ultimately have t: "take (n - 1) rs2 = xs @ q # ys" using rs2(3) by simp
      have step: "merge_loop i n rs = merge_loop i (n - 1) rs2"
        using True ip eq rs2(1) by (subst merge_loop.simps) (simp add: p_def r_def q_def rs1_def)
      have len: "length xs = i - 1" using prems(2) True by (simp add: xs_def)
      have "take (min i (n - 1)) rs2 = xs @ [q]"
      proof -
        have "take (min i (n - 1)) rs2 = take i (take (n - 1) rs2)" by simp
        also have "\<dots> = xs @ [q]" unfolding t using prems(1) len by (cases i) simp_all
        finally show ?thesis .
      qed
      moreover have "separated (xs @ [q])" using sep pk q by (auto simp: separated_simps packed_simps)
      moreover have "packed (xs @ q # ys)" using pk q eq by (force simp: packed_simps)
      ultimately have "\<exists>n' rs'. merge_loop i (n - 1) rs2 = Some (n', rs') \<and> length rs' = length rs2 \<and> n' \<le> n - 1 \<and>
          separated (take n' rs') \<and> cover (take n' rs') = cover (take (n - 1) rs2)"
        using True ip eq rs2(1,2) prems t by (intro 1(1)) (auto simp: p_def r_def q_def rs1_def)
      moreover have "cover (take (n - 1) rs2) = cover (take n rs)" unfolding t split using q(3) by auto
      ultimately show ?thesis unfolding step using rs2(2) by (auto intro: le_trans [OF _ diff_le_self])
    next
      case neq: False
      have step: "merge_loop i n rs = merge_loop (i + 1) n rs"
        using True ip neq by (subst merge_loop.simps) (simp add: p_def r_def)
      have lt: "unat (r_end p) < unat (r_start r)"
        using pk neq by (auto simp: packed_simps le_less unsigned_word_eqI)
      have "take (i + 1) rs = xs @ [p, r]" using ip i by (simp add: take_Suc_conv_app_nth r_def)
      moreover have "separated (xs @ [p, r])"
      proof -
        have "unat (r_end x) < unat (r_start r)" if "x \<in> set xs" for x
          using that sep lt by (auto simp: separated_simps intro: less_trans)
        then show ?thesis using sep pk lt by (auto simp: separated_simps packed_simps)
      qed
      ultimately have "\<exists>n' rs'. merge_loop (i + 1) n rs = Some (n', rs') \<and> length rs' = length rs \<and> n' \<le> n \<and>
          separated (take n' rs') \<and> cover (take n' rs') = cover (take n rs)"
        using True ip neq prems by (intro 1(2)) (auto simp: p_def r_def)
      then show ?thesis unfolding step .
    qed
  qed
qed

definition resv_table :: "boot_state \<Rightarrow> region list" where
  "resv_table b = take (resv_count b) (reserved b)"

definition resv_wf :: "boot_state \<Rightarrow> bool" where
  "resv_wf b \<longleftrightarrow> length (reserved b) = MAX_NUM_RESV_REG \<and> resv_count b < MAX_NUM_RESV_REG \<and> separated (resv_table b)"

lemma merge_regions_ok:
  assumes "length (reserved b) = MAX_NUM_RESV_REG" "resv_count b < MAX_NUM_RESV_REG" "packed (resv_table b)"
  shows "\<exists>b' rs n. merge_regions b = Some b' \<and> b' = b\<lparr>reserved := rs, resv_count := n\<rparr> \<and> resv_wf b' \<and>
    cover (resv_table b') = cover (resv_table b)"
proof -
  have "separated (take (min 1 (resv_count b)) (reserved b))"
  proof -
    have "take (min 1 (resv_count b)) (reserved b) = take 1 (resv_table b)" by (simp add: resv_table_def)
    then show ?thesis using assms(3) by (cases "resv_table b") (auto simp: packed_simps separated_simps)
  qed
  with assms obtain n rs where m: "merge_loop 1 (resv_count b) (reserved b) = Some (n, rs)"
    "length rs = MAX_NUM_RESV_REG" "n \<le> resv_count b" "separated (take n rs)" "cover (take n rs) = cover (resv_table b)"
    using merge_loop_separated [of 1 "resv_count b" "reserved b"] by (auto simp: resv_table_def)
  define b' where "b' = b\<lparr>reserved := rs, resv_count := n\<rparr>"
  have "merge_regions b = Some b'" using m(1) by (simp add: merge_regions_def b'_def)
  moreover have "resv_wf b'" "cover (resv_table b') = cover (resv_table b)"
    using m assms(2) by (simp_all add: resv_wf_def resv_table_def b'_def)
  ultimately show ?thesis using b'_def by blast
qed

lemma disjoint_addrs:
  assumes "addrs reg \<inter> addrs x = {}" "unat (r_start reg) < unat (r_end reg)" "unat (r_start x) < unat (r_end x)"
  shows "unat (r_end x) \<le> unat (r_start reg) \<or> unat (r_end reg) \<le> unat (r_start x)"
proof (rule ccontr)
  assume "\<not> ?thesis"
  then have "max (unat (r_start reg)) (unat (r_start x)) \<in> addrs reg \<inter> addrs x"
    using assms(2,3) by (auto simp: addrs_def)
  with assms(1) show False by blast
qed

lemma unat_eq [simp]: "(unat x = unat y) = (x = (y :: word64))"
  by (auto simp: unsigned_word_eqI)

lemma table_split:
  assumes "i < resv_count b" "resv_count b \<le> length (reserved b)"
  shows "resv_table b = take i (resv_table b) @ reserved b ! i # drop (i + 1) (resv_table b)"
  using assms by (subst id_take_nth_drop [of i]) (simp_all add: resv_table_def)

lemma table_update:
  assumes "i < resv_count b" "resv_count b \<le> length (reserved b)"
  shows "resv_table (b\<lparr>reserved := (reserved b)[i := v]\<rparr>) = take i (resv_table b) @ v # drop (i + 1) (resv_table b)"
proof -
  have "resv_table (b\<lparr>reserved := (reserved b)[i := v]\<rparr>) = (resv_table b)[i := v]"
    by (simp add: resv_table_def take_update_swap)
  moreover have "i < length (resv_table b)" using assms by (simp add: resv_table_def)
  ultimately show ?thesis by (simp add: upd_conv_take_nth_drop)
qed

text \<open>What one run of the loop does, for a region that overlaps no entry of the table.\<close>

definition reserves :: "region \<Rightarrow> boot_state \<Rightarrow> (bool \<times> boot_state) option \<Rightarrow> bool" where
  "reserves reg b result \<longleftrightarrow> (\<exists>ok b' rs n. result = Some (ok, b') \<and> b' = b\<lparr>reserved := rs, resv_count := n\<rparr> \<and>
     resv_wf b' \<and> cover (resv_table b') = cover (resv_table b) \<union> (if ok then addrs reg else {}) \<and>
     (ok \<or> resv_count b + 1 = MAX_NUM_RESV_REG))"

lemma reserves_merge:
  assumes wf: "resv_wf b" and i: "i < resv_count b" and r: "resv_table b = xs @ reserved b ! i # ys"
    "length xs = i" and pk: "packed (xs @ v # ys)" and v: "addrs v = addrs (reserved b ! i) \<union> addrs reg"
  shows "reserves reg b (do { b \<leftarrow> merge_regions (b\<lparr>reserved := (reserved b)[i := v]\<rparr>); Some (True, b) })"
proof -
  let ?b = "b\<lparr>reserved := (reserved b)[i := v]\<rparr>"
  have len: "length (reserved b) = MAX_NUM_RESV_REG" "resv_count b < MAX_NUM_RESV_REG" using wf by (simp_all add: resv_wf_def)
  have t: "resv_table ?b = xs @ v # ys"
    using table_update [of i b v] i len r by simp
  obtain b' rs n where m: "merge_regions ?b = Some b'" "b' = ?b\<lparr>reserved := rs, resv_count := n\<rparr>" "resv_wf b'"
    "cover (resv_table b') = cover (xs @ v # ys)"
    using merge_regions_ok [of ?b] len pk t by auto
  have "cover (xs @ v # ys) = cover (resv_table b) \<union> addrs reg" unfolding r(1) using v by auto
  with m show ?thesis unfolding reserves_def by (intro exI [of _ True] exI [of _ b'] exI [of _ rs] exI [of _ n]) simp
qed

lemma reserves_insert:
  assumes wf: "resv_wf b" and i: "i \<le> resv_count b" and full: "resv_count b + 1 \<noteq> MAX_NUM_RESV_REG"
    and sep: "separated (take i (resv_table b) @ reg # drop i (resv_table b))"
    and rs: "length rs = length (reserved b)" "take (resv_count b + 1) rs = take i (resv_table b) @ reg # drop i (resv_table b)"
  shows "reserves reg b (Some (True, b\<lparr>reserved := rs, resv_count := resv_count b + 1\<rparr>))"
proof -
  have "cover (take i (resv_table b) @ reg # drop i (resv_table b)) = cover (take i (resv_table b) @ drop i (resv_table b)) \<union> addrs reg"
    by (simp only: cover_simps) blast
  then have c: "cover (take i (resv_table b) @ reg # drop i (resv_table b)) = cover (resv_table b) \<union> addrs reg" by simp
  let ?b = "b\<lparr>reserved := rs, resv_count := resv_count b + 1\<rparr>"
  have t: "resv_table ?b = take i (resv_table b) @ reg # drop i (resv_table b)" using rs by (simp add: resv_table_def)
  have "resv_wf ?b" using wf full sep rs(1) unfolding resv_wf_def t by (simp add: MAX_NUM_RESV_REG_def)
  with c t show ?thesis unfolding reserves_def
    by (intro exI [of _ True] exI [of _ ?b] exI [of _ rs] exI [of _ "resv_count b + 1"]) simp
qed

lemma reserve_loop_ok:
  assumes "resv_wf b" "i \<le> resv_count b" "unat (r_start reg) < unat (r_end reg)" "addrs reg \<inter> cover (resv_table b) = {}"
    "\<forall>x \<in> set (take i (resv_table b)). unat (r_end x) < unat (r_start reg)"
  shows "reserves reg b (reserve_loop reg i b)"
  using assms
proof (induction reg i b rule: reserve_loop.induct)
  case (1 reg i b)
  note wf = 1(2) and i = 1(3) and ne = 1(4) and dis = 1(5) and pre = 1(6)
  have len: "length (reserved b) = MAX_NUM_RESV_REG" "resv_count b < MAX_NUM_RESV_REG" "separated (resv_table b)"
    using wf by (simp_all add: resv_wf_def)
  show ?case
  proof (cases "i < resv_count b")
    case False
    with i have i: "i = resv_count b" by simp
    have full: "take i (resv_table b) = resv_table b" "drop i (resv_table b) = []" using i len by (simp_all add: resv_table_def)
    show ?thesis
    proof (cases "i + 1 = MAX_NUM_RESV_REG")
      case True
      have "reserves reg b (Some (False, b))" unfolding reserves_def using wf True i
        by (intro exI [of _ False] exI [of _ b] exI [of _ "reserved b"] exI [of _ "resv_count b"]) simp
      then show ?thesis using False True by (subst reserve_loop.simps) simp
    next
      case F: False
      have "reserves reg b (Some (True, b\<lparr>reserved := (reserved b)[i := reg], resv_count := resv_count b + 1\<rparr>))"
      proof (rule reserves_insert [OF wf, of i])
        show "separated (take i (resv_table b) @ reg # drop i (resv_table b))"
          using len(3) pre ne by (simp add: full separated_simps)
        show "take (resv_count b + 1) ((reserved b)[i := reg]) = take i (resv_table b) @ reg # drop i (resv_table b)"
          using i len unfolding full by (simp add: take_Suc_conv_app_nth resv_table_def)
      qed (use i F in auto)
      then show ?thesis using False F i len by (subst reserve_loop.simps) simp
    qed
  next
    case True
    define r xs ys where "r = reserved b ! i" and "xs = take i (resv_table b)" and "ys = drop (i + 1) (resv_table b)"
    have t: "resv_table b = xs @ r # ys" unfolding r_def xs_def ys_def using True len by (intro table_split) auto
    have lx: "length xs = i" using True len by (simp add: xs_def resv_table_def)
    have il: "i < length (reserved b)" using True len by simp
    have sep: "separated (xs @ r # ys)" using len(3) by (simp add: t)
    have pre: "\<forall>x \<in> set xs. unat (r_end x) < unat (r_start reg)" using pre by (simp add: xs_def)
    have dr: "unat (r_end r) \<le> unat (r_start reg) \<or> unat (r_end reg) \<le> unat (r_start r)"
      using dis ne sep unfolding t by (intro disjoint_addrs) (auto simp: separated_simps)
    show ?thesis
    proof (cases "r_start r = r_end reg")
      case eq: True
      let ?v = "r\<lparr>r_start := r_start reg\<rparr>"
      have "packed (xs @ ?v # ys)"
        using separated_packed [OF sep] ne pre eq by (auto simp: packed_simps intro: less_imp_le)
      moreover have "addrs ?v = addrs r \<union> addrs reg" using sep ne eq by (auto simp: addrs_def separated_simps)
      ultimately have "reserves reg b (do { b \<leftarrow> merge_regions (b\<lparr>reserved := (reserved b)[i := ?v]\<rparr>); Some (True, b) })"
        using wf True t lx by (intro reserves_merge) (auto simp: r_def)
      then show ?thesis using True il eq by (subst reserve_loop.simps) (simp add: r_def)
    next
      case neq: False
      show ?thesis
      proof (cases "r_end r = r_start reg")
        case eq: True
        let ?v = "r\<lparr>r_end := r_end reg\<rparr>"
        have ys: "unat (r_end reg) \<le> unat (r_start y)" if "y \<in> set ys" for y
        proof -
          have "unat (r_end y) \<le> unat (r_start reg) \<or> unat (r_end reg) \<le> unat (r_start y)"
            using that dis ne sep unfolding t by (intro disjoint_addrs) (auto simp: separated_simps cover_def separated_def)
          moreover have "unat (r_start reg) < unat (r_start y)" "unat (r_start y) < unat (r_end y)"
          proof -
            have s: "separated ys" "\<forall>y \<in> set ys. unat (r_end r) < unat (r_start y)" using sep by (simp_all add: separated_simps)
            then show "unat (r_start reg) < unat (r_start y)" using that eq by simp
            show "unat (r_start y) < unat (r_end y)" using that s(1) by (simp add: separated_def)
          qed
          ultimately show ?thesis by linarith
        qed
        have "packed (xs @ ?v # ys)"
          using separated_packed [OF sep] ne sep eq ys by (auto simp: packed_simps separated_simps)
        moreover have "addrs ?v = addrs r \<union> addrs reg" using sep ne eq by (auto simp: addrs_def separated_simps)
        ultimately have "reserves reg b (do { b \<leftarrow> merge_regions (b\<lparr>reserved := (reserved b)[i := ?v]\<rparr>); Some (True, b) })"
          using wf True t lx by (intro reserves_merge) (auto simp: r_def)
        then show ?thesis using True il eq neq by (subst reserve_loop.simps) (simp add: r_def)
      next
        case neq2: False
        show ?thesis
        proof (cases "r_start r > r_end reg")
          case gt: True
          then have gt': "unat (r_end reg) < unat (r_start r)" by (simp add: word_less_nat_alt)
          have d: "drop i (resv_table b) = r # ys" using lx by (simp add: t)
          show ?thesis
          proof (cases "resv_count b + 1 \<ge> MAX_NUM_RESV_REG")
            case full: True
            have "reserves reg b (Some (False, b))" unfolding reserves_def using wf full len
              by (intro exI [of _ False] exI [of _ b] exI [of _ "reserved b"] exI [of _ "resv_count b"]) auto
            then show ?thesis using True full il neq neq2 gt by (subst reserve_loop.simps) (simp add: r_def)
          next
            case nf: False
            obtain rs where rs: "shift_up i (resv_count b) (reserved b) = Some rs" "length rs = length (reserved b)"
              "take (resv_count b + 1) (rs[i := reg]) = take i (reserved b) @ reg # drop i (take (resv_count b) (reserved b))"
              using shift_up_take [of i "resv_count b" "reserved b" reg] True len by auto
            have "reserves reg b (Some (True, b\<lparr>reserved := rs[i := reg], resv_count := resv_count b + 1\<rparr>))"
            proof (rule reserves_insert [OF wf, of i])
              show "separated (take i (resv_table b) @ reg # drop i (resv_table b))"
                unfolding d xs_def [symmetric] using sep pre gt' ne by (auto simp: separated_simps intro: less_trans)
              show "take (resv_count b + 1) (rs[i := reg]) = take i (resv_table b) @ reg # drop i (resv_table b)"
                using rs(3) True by (simp add: resv_table_def min_def)
            qed (use rs(2) nf True in auto)
            then show ?thesis using True nf il neq neq2 gt rs(1,2) by (subst reserve_loop.simps) (simp add: r_def)
          qed
        next
          case ngt: False
          then have "\<not> unat (r_end reg) < unat (r_start r)" by (simp add: word_less_nat_alt)
          with dr neq neq2 have "unat (r_end r) < unat (r_start reg)"
            by (metis le_neq_implies_less linorder_not_less unat_eq)
          moreover have "take (i + 1) (resv_table b) = xs @ [r]" using lx by (simp add: t)
          ultimately have "reserves reg b (reserve_loop reg (i + 1) b)"
            using True il neq neq2 ngt wf ne dis pre by (intro 1(1)) (auto simp: r_def)
          then show ?thesis using True il neq neq2 ngt by (subst reserve_loop.simps) (simp add: r_def)
        qed
      qed
    qed
  qed
qed

lemma reserve_region_ok:
  assumes "resv_wf b" "r_start reg \<le> r_end reg" "addrs reg \<inter> cover (resv_table b) = {}"
  shows "reserves reg b (reserve_region reg b)"
proof (cases "r_start reg = r_end reg")
  case True
  then have "reserves reg b (Some (True, b))" unfolding reserves_def using assms(1)
    by (intro exI [of _ True] exI [of _ b] exI [of _ "reserved b"] exI [of _ "resv_count b"]) (simp add: addrs_def)
  with True show ?thesis by (simp add: reserve_region_def)
next
  case False
  with assms(2) have "unat (r_start reg) < unat (r_end reg)" by (simp add: word_le_nat_alt le_neq_implies_less)
  with assms have "reserves reg b (reserve_loop reg 0 b)" by (intro reserve_loop_ok) simp_all
  with False assms(2) show ?thesis by (simp add: reserve_region_def)
qed

text \<open>
  C39: The table of reserved memory is a faithful set of addresses: reserving a region that overlaps no entry
  adds exactly its addresses and merges neighbours, so that the table stays sorted with gaps between its
  entries and everything outside it can be given away as device memory; only a full table refuses, and then
  nothing changes.
\<close>

theorem reserve_region_correct:
  assumes "resv_wf b" "r_start reg \<le> r_end reg" "addrs reg \<inter> cover (resv_table b) = {}"
  shows "\<exists>ok b' rs n. reserve_region reg b = Some (ok, b') \<and> b' = b\<lparr>reserved := rs, resv_count := n\<rparr> \<and> resv_wf b' \<and>
    cover (resv_table b') = cover (resv_table b) \<union> (if ok then addrs reg else {}) \<and>
    (ok \<or> resv_count b + 1 = MAX_NUM_RESV_REG)"
  using reserve_region_ok [OF assms] unfolding reserves_def .

text \<open>The two frames of an interrupt controller, and the gap between them.\<close>

definition sample_resv :: boot_state where
  "sample_resv = (ndks_boot_init empty_kstate)\<lparr>reserved := [\<lparr> r_start = 0x8000000, r_end = 0x8001000 \<rparr>,
     \<lparr> r_start = 0x8010000, r_end = 0x8011000 \<rparr>] @ replicate 17 region_empty, resv_count := 2\<rparr>"

definition sample_gap :: region where
  "sample_gap = \<lparr> r_start = 0x8001000, r_end = 0x8010000 \<rparr>"

theorem reserve_region_correct_witness:
  "\<exists>ok b'. reserve_region sample_gap sample_resv = Some (ok, b') \<and> resv_wf b' \<and>
    cover (resv_table b') = {0x8000000 ..< 0x8001000} \<union> {0x8010000 ..< 0x8011000} \<union> {0x8001000 ..< 0x8010000}"
proof -
  have t: "resv_table sample_resv = [\<lparr> r_start = 0x8000000, r_end = 0x8001000 \<rparr>, \<lparr> r_start = 0x8010000, r_end = 0x8011000 \<rparr>]"
    by (simp add: resv_table_def sample_resv_def)
  have wf: "resv_wf sample_resv" unfolding resv_wf_def t by (simp add: boot_consts separated_simps sample_resv_def)
  have c: "cover (resv_table sample_resv) = {0x8000000 ..< 0x8001000} \<union> {0x8010000 ..< 0x8011000}"
    unfolding t by (simp add: addrs_def)
  have g: "addrs sample_gap = {0x8001000 ..< 0x8010000}" by (simp add: addrs_def sample_gap_def)
  have "addrs sample_gap \<inter> cover (resv_table sample_resv) = {}" unfolding c g by auto
  then obtain ok b' where "reserve_region sample_gap sample_resv = Some (ok, b')" "resv_wf b'"
    "cover (resv_table b') = cover (resv_table sample_resv) \<union> (if ok then addrs sample_gap else {})"
    "ok \<or> resv_count sample_resv + 1 = MAX_NUM_RESV_REG"
    using reserve_region_correct [OF wf, of sample_gap] by (auto simp: sample_gap_def)
  moreover have "resv_count sample_resv + 1 \<noteq> MAX_NUM_RESV_REG" by (simp add: sample_resv_def boot_consts)
  ultimately show ?thesis unfolding c g by auto
qed

section \<open>The sweep that finds the free memory\<close>

definition resv_ok :: "boot_state \<Rightarrow> bool" where
  "resv_ok b \<longleftrightarrow> length (reserved b) = MAX_NUM_RESV_REG \<and> resv_count b < MAX_NUM_RESV_REG"

lemma merge_loop_total:
  "1 \<le> i \<Longrightarrow> n \<le> length rs \<Longrightarrow> \<exists>n' rs'. merge_loop i n rs = Some (n', rs') \<and> length rs' = length rs \<and> n' \<le> n"
proof (induction i n rs rule: merge_loop.induct)
  case (1 i n rs)
  show ?case
  proof (cases "i < n")
    case True
    with 1(4) have i: "i - 1 < length rs" "i < length rs" by auto
    show ?thesis
    proof (cases "r_end (rs ! (i - 1)) = r_start (rs ! i)")
      case eq: True
      let ?rs = "rs[i - 1 := (rs ! (i - 1))\<lparr>r_end := r_end (rs ! i)\<rparr>]"
      obtain rs2 where rs2: "shift_down (i + 1) n ?rs = Some rs2" "length rs2 = length rs"
        using shift_down_take [of "i + 1" n ?rs] True 1(4) by auto
      have "\<exists>n' rs'. merge_loop i (n - 1) rs2 = Some (n', rs') \<and> length rs' = length rs2 \<and> n' \<le> n - 1"
        using True i eq rs2 1(3,4) by (intro 1(1)) auto
      then show ?thesis using True i eq rs2 by (subst merge_loop.simps) (auto intro: le_trans [OF _ diff_le_self])
    next
      case neq: False
      have "\<exists>n' rs'. merge_loop (i + 1) n rs = Some (n', rs') \<and> length rs' = length rs \<and> n' \<le> n"
        using True i neq 1(3,4) by (intro 1(2)) auto
      then show ?thesis using True i neq by (subst merge_loop.simps) auto
    qed
  next
    case False
    then show ?thesis by (subst merge_loop.simps) simp
  qed
qed

definition keeps_rest :: "boot_state \<Rightarrow> (bool \<times> boot_state) option \<Rightarrow> bool" where
  "keeps_rest b result \<longleftrightarrow> (\<exists>ok rs n. result = Some (ok, b\<lparr>reserved := rs, resv_count := n\<rparr>) \<and>
     length rs = MAX_NUM_RESV_REG \<and> n < MAX_NUM_RESV_REG)"

lemma merge_regions_total:
  assumes "resv_ok b" "i < resv_count b"
  shows "keeps_rest b (do { b \<leftarrow> merge_regions (b\<lparr>reserved := (reserved b)[i := v]\<rparr>); Some (True, b) })"
proof -
  obtain n rs where "merge_loop 1 (resv_count b) ((reserved b)[i := v]) = Some (n, rs)" "length rs = MAX_NUM_RESV_REG"
    "n \<le> resv_count b"
    using merge_loop_total [of 1 "resv_count b" "(reserved b)[i := v]"] assms by (auto simp: resv_ok_def)
  then show ?thesis using assms unfolding keeps_rest_def
    by (intro exI [of _ True] exI [of _ rs] exI [of _ n]) (simp add: merge_regions_def resv_ok_def)
qed

lemma keeps_restI:
  "resv_ok b \<Longrightarrow> keeps_rest b (Some (False, b))"
  "resv_ok b \<Longrightarrow> length rs = length (reserved b) \<Longrightarrow> resv_count b + 1 < MAX_NUM_RESV_REG \<Longrightarrow>
    keeps_rest b (Some (True, b\<lparr>reserved := rs, resv_count := resv_count b + 1\<rparr>))"
  unfolding keeps_rest_def resv_ok_def by (force intro: exI [of _ "reserved b"], auto)

lemma reserve_loop_total: "resv_ok b \<Longrightarrow> i \<le> resv_count b \<Longrightarrow> keeps_rest b (reserve_loop reg i b)"
proof (induction reg i b rule: reserve_loop.induct)
  case (1 reg i b)
  have len: "length (reserved b) = MAX_NUM_RESV_REG" "resv_count b < MAX_NUM_RESV_REG" using 1(2) by (simp_all add: resv_ok_def)
  show ?case
  proof (cases "i < resv_count b")
    case True
    let ?r = "reserved b ! i"
    have il: "i < length (reserved b)" using True len by simp
    obtain rs where rs: "shift_up i (resv_count b) (reserved b) = Some rs" "length rs = length (reserved b)"
      using shift_up_take [of i "resv_count b" "reserved b" reg] True len by auto
    have "keeps_rest b (reserve_loop reg (i + 1) b)"
      if "r_start ?r \<noteq> r_end reg" "r_end ?r \<noteq> r_start reg" "\<not> r_start ?r > r_end reg"
      using that True il 1(2) by (intro 1(1)) auto
    then show ?thesis
      using True il 1(2) merge_regions_total [OF 1(2) True] rs keeps_restI [OF 1(2)] by (subst reserve_loop.simps) auto
  next
    case False
    with 1(3) have "i = resv_count b" by simp
    then show ?thesis using 1(2) len keeps_restI [OF 1(2)] by (subst reserve_loop.simps) auto
  qed
qed

lemma reserve_region_total:
  assumes "resv_ok b" "r_start reg \<le> r_end reg"
  shows "\<exists>ok rs n. reserve_region reg b = Some (ok, b\<lparr>reserved := rs, resv_count := n\<rparr>) \<and>
    resv_ok (b\<lparr>reserved := rs, resv_count := n\<rparr>)"
proof (cases "r_start reg = r_end reg")
  case True
  then show ?thesis using assms by (intro exI [of _ True] exI [of _ "reserved b"] exI [of _ "resv_count b"]) (simp add: reserve_region_def)
next
  case False
  have "keeps_rest b (reserve_loop reg 0 b)" using assms(1) by (rule reserve_loop_total) simp
  with False assms(2) show ?thesis by (auto simp: keeps_rest_def reserve_region_def resv_ok_def)
qed

text \<open>The first entries of the array of free regions, followed by empty ones.\<close>

definition fm_ok :: "region list \<Rightarrow> boot_state \<Rightarrow> bool" where
  "fm_ok regs b \<longleftrightarrow> length regs \<le> MAX_NUM_FREEMEM_REG \<and>
     freemem b = regs @ replicate (MAX_NUM_FREEMEM_REG - length regs) region_empty \<and> (\<forall>r \<in> set regs. \<not> is_empty r)"

definition in_window :: "region \<Rightarrow> bool" where
  "in_window r \<longleftrightarrow> PPTR_BASE_OFFSET \<le> r_start r"

lemma to_pregion_le: "in_window r \<Longrightarrow> r_start r \<le> r_end r \<Longrightarrow> r_start (to_pregion r) \<le> r_end (to_pregion r)"
  unfolding in_window_def to_pregion_def to_paddr_def word_le_nat_alt by (simp add: unat_sub word_le_nat_alt)

lemma insert_loop_ok:
  assumes "fm_ok regs b" "length regs < MAX_NUM_FREEMEM_REG" "i \<le> length regs" "resv_ok b" "in_window reg" "r_start reg \<le> r_end reg"
  shows "\<exists>b'. insert_loop reg i b = Some (True, b') \<and> resv_ok b' \<and> avail_reg b' = avail_reg b \<and>
    freemem b' = regs @ reg # replicate (MAX_NUM_FREEMEM_REG - length regs - 1) region_empty"
  using assms
proof (induction reg i b rule: insert_loop.induct)
  case (1 reg i b)
  have fm: "freemem b = regs @ region_empty # replicate (MAX_NUM_FREEMEM_REG - length regs - 1) region_empty"
    using 1(2,3) by (simp add: fm_ok_def replicate_Suc [symmetric] del: replicate_Suc)
  have il: "i < length (freemem b)" using 1(2-4) by (simp add: fm_ok_def)
  show ?case
  proof (cases "i < length regs")
    case True
    then have "\<not> is_empty (freemem b ! i)" using 1(2) by (simp add: fm_ok_def nth_append)
    with True il show ?thesis using 1(1) [OF il] 1(2-7) by (subst insert_loop.simps) simp
  next
    case False
    with 1(4) have i: "i = length regs" by simp
    have e: "is_empty (freemem b ! i)" unfolding fm i by (simp add: is_empty_def region_empty_def)
    obtain ok rs n where r: "reserve_region (to_pregion reg) b = Some (ok, b\<lparr>reserved := rs, resv_count := n\<rparr>)"
      "resv_ok (b\<lparr>reserved := rs, resv_count := n\<rparr>)"
      using reserve_region_total [OF 1(5) to_pregion_le [OF 1(6,7)]] by blast
    show ?thesis using il e r by (subst insert_loop.simps) (simp add: fm i resv_ok_def)
  qed
qed

lemma insert_region_ok:
  assumes "fm_ok regs b" "length regs < MAX_NUM_FREEMEM_REG" "resv_ok b" "in_window reg" "unat (r_start reg) < unat (r_end reg)"
  shows "\<exists>b'. insert_region reg b = Some (True, b') \<and> resv_ok b' \<and> avail_reg b' = avail_reg b \<and> fm_ok (regs @ [reg]) b'"
proof -
  have le: "r_start reg \<le> r_end reg" and ne: "\<not> is_empty reg"
    using assms(5) by (auto simp: is_empty_def word_le_nat_alt)
  obtain b' where "insert_loop reg 0 b = Some (True, b')" "resv_ok b'" "avail_reg b' = avail_reg b"
    "freemem b' = regs @ reg # replicate (MAX_NUM_FREEMEM_REG - length regs - 1) region_empty"
    using insert_loop_ok [OF assms(1,2) _ assms(3,4) le, of 0] by auto
  then show ?thesis using assms(1,2) le ne by (auto simp: insert_region_def fm_ok_def)
qed

lemma cover_ge: "\<forall>y \<in> set A. c \<le> unat (r_start y) \<Longrightarrow> x \<in> cover A \<Longrightarrow> c \<le> x"
  by (auto simp: cover_def addrs_def intro: le_trans)

lemma ordered_simps:
  "ordered []"
  "ordered (x # ys) \<longleftrightarrow> unat (r_start x) \<le> unat (r_end x) \<and> ordered ys \<and> (\<forall>y \<in> set ys. unat (r_end x) \<le> unat (r_start y))"
  "ordered (xs @ ys) \<longleftrightarrow> ordered xs \<and> ordered ys \<and> (\<forall>x \<in> set xs. \<forall>y \<in> set ys. unat (r_end x) \<le> unat (r_start y))"
  by (auto simp: ordered_def sorted_wrt_append)

text \<open>
  A reserved region meets at most one available region: when it meets \<open>x\<close>, it ends before every later region
  \<open>y\<close> begins.
\<close>

definition meets_once :: "region \<Rightarrow> region \<Rightarrow> region \<Rightarrow> bool" where
  "meets_once z x y \<longleftrightarrow> (unat (r_start z) < unat (r_end x) \<and> unat (r_start x) < unat (r_end z) \<longrightarrow>
     unat (r_end z) \<le> unat (r_start y))"

text \<open>The regions already free, the available regions and the reserved regions still ahead of the sweep.\<close>

definition sweep :: "region list \<Rightarrow> region list \<Rightarrow> region list \<Rightarrow> bool" where
  "sweep regs A R \<longleftrightarrow> ordered (regs @ A) \<and> ordered R \<and> (\<forall>x \<in> set A. in_window x) \<and> (\<forall>z \<in> set R. in_window z) \<and>
     (\<forall>z \<in> set R. sorted_wrt (meets_once z) A) \<and> length regs + length A + length R < MAX_NUM_FREEMEM_REG"

definition result :: "region list \<Rightarrow> region list \<Rightarrow> region list \<Rightarrow> nat set" where
  "result regs A R = cover regs \<union> (cover A - cover R)"

lemma sweep_drop_reserved: "sweep regs A (z # R) \<Longrightarrow> sweep regs A R"
  by (auto simp: sweep_def ordered_simps)

lemma sweep_drop_available: "sweep regs (x # A) R \<Longrightarrow> sweep regs A R"
  by (auto simp: sweep_def ordered_simps)

lemma sweep_take_available:
  assumes "sweep regs (x # A) R"
  shows "sweep (regs @ [x]) A R"
  using assms by (auto simp: sweep_def ordered_simps)

lemma result_empty_reserved: "r_start z = r_end z \<Longrightarrow> result regs A (z # R) = result regs A R"
  by (simp add: result_def addrs_def)

lemma result_empty_available: "r_end x \<le> r_start x \<Longrightarrow> result regs (x # A) R = result regs A R"
  by (simp add: result_def addrs_def word_le_nat_alt)

lemma result_reserved_below:
  assumes "sweep regs (x # A) (z # R)" "r_end z \<le> r_start x" "r_start x < r_end x"
  shows "result regs (x # A) (z # R) = result regs (x # A) R"
proof -
  have "\<forall>y \<in> set (x # A). unat (r_end z) \<le> unat (r_start y)"
    using assms by (fastforce simp: sweep_def ordered_simps word_le_nat_alt word_less_nat_alt)
  from cover_ge [OF this] have "cover (x # A) \<inter> addrs z = {}" by (force simp: addrs_def simp del: cover_simps)
  then show ?thesis unfolding result_def by auto
qed

lemma result_reserved_above:
  assumes "sweep regs (x # A) (z # R)" "r_end x \<le> r_start z"
  shows "result regs (x # A) (z # R) = result (regs @ [x]) A (z # R)"
proof -
  have "\<forall>y \<in> set (z # R). unat (r_end x) \<le> unat (r_start y)"
    using assms by (fastforce simp: sweep_def ordered_simps word_le_nat_alt)
  from cover_ge [OF this] have "cover (z # R) \<inter> addrs x = {}" by (force simp: addrs_def simp del: cover_simps)
  then show ?thesis unfolding result_def by auto
qed

lemma sweep_move_start:
  assumes "sweep regs (x # A) (z # R)" "r_start x \<le> v" "v \<le> r_end x"
  shows "sweep regs (x\<lparr>r_start := v\<rparr> # A) R"
proof -
  have v: "unat (r_start x) \<le> unat v" "unat v \<le> unat (r_end x)" using assms(2,3) by (simp_all add: word_le_nat_alt)
  have o: "ordered (regs @ x # A)" using assms(1) by (simp add: sweep_def)
  have "ordered (regs @ x\<lparr>r_start := v\<rparr> # A)"
    using o v by (auto simp: ordered_simps intro: le_trans)
  moreover have "\<forall>y \<in> set R. sorted_wrt (meets_once y) (x\<lparr>r_start := v\<rparr> # A)"
    using assms(1) v(1) by (fastforce simp: sweep_def meets_once_def)
  moreover have "in_window (x\<lparr>r_start := v\<rparr>)"
    using assms(1,2) by (auto simp: sweep_def in_window_def intro: order_trans)
  ultimately show ?thesis using assms(1) by (auto simp: sweep_def ordered_simps)
qed

lemma result_trim_start:
  assumes s: "sweep regs (x # A) (z # R)" and o: "r_start z \<le> r_start x" "\<not> r_end z \<le> r_start x" "\<not> r_end x \<le> r_start z"
  shows "result regs (x # A) (z # R) =
    result regs (x\<lparr>r_start := (if r_end x < r_end z then r_end x else r_end z)\<rparr> # A) R"
proof -
  have o: "unat (r_start z) \<le> unat (r_start x)" "unat (r_start x) < unat (r_end z)" "unat (r_start z) < unat (r_end x)"
    using o by (simp_all add: word_le_nat_alt)
  then have "\<forall>y \<in> set A. unat (r_end z) \<le> unat (r_start y)" using s by (auto simp: sweep_def meets_once_def)
  from cover_ge [OF this] have "cover A \<inter> addrs z = {}" by (force simp: addrs_def)
  moreover have "addrs x - addrs z = addrs (x\<lparr>r_start := (if r_end x < r_end z then r_end x else r_end z)\<rparr>)"
    using o by (auto simp: addrs_def word_less_nat_alt)
  ultimately show ?thesis unfolding result_def by auto
qed

lemma result_cut:
  assumes s: "sweep regs (x # A) (z # R)" and o: "r_start x < r_start z" "r_start z < r_end x"
  shows "result regs (x # A) (z # R) = result (regs @ [x\<lparr>r_end := r_start z\<rparr>]) (x\<lparr>r_start := r_end z\<rparr> # A) (z # R)"
    "r_end z < r_end x \<Longrightarrow> result regs (x # A) (z # R) = result (regs @ [x\<lparr>r_end := r_start z\<rparr>]) (x\<lparr>r_start := r_end z\<rparr> # A) R"
    "r_end x \<le> r_end z \<Longrightarrow> result regs (x # A) (z # R) = result (regs @ [x\<lparr>r_end := r_start z\<rparr>]) A (z # R)"
proof -
  have o': "unat (r_start x) < unat (r_start z)" "unat (r_start z) < unat (r_end x)" using o by (simp_all add: word_less_nat_alt)
  have oz: "unat (r_start z) \<le> unat (r_end z)" and "\<forall>y \<in> set (z # R). unat (r_start z) \<le> unat (r_start y)"
    using s by (fastforce simp: sweep_def ordered_simps)+
  from cover_ge [OF this(2)] have "cover (z # R) \<inter> addrs (x\<lparr>r_end := r_start z\<rparr>) = {}"
    by (force simp: addrs_def simp del: cover_simps)
  moreover have x: "addrs x - addrs z = addrs (x\<lparr>r_end := r_start z\<rparr>) \<union> (addrs (x\<lparr>r_start := r_end z\<rparr>) - addrs z)"
    using o' oz by (auto simp: addrs_def)
  ultimately show *: "result regs (x # A) (z # R) = result (regs @ [x\<lparr>r_end := r_start z\<rparr>]) (x\<lparr>r_start := r_end z\<rparr> # A) (z # R)"
    unfolding result_def by auto
  show "result regs (x # A) (z # R) = result (regs @ [x\<lparr>r_end := r_start z\<rparr>]) (x\<lparr>r_start := r_end z\<rparr> # A) R" if "r_end z < r_end x"
  proof -
    have m: "\<forall>y \<in> set A. unat (r_end z) \<le> unat (r_start y)"
      using s that by (fastforce simp: sweep_def ordered_simps word_less_nat_alt)
    have "\<forall>y \<in> set (x\<lparr>r_start := r_end z\<rparr> # A). unat (r_end z) \<le> unat (r_start y)" using m by simp
    from cover_ge [OF this] have "cover (x\<lparr>r_start := r_end z\<rparr> # A) \<inter> addrs z = {}" by (force simp: addrs_def simp del: cover_simps)
    then show ?thesis unfolding * unfolding result_def by auto
  qed
  show "result regs (x # A) (z # R) = result (regs @ [x\<lparr>r_end := r_start z\<rparr>]) A (z # R)" if "r_end x \<le> r_end z"
    unfolding * using that by (simp add: result_def addrs_def word_le_nat_alt)
qed

lemma sweep_cut:
  assumes s: "sweep regs (x # A) (z # R)" and o: "r_start x < r_start z" "r_start z < r_end x"
  shows "r_end z < r_end x \<Longrightarrow> sweep (regs @ [x\<lparr>r_end := r_start z\<rparr>]) (x\<lparr>r_start := r_end z\<rparr> # A) R"
    "sweep (regs @ [x\<lparr>r_end := r_start z\<rparr>]) A (z # R)"
    "unat (r_start (x\<lparr>r_end := r_start z\<rparr>)) < unat (r_end (x\<lparr>r_end := r_start z\<rparr>))" "in_window (x\<lparr>r_end := r_start z\<rparr>)"
proof -
  have o': "unat (r_start x) < unat (r_start z)" "unat (r_start z) < unat (r_end x)" using o by (simp_all add: word_less_nat_alt)
  have oz: "unat (r_start z) \<le> unat (r_end z)" using s by (simp add: sweep_def ordered_simps)
  have ord: "ordered (regs @ x # A)" using s by (simp add: sweep_def)
  then have A: "\<forall>y \<in> set A. unat (r_start z) \<le> unat (r_start y)" using o' by (auto simp: ordered_simps intro: le_trans less_imp_le)
  show "unat (r_start (x\<lparr>r_end := r_start z\<rparr>)) < unat (r_end (x\<lparr>r_end := r_start z\<rparr>))" using o' by simp
  show "in_window (x\<lparr>r_end := r_start z\<rparr>)" using s by (simp add: sweep_def in_window_def)
  show "sweep (regs @ [x\<lparr>r_end := r_start z\<rparr>]) A (z # R)"
    using s o' A by (auto simp: sweep_def ordered_simps)
  show "sweep (regs @ [x\<lparr>r_end := r_start z\<rparr>]) (x\<lparr>r_start := r_end z\<rparr> # A) R" if "r_end z < r_end x"
  proof -
    have lt: "unat (r_end z) < unat (r_end x)" using that by (simp add: word_less_nat_alt)
    have "sweep regs (x\<lparr>r_start := r_end z\<rparr> # A) R"
    proof (rule sweep_move_start [OF s])
      show "r_start x \<le> r_end z" using o' oz by (simp add: word_le_nat_alt)
      show "r_end z \<le> r_end x" using that by simp
    qed
    moreover have "ordered ((regs @ [x\<lparr>r_end := r_start z\<rparr>]) @ x\<lparr>r_start := r_end z\<rparr> # A)"
      using ord o' oz lt A by (fastforce simp: ordered_simps)
    ultimately show ?thesis using s by (auto simp: sweep_def)
  qed
qed

definition sweeping :: "nat \<Rightarrow> nat \<Rightarrow> region list \<Rightarrow> nat \<Rightarrow> nat \<Rightarrow> region list \<Rightarrow> boot_state \<Rightarrow> bool" where
  "sweeping na nr res a r regs b \<longleftrightarrow> fm_ok regs b \<and> resv_ok b \<and> a \<le> na \<and> na \<le> length (avail_reg b) \<and> r \<le> nr \<and> nr \<le> length res \<and>
     sweep regs (drop a (take na (avail_reg b))) (drop r (take nr res))"

definition ahead :: "nat \<Rightarrow> nat \<Rightarrow> region list \<Rightarrow> nat \<Rightarrow> nat \<Rightarrow> region list \<Rightarrow> boot_state \<Rightarrow> nat set" where
  "ahead na nr res a r regs b = result regs (drop a (take na (avail_reg b))) (drop r (take nr res))"

definition sweeps_to ::
  "nat \<Rightarrow> nat \<Rightarrow> region list \<Rightarrow> nat set \<Rightarrow> (nat \<times> nat \<times> boot_state) option \<Rightarrow> bool" where
  "sweeps_to na nr res X out \<longleftrightarrow> (\<exists>a r b regs. out = Some (a, r, b) \<and> sweeping na nr res a r regs b \<and>
     (a = na \<or> r = nr) \<and> ahead na nr res a r regs b = X)"

lemma drop_take_Cons:
  "i < n \<Longrightarrow> n \<le> length xs \<Longrightarrow> drop i (take n xs) = xs ! i # drop (i + 1) (take n xs)"
  by (subst Cons_nth_drop_Suc [symmetric]) auto

lemma drop_take_update:
  "i < n \<Longrightarrow> n \<le> length xs \<Longrightarrow> drop i (take n (xs[i := v])) = v # drop (i + 1) (take n xs)"
  by (subst Cons_nth_drop_Suc [symmetric]) (auto simp: take_update_swap)

lemma reserve_region_frame:
  assumes "resv_ok b" "in_window z" "r_start z \<le> r_end z"
  shows "\<exists>ok b'. reserve_region (to_pregion z) b = Some (ok, b') \<and> resv_ok b' \<and> avail_reg b' = avail_reg b \<and> freemem b' = freemem b"
proof -
  obtain ok rs n where "reserve_region (to_pregion z) b = Some (ok, b\<lparr>reserved := rs, resv_count := n\<rparr>)"
    "resv_ok (b\<lparr>reserved := rs, resv_count := n\<rparr>)"
    using reserve_region_total [OF assms(1) to_pregion_le [OF assms(2,3)]] by blast
  then show ?thesis by simp
qed

lemma freemem_loop_ok:
  assumes "sweeping na nr res a r regs b"
  shows "sweeps_to na nr res (ahead na nr res a r regs b) (freemem_loop na nr res a r b)"
  using assms
proof (induction "(na - a) + (nr - r)" arbitrary: a r regs b rule: less_induct)
  case less
  let ?loop = "freemem_loop na nr res"
  note inv = less.prems [unfolded sweeping_def]
  show ?case
  proof (cases "a < na \<and> r < nr")
    case False
    then have "a = na \<or> r = nr" using inv by auto
    with False less.prems show ?thesis unfolding sweeps_to_def by (subst freemem_loop.simps) auto
  next
    case True
    define x z A R where "x = avail_reg b ! a" and "z = res ! r" and "A = drop (a + 1) (take na (avail_reg b))"
      and "R = drop (r + 1) (take nr res)"
    have il: "a < length (avail_reg b)" "r < length res" using True inv by auto
    have Ax: "drop a (take na (avail_reg b)) = x # A" and Rz: "drop r (take nr res) = z # R"
      unfolding x_def A_def z_def R_def using True inv by (simp_all add: drop_take_Cons)
    have s: "sweep regs (x # A) (z # R)" using inv by (simp add: Ax Rz)
    have len: "length regs < MAX_NUM_FREEMEM_REG" using s by (simp add: sweep_def)
    have fm: "fm_ok regs b" "resv_ok b" using inv by auto
    have zw: "in_window z" "r_start z \<le> r_end z" and xw: "in_window x"
      using s by (auto simp: sweep_def ordered_simps word_le_nat_alt)
    have X: "ahead na nr res a r regs b = result regs (x # A) (z # R)" by (simp add: ahead_def Ax Rz)
    have next_a: "sweeps_to na nr res (result regs' A (z # R)) (?loop (a + 1) r b')"
      if "fm_ok regs' b'" "resv_ok b'" "avail_reg b' = avail_reg b" "sweep regs' A (z # R)" for regs' b'
    proof -
      have "sweeping na nr res (a + 1) r regs' b'" using that True inv by (simp add: sweeping_def A_def Rz)
      moreover have "na - (a + 1) + (nr - r) < na - a + (nr - r)" using True by linarith
      ultimately show ?thesis using less.hyps [of "a + 1" r regs' b'] by (simp add: ahead_def A_def Rz that(3))
    qed
    have next_r: "sweeps_to na nr res (result regs' (v # A) R) (?loop a (r + 1) b')"
      if "fm_ok regs' b'" "resv_ok b'" "avail_reg b' = (avail_reg b)[a := v]" "sweep regs' (v # A) R" for regs' b' v
    proof -
      have d: "drop a (take na (avail_reg b')) = v # A" using that(3) True inv by (simp add: drop_take_update A_def)
      have "sweeping na nr res a (r + 1) regs' b'" using that True inv d by (simp add: sweeping_def R_def)
      moreover have "na - a + (nr - (r + 1)) < na - a + (nr - r)" using True by linarith
      ultimately show ?thesis using less.hyps [of a "r + 1" regs' b'] by (simp add: ahead_def d R_def)
    qed
    have same: "avail_reg b = (avail_reg b)[a := x]" using il by (simp add: x_def)
    consider (ez) "r_start z = r_end z" | (ex) "r_start z \<noteq> r_end z" "r_start x \<ge> r_end x"
      | (below) "r_start z \<noteq> r_end z" "\<not> r_start x \<ge> r_end x" "r_end z \<le> r_start x"
      | (above) "r_start z \<noteq> r_end z" "\<not> r_start x \<ge> r_end x" "\<not> r_end z \<le> r_start x" "r_start z \<ge> r_end x"
      | (left) "r_start z \<noteq> r_end z" "\<not> r_start x \<ge> r_end x" "\<not> r_end z \<le> r_start x" "\<not> r_start z \<ge> r_end x" "r_start z \<le> r_start x"
      | (inside) "r_start z \<noteq> r_end z" "\<not> r_start x \<ge> r_end x" "\<not> r_end z \<le> r_start x" "\<not> r_start z \<ge> r_end x" "\<not> r_start z \<le> r_start x"
      by blast
    then show ?thesis
    proof cases
      case ez
      have "?loop a r b = ?loop a (r + 1) b" using True il ez by (subst freemem_loop.simps) (simp add: z_def)
      with next_r [OF fm same sweep_drop_reserved [OF s]] show ?thesis by (simp add: X result_empty_reserved [OF ez])
    next
      case ex
      have "?loop a r b = ?loop (a + 1) r b" using True il ex by (subst freemem_loop.simps) (simp add: z_def x_def)
      with next_a [OF fm refl sweep_drop_available [OF s]] show ?thesis by (simp add: X result_empty_available [OF ex(2)])
    next
      case below
      obtain ok b' where b': "reserve_region (to_pregion z) b = Some (ok, b')" "resv_ok b'" "avail_reg b' = avail_reg b" "freemem b' = freemem b"
        using reserve_region_frame [OF fm(2) zw] by blast
      have "?loop a r b = ?loop a (r + 1) b'" using True il below b'(1) by (subst freemem_loop.simps) (simp add: z_def x_def)
      moreover have "sweeps_to na nr res (result regs (x # A) R) (?loop a (r + 1) b')"
        using fm(1) b' same s by (intro next_r) (auto simp: fm_ok_def intro: sweep_drop_reserved)
      moreover have "result regs (x # A) (z # R) = result regs (x # A) R" using below by (intro result_reserved_below [OF s]) auto
      ultimately show ?thesis by (simp add: X)
    next
      case above
      have "unat (r_start x) < unat (r_end x)" using above(2) by (simp add: word_le_nat_alt)
      then obtain b' where b': "insert_region x b = Some (True, b')" "resv_ok b'" "avail_reg b' = avail_reg b" "fm_ok (regs @ [x]) b'"
        using insert_region_ok [OF fm(1) len fm(2) xw] by blast
      have "?loop a r b = ?loop (a + 1) r b'" using True il above b'(1) by (subst freemem_loop.simps) (simp add: z_def x_def)
      with next_a [OF b'(4,2,3) sweep_take_available [OF s]] show ?thesis by (simp add: X result_reserved_above [OF s above(4)])
    next
      case left
      define v where "v = (if r_end x < r_end z then r_end x else r_end z)"
      have v: "r_start x \<le> v" "v \<le> r_end x" using left by (auto simp: v_def)
      define b1 where "b1 = b\<lparr>avail_reg := (avail_reg b)[a := x\<lparr>r_start := v\<rparr>]\<rparr>"
      have "resv_ok b1" using fm(2) by (simp add: b1_def resv_ok_def)
      then obtain ok b' where b': "reserve_region (to_pregion z) b1 = Some (ok, b')" "resv_ok b'" "avail_reg b' = avail_reg b1" "freemem b' = freemem b1"
        using reserve_region_frame zw by blast
      have "?loop a r b = ?loop a (r + 1) b'"
        using True il left b'(1) by (subst freemem_loop.simps, cases "r_end x < r_end z") (simp_all add: z_def x_def b1_def v_def Let_def)
      moreover have "sweeps_to na nr res (result regs (x\<lparr>r_start := v\<rparr> # A) R) (?loop a (r + 1) b')"
        using fm(1) b' v s by (intro next_r) (auto simp: fm_ok_def b1_def intro: sweep_move_start)
      moreover have "result regs (x # A) (z # R) = result regs (x\<lparr>r_start := v\<rparr> # A) R"
        unfolding v_def using left by (intro result_trim_start [OF s]) auto
      ultimately show ?thesis by (simp add: X)
    next
      case inside
      then have o: "r_start x < r_start z" "r_start z < r_end x" by auto
      let ?m = "x\<lparr>r_end := r_start z\<rparr>"
      obtain b1 where b1: "insert_region ?m b = Some (True, b1)" "resv_ok b1" "avail_reg b1 = avail_reg b" "fm_ok (regs @ [?m]) b1"
        using insert_region_ok [OF fm(1) len fm(2) sweep_cut(4,3) [OF s o]] by blast
      show ?thesis
      proof (cases "r_end x > r_end z")
        case gt: True
        define b2 where "b2 = b1\<lparr>avail_reg := (avail_reg b)[a := x\<lparr>r_start := r_end z\<rparr>]\<rparr>"
        have "resv_ok b2" using b1(2) by (simp add: b2_def resv_ok_def)
        then obtain ok b' where b': "reserve_region (to_pregion z) b2 = Some (ok, b')" "resv_ok b'" "avail_reg b' = avail_reg b2" "freemem b' = freemem b2"
          using reserve_region_frame zw by blast
        have "?loop a r b = ?loop a (r + 1) b'"
          using True il inside o gt b1(1,3) b'(1) by (subst freemem_loop.simps) (simp add: z_def x_def b2_def)
        moreover have "sweeps_to na nr res (result (regs @ [?m]) (x\<lparr>r_start := r_end z\<rparr> # A) R) (?loop a (r + 1) b')"
          using b1(4) b' sweep_cut(1) [OF s o gt] by (intro next_r) (auto simp: fm_ok_def b2_def)
        ultimately show ?thesis by (simp add: X result_cut(2) [OF s o gt])
      next
        case le: False
        have "?loop a r b = ?loop (a + 1) r b1"
          using True il inside o le b1(1) by (subst freemem_loop.simps) (simp add: z_def x_def)
        with next_a [OF b1(4,2,3) sweep_cut(2) [OF s o]] le show ?thesis by (simp add: X result_cut(3) [OF s o])
      qed
    qed
  qed
qed

lemma reserve_rest_ok:
  assumes "resv_ok b" "r \<le> nr" "nr \<le> length res" "\<forall>z \<in> set (drop r (take nr res)). in_window z"
  shows "\<exists>b'. reserve_rest nr res r b = Some b' \<and> resv_ok b' \<and> avail_reg b' = avail_reg b \<and> freemem b' = freemem b"
  using assms
proof (induction nr res r b rule: reserve_rest.induct)
  case (1 nr res r b)
  show ?case
  proof (cases "r < nr")
    case False
    then show ?thesis using 1(2) by (subst reserve_rest.simps) simp
  next
    case True
    let ?z = "res ! r"
    have rl: "r < length res" using True 1(4) by simp
    have d: "drop r (take nr res) = ?z # drop (r + 1) (take nr res)" using True 1(4) by (rule drop_take_Cons)
    obtain b1 where b1: "(if r_start ?z < r_end ?z then map_option snd (reserve_region (to_pregion ?z) b) else Some b) = Some b1"
      "resv_ok b1" "avail_reg b1 = avail_reg b" "freemem b1 = freemem b"
    proof (cases "r_start ?z < r_end ?z")
      case lt: True
      obtain ok b1 where "reserve_region (to_pregion ?z) b = Some (ok, b1)" "resv_ok b1" "avail_reg b1 = avail_reg b" "freemem b1 = freemem b"
        using reserve_region_frame [OF 1(2), of ?z] 1(5) lt by (auto simp: d less_imp_le)
      with lt show thesis by (intro that [of b1]) simp_all
    qed (use 1(2) in \<open>auto intro: that\<close>)
    have "\<exists>b'. reserve_rest nr res (r + 1) b1 = Some b' \<and> resv_ok b' \<and> avail_reg b' = avail_reg b1 \<and> freemem b' = freemem b1"
      using True rl b1 1(3-5) by (intro 1(1)) (auto simp: d)
    moreover have "reserve_rest nr res r b = reserve_rest nr res (r + 1) b1"
      using True rl b1(1) by (subst reserve_rest.simps) simp
    ultimately show ?thesis using b1 by simp
  qed
qed

lemma insert_rest_ok:
  assumes "fm_ok regs b" "resv_ok b" "a \<le> na" "na \<le> length (avail_reg b)" "sweep regs (drop a (take na (avail_reg b))) []"
  shows "\<exists>b' regs'. insert_rest na a b = Some b' \<and> fm_ok regs' b' \<and> ordered regs' \<and> length regs' < MAX_NUM_FREEMEM_REG \<and>
    cover regs' = cover regs \<union> cover (drop a (take na (avail_reg b)))"
  using assms
proof (induction na a b arbitrary: regs rule: insert_rest.induct)
  case (1 na a b)
  show ?case
  proof (cases "a < na")
    case False
    with 1 show ?thesis by (subst insert_rest.simps) (auto simp: sweep_def)
  next
    case True
    let ?x = "avail_reg b ! a" and ?A = "drop (a + 1) (take na (avail_reg b))"
    have al: "a < length (avail_reg b)" using True 1(5) by simp
    have d: "drop a (take na (avail_reg b)) = ?x # ?A" using True 1(5) by (rule drop_take_Cons)
    have s: "sweep regs (?x # ?A) []" using 1(6) by (simp add: d)
    obtain b1 regs1 where b1: "(if r_start ?x < r_end ?x then map_option snd (insert_region ?x b) else Some b) = Some b1"
      "resv_ok b1" "avail_reg b1 = avail_reg b" "fm_ok regs1 b1" "sweep regs1 ?A []" "cover regs1 = cover regs \<union> addrs ?x"
    proof (cases "r_start ?x < r_end ?x")
      case lt: True
      obtain b1 where "insert_region ?x b = Some (True, b1)" "resv_ok b1" "avail_reg b1 = avail_reg b" "fm_ok (regs @ [?x]) b1"
        using insert_region_ok [OF 1(2) _ 1(3), of ?x] s lt by (auto simp: sweep_def word_less_nat_alt)
      with lt show thesis using sweep_take_available [OF s] by (intro that [of b1 "regs @ [?x]"]) auto
    next
      case False
      then show thesis using 1(2,3) sweep_drop_available [OF s] by (intro that [of b regs])
        (auto simp: addrs_def word_less_nat_alt)
    qed
    have "\<exists>b' regs'. insert_rest na (a + 1) b1 = Some b' \<and> fm_ok regs' b' \<and> ordered regs' \<and> length regs' < MAX_NUM_FREEMEM_REG \<and>
        cover regs' = cover regs1 \<union> cover (drop (a + 1) (take na (avail_reg b1)))"
      using True al b1 1(4,5) by (intro 1(1)) auto
    moreover have "insert_rest na a b = insert_rest na (a + 1) b1"
      using True al b1(1) by (subst insert_rest.simps) simp
    ultimately show ?thesis unfolding d using b1(3,6) by (simp add: Un_assoc)
  qed
qed

lemma load_available_ok:
  "i + length ps \<le> length av \<Longrightarrow> \<exists>av'. load_available i ps av = Some av' \<and> length av' = length av \<and>
    take (i + length ps) av' = take i av @ map trim_region ps"
proof (induction i ps av rule: load_available.induct)
  case (2 i p ps av)
  then have i: "i < length av" by simp
  obtain av' where av': "load_available (i + 1) ps (av[i := trim_region p]) = Some av'" "length av' = length av"
    "take (i + 1 + length ps) av' = take (i + 1) (av[i := trim_region p]) @ map trim_region ps"
    using 2 i by auto
  then show ?case using i by (simp add: take_Suc_conv_app_nth)
qed simp

lemma check_reserved_ok:
  assumes "nr \<le> length res" "ordered (take nr res)" "i \<le> nr" "0 < i \<longrightarrow> lst = res ! (i - 1)"
  shows "check_reserved_loop i lst nr res = Some True"
  using assms
proof (induction i lst nr res rule: check_reserved_loop.induct)
  case (1 i lst nr res)
  show ?case
  proof (cases "i < nr")
    case True
    have le: "r_start (res ! i) \<le> r_end (res ! i)"
    proof -
      have "res ! i \<in> set (take nr res)" using True 1(2) by (auto simp: in_set_conv_nth)
      then show ?thesis using 1(3) by (simp add: ordered_def word_le_nat_alt)
    qed
    have "\<not> r_start (res ! i) < r_end lst" if "0 < i"
    proof -
      have "unat (r_end (res ! (i - 1))) \<le> unat (r_start (res ! i))"
        using sorted_wrt_nth_less [of "\<lambda>x y. unat (r_end x) \<le> unat (r_start y)" "take nr res" "i - 1" i] 1(2,3) True that
        by (simp add: ordered_def)
      then show ?thesis using 1(5) that by (simp add: word_less_nat_alt)
    qed
    with le True 1 show ?thesis by (subst check_reserved_loop.simps) auto
  next
    case False
    then show ?thesis by (subst check_reserved_loop.simps) simp
  qed
qed

lemma unat_ceiling:
  "unat (ceiling_kernel_window (to_pptr p)) = min (unat p) (unat PADDR_TOP) + unat PPTR_BASE_OFFSET"
proof (cases "PADDR_TOP < p")
  case True
  then have "ceiling_kernel_window (to_pptr p) = PPTR_TOP" by (simp add: ceiling_kernel_window_def to_paddr_def to_pptr_def)
  moreover have "unat PPTR_TOP = unat PADDR_TOP + unat PPTR_BASE_OFFSET" by (simp add: boot_consts)
  ultimately show ?thesis using True by (simp add: word_less_nat_alt)
next
  case False
  then have c: "ceiling_kernel_window (to_pptr p) = p + PPTR_BASE_OFFSET"
    by (simp add: ceiling_kernel_window_def to_paddr_def to_pptr_def)
  have p: "unat p \<le> unat PADDR_TOP" using False by (simp add: word_less_nat_alt)
  have "unat PADDR_TOP + unat PPTR_BASE_OFFSET < 2 ^ 64" by (simp add: boot_consts)
  with p have "unat p + unat PPTR_BASE_OFFSET < 2 ^ LENGTH(64)" by simp
  then have "unat (p + PPTR_BASE_OFFSET) = unat p + unat PPTR_BASE_OFFSET" by (subst unat_add_lem [THEN iffD1]) simp_all
  then show ?thesis using p by (simp add: c)
qed

lemma trim_region_simps:
  "unat (r_start (trim_region p)) = min (unat (r_start p)) (unat PADDR_TOP) + unat PPTR_BASE_OFFSET"
  "unat (r_end (trim_region p)) = min (unat (r_end p)) (unat PADDR_TOP) + unat PPTR_BASE_OFFSET"
  "in_window (trim_region p)"
  unfolding in_window_def word_le_nat_alt by (simp_all add: trim_region_def to_region_def unat_ceiling)

text \<open>The kernel addresses of a set of physical addresses that lie in the kernel window.\<close>

definition windowed :: "nat set \<Rightarrow> nat set" where
  "windowed P = (\<lambda>p. p + unat PPTR_BASE_OFFSET) ` (P \<inter> {..< unat PADDR_TOP})"

lemma addrs_trim_region: "addrs (trim_region p) = windowed (addrs p)"
proof -
  have "x \<in> windowed (addrs p)" if x: "x \<in> addrs (trim_region p)" for x
    using x unfolding windowed_def addrs_def trim_region_simps
    by (intro image_eqI [of _ _ "x - unat PPTR_BASE_OFFSET"]) auto
  moreover have "x \<in> addrs (trim_region p)" if x: "x \<in> windowed (addrs p)" for x
    using x unfolding windowed_def addrs_def trim_region_simps by auto
  ultimately show ?thesis by blast
qed

lemma cover_trim: "cover (map trim_region ps) = windowed (cover ps)"
  unfolding cover_def by (auto simp: addrs_trim_region windowed_def)

lemma ordered_trim:
  assumes "packed ps"
  shows "ordered (map trim_region ps)"
proof -
  have "sorted_wrt (\<lambda>x y. unat (r_end x) \<le> unat (r_start y)) ps" using assms by (simp add: packed_def)
  then have "sorted_wrt (\<lambda>x y. unat (r_end (trim_region x)) \<le> unat (r_start (trim_region y))) ps"
    by (rule sorted_wrt_mono_rel [rotated]) (auto simp: trim_region_simps)
  moreover have "\<forall>r \<in> set ps. unat (r_start r) < unat (r_end r)" using assms by (simp add: packed_def)
  ultimately show ?thesis by (auto simp: ordered_def sorted_wrt_map trim_region_simps)
qed

lemma check_available_ok: "packed ps \<Longrightarrow> check_available_loop ps"
  by (induction ps) (auto simp: packed_simps word_less_nat_alt)

text \<open>
  C37: Initialisation of free memory computes exactly the available physical memory in the kernel window minus
  the reserved regions: for ordered available and reserved regions, no reserved region meeting two available
  ones, and few enough of them, it returns true and the list of free regions is sorted, without empty or
  overlapping regions, and covers exactly the addresses that are available and not reserved.
\<close>

theorem init_freemem_correct:
  assumes "available \<noteq> []" "packed available" "length available + n_reserved < MAX_NUM_FREEMEM_REG"
    "length res = NUM_RESERVED_REGIONS" "n_reserved \<le> NUM_RESERVED_REGIONS" "ordered (take n_reserved res)"
    "\<forall>z \<in> set (take n_reserved res). in_window z"
    "\<forall>z \<in> set (take n_reserved res). sorted_wrt (meets_once z) (map trim_region available)"
    "resv_ok b" "length (freemem b) = MAX_NUM_FREEMEM_REG" "length (avail_reg b) = MAX_NUM_FREEMEM_REG"
  shows "\<exists>b' regs. rust_init_freemem available n_reserved res b = Some (True, b') \<and>
    freemem b' = regs @ replicate (MAX_NUM_FREEMEM_REG - length regs) region_empty \<and> packed regs \<and>
    cover regs = windowed (cover available) - cover (take n_reserved res)"
proof -
  let ?n = "length available" and ?A = "map trim_region available" and ?R = "take n_reserved res"
  let ?X = "cover ?A - cover ?R"
  let ?b0 = "b\<lparr>freemem := replicate (length (freemem b)) region_empty\<rparr>"
  obtain avs where avs: "load_available 0 available (avail_reg b) = Some avs" "length avs = MAX_NUM_FREEMEM_REG" "take ?n avs = ?A"
    using load_available_ok [of 0 available "avail_reg b"] assms(3,11) by auto
  let ?b1 = "?b0\<lparr>avail_reg := avs\<rparr>"
  have "sweeping ?n n_reserved res 0 0 [] ?b1"
    using assms avs ordered_trim [OF assms(2)] by (auto simp: sweeping_def sweep_def fm_ok_def resv_ok_def trim_region_simps)
  from freemem_loop_ok [OF this] obtain a r b2 regs where b2: "freemem_loop ?n n_reserved res 0 0 ?b1 = Some (a, r, b2)"
    "sweeping ?n n_reserved res a r regs b2" "a = ?n \<or> r = n_reserved" "ahead ?n n_reserved res a r regs b2 = ?X"
    using avs(3) by (auto simp: sweeps_to_def ahead_def result_def)
  note inv = b2(2) [unfolded sweeping_def]
  obtain b3 where b3: "reserve_rest n_reserved res r b2 = Some b3" "resv_ok b3" "avail_reg b3 = avail_reg b2" "freemem b3 = freemem b2"
    using reserve_rest_ok [of b2 r n_reserved res] inv by (auto simp: sweep_def)
  have s: "sweep regs (drop a (take ?n (avail_reg b3))) []" using inv b3(3) by (auto simp: sweep_def ordered_simps)
  have fm: "fm_ok regs b3" using inv b3(4) by (simp add: fm_ok_def)
  obtain b4 regs' where b4: "insert_rest ?n a b3 = Some b4" "fm_ok regs' b4" "ordered regs'" "length regs' < MAX_NUM_FREEMEM_REG"
    "cover regs' = cover regs \<union> cover (drop a (take ?n (avail_reg b3)))"
    using insert_rest_ok [OF fm b3(2) _ _ s] inv b3(3) by auto
  have "cover regs' = ?X" using b2(3,4) b3(3) b4(5) inv by (auto simp: ahead_def result_def)
  moreover have "packed regs'" using b4(2,3) by (auto simp: fm_ok_def packed_def ordered_def is_empty_def le_less)
  moreover have "freemem b4 = regs' @ replicate (MAX_NUM_FREEMEM_REG - length regs') region_empty" using b4(2) by (simp add: fm_ok_def)
  moreover have "rust_init_freemem available n_reserved res b = Some (True, b4)"
  proof -
    have "check_available_memory available" using assms(1) check_available_ok [OF assms(2)] by (simp add: check_available_memory_def)
    moreover have "check_reserved_memory n_reserved res = Some True"
      using check_reserved_ok [of n_reserved res 0 "res ! 0"] assms(4-6) by (simp add: check_reserved_memory_def NUM_RESERVED_REGIONS_def)
    moreover have "length (freemem b4) = MAX_NUM_FREEMEM_REG" using b4(2) by (simp add: fm_ok_def)
    moreover have "is_empty (freemem b4 ! (MAX_NUM_FREEMEM_REG - 1))"
      using b4(2,4) by (simp add: fm_ok_def nth_append is_empty_def region_empty_def MAX_NUM_FREEMEM_REG_def)
    ultimately show ?thesis using avs(1) b2(1) b3(1) b4(1) by (simp add: rust_init_freemem_def MAX_NUM_FREEMEM_REG_def)
  qed
  ultimately show ?thesis unfolding cover_trim by blast
qed

text \<open>One gigabyte of memory at \<open>0x40000000\<close>, the kernel image at its start and a user image behind it.\<close>

definition sample_avail :: "region list" where
  "sample_avail = [\<lparr> r_start = 0x40000000, r_end = 0x80000000 \<rparr>]"

definition sample_res :: "region list" where
  "sample_res = [\<lparr> r_start = 0xffffff8040000000, r_end = 0xffffff8040200000 \<rparr>,
     \<lparr> r_start = 0xffffff8040300000, r_end = 0xffffff8040500000 \<rparr>, region_empty]"

theorem init_freemem_correct_witness:
  "\<exists>b' regs. rust_init_freemem sample_avail 2 sample_res (ndks_boot_init empty_kstate) = Some (True, b') \<and>
    freemem b' = regs @ replicate (MAX_NUM_FREEMEM_REG - length regs) region_empty \<and> packed regs \<and>
    cover regs = windowed (cover sample_avail) - cover (take 2 sample_res)"
proof (rule init_freemem_correct)
  show "ordered (take 2 sample_res)" by (simp add: ordered_def sample_res_def)
  show "\<forall>z \<in> set (take 2 sample_res). in_window z" by (simp add: sample_res_def in_window_def PPTR_BASE_OFFSET_def)
qed (simp_all add: sample_avail_def sample_res_def packed_def boot_consts ndks_boot_init_def resv_ok_def)

section \<open>The untyped capabilities of a region\<close>

text \<open>
  The pieces of a region are pairs of an offset from its start and a size in bits.  Offsets are used because the
  kernel addresses of a device region can pass the end of the address space.
\<close>

definition untyped_piece :: "word64 \<Rightarrow> bool \<Rightarrow> nat \<times> nat \<Rightarrow> cap" where
  "untyped_piece start device p =
     cap_untyped_cap (ucast (max_free_index (of_nat (snd p)))) device (of_nat (snd p)) (start + of_nat (fst p))"

definition pieces_ok :: "word64 \<Rightarrow> nat \<Rightarrow> (nat \<times> nat) list \<Rightarrow> bool" where
  "pieces_ok start len ps \<longleftrightarrow> sorted_wrt (\<lambda>p q. fst p + 2 ^ snd p \<le> fst q) ps \<and>
     (\<forall>p \<in> set ps. fst p + 2 ^ snd p \<le> len \<and> 4 \<le> snd p \<and> snd p \<le> 47 \<and> 2 ^ snd p dvd unat (start + of_nat (fst p)))"

definition pieces_cover :: "(nat \<times> nat) list \<Rightarrow> nat set" where
  "pieces_cover ps = (\<Union>p \<in> set ps. {fst p ..< fst p + 2 ^ snd p})"

definition shift_piece :: "nat \<Rightarrow> nat \<times> nat \<Rightarrow> nat \<times> nat" where
  "shift_piece n p = (fst p + n, snd p)"

lemma untyped_piece_shift: "untyped_piece (start + of_nat n) device p = untyped_piece start device (shift_piece n p)"
  by (simp add: untyped_piece_def shift_piece_def algebra_simps)

lemma pieces_ok_shift:
  assumes "pieces_ok (start + of_nat n) (len - n) ps" "n \<le> len"
  shows "pieces_ok start len (map (shift_piece n) ps)" "\<forall>p \<in> set (map (shift_piece n) ps). n \<le> fst p"
proof -
  have "sorted_wrt (\<lambda>p q. fst p + 2 ^ snd p \<le> fst q) (map (shift_piece n) ps)"
    using assms(1) by (auto simp: pieces_ok_def sorted_wrt_map shift_piece_def)
  moreover have "fst q + 2 ^ snd q \<le> len \<and> 4 \<le> snd q \<and> snd q \<le> 47 \<and> 2 ^ snd q dvd unat (start + of_nat (fst q))"
    if q: "q \<in> set (map (shift_piece n) ps)" for q
  proof -
    obtain p where p: "p \<in> set ps" "q = shift_piece n p" using q by auto
    have e: "start + of_nat n + of_nat (fst p) = start + of_nat (fst p + n)" by (simp add: algebra_simps)
    have "fst p + 2 ^ snd p \<le> len - n" "4 \<le> snd p" "snd p \<le> 47" "2 ^ snd p dvd unat (start + of_nat (fst p + n))"
      using assms(1) p(1) unfolding pieces_ok_def e [symmetric] by auto
    then show ?thesis using assms(2) unfolding p(2) by (simp add: shift_piece_def)
  qed
  ultimately show "pieces_ok start len (map (shift_piece n) ps)" by (simp add: pieces_ok_def)
qed (auto simp: shift_piece_def)

lemma pieces_cover_shift: "pieces_cover (map (shift_piece n) ps) = (\<lambda>x. x + n) ` pieces_cover ps"
proof -
  have "{fst p + n ..< fst p + n + 2 ^ snd p} = (\<lambda>x. x + n) ` {fst p ..< fst p + 2 ^ snd p}" for p :: "nat \<times> nat"
    by (simp add: algebra_simps)
  then have "{fst (shift_piece n p) ..< fst (shift_piece n p) + 2 ^ snd (shift_piece n p)} = (\<lambda>x. x + n) ` {fst p ..< fst p + 2 ^ snd p}"
    for p by (simp only: shift_piece_def fst_conv snd_conv)
  then show ?thesis unfolding pieces_cover_def set_map image_UN UN_simps(10) by (rule SUP_cong [OF refl])
qed

definition slots_hold :: "ptr \<Rightarrow> word64 \<Rightarrow> cap list \<Rightarrow> boot_state \<Rightarrow> bool" where
  "slots_hold cnode slot caps b \<longleftrightarrow>
     (\<forall>i < length caps. capability (ks_ctes (boot_ks b) (cnode + 32 * (slot + of_nat i))) = caps ! i)"

text \<open>Enough boot information and slots for all untyped capabilities the boot information can describe.\<close>

definition untyped_room :: "word64 \<Rightarrow> boot_state \<Rightarrow> bool" where
  "untyped_room first b \<longleftrightarrow> unat first \<le> unat (slot_pos_cur b) \<and> unat (slot_pos_cur b) \<le> unat first + 230 \<and> unat first + 230 \<le> 4096 \<and>
     (\<exists>bi. bi_frame b = Some bi \<and> length (untypedList bi) = 230)"

lemma unat_of_nat64: "n < 2 ^ 64 \<Longrightarrow> unat (of_nat n :: word64) = n"
  by (simp add: unsigned_of_nat take_bit_nat_eq_self)

lemma provide_untyped_cap_ok:
  assumes room: "untyped_room first b" and k: "4 \<le> k" "k \<le> 47" "2 ^ k dvd unat p"
    and window: "\<not> device \<longrightarrow> pptr_in_kernel_window p \<and> pptr_in_kernel_window (p + mask_bits (of_nat k))"
  shows "\<exists>b'. provide_untyped_cap c device p (of_nat k) first b = Some (True, b') \<and> untyped_room first b' \<and>
    (if unat (slot_pos_cur b) < unat first + 230
     then slot_pos_cur b' = slot_pos_cur b + 1 \<and> unat (slot_pos_cur b') = unat (slot_pos_cur b) + 1 \<and>
       ks_ctes (boot_ks b') = (ks_ctes (boot_ks b))(capCNodePtr c + 32 * slot_pos_cur b :=
         \<lparr> capability = untyped_piece p device (0, k),
           cteMDBNode = \<lparr> mdbNext = 0, mdbRevocable = True, mdbFirstBadged = True, mdbPrev = 0 \<rparr> \<rparr>)
     else b' = b)"
proof -
  have uk: "unat (of_nat k :: word64) = k" using k(2) by (intro unat_of_nat64) simp
  have sz: "\<not> (of_nat k > MAX_UNTYPED_BITS \<or> (of_nat k :: word64) < SEL4_MIN_UNTYPED_BITS)"
    using k uk by (simp add: word_less_nat_alt MAX_UNTYPED_BITS_def SEL4_MIN_UNTYPED_BITS_def)
  have "take_bit k (unat p) = 0" using k(3) by (simp add: take_bit_eq_mod mod_eq_0_iff_dvd)
  then have "take_bit k p = 0" by (metis unsigned_take_bit_eq unat_eq_zero)
  then have al: "is_aligned p (of_nat k)" using k(2) uk by (simp add: is_aligned_def and_mask_bits)
  obtain bi where bi: "bi_frame b = Some bi" "length (untypedList bi) = 230" using room by (auto simp: untyped_room_def)
  have s: "unat first \<le> unat (slot_pos_cur b)" "unat (slot_pos_cur b) \<le> unat first + 230" "unat first + 230 \<le> 4096"
    using room by (simp_all add: untyped_room_def)
  have i: "unat (slot_pos_cur b - first) = unat (slot_pos_cur b) - unat first"
    using s(1) by (simp add: unat_sub word_le_nat_alt)
  have idx: "slot_pos_cur b - first < CONFIG_MAX_NUM_BOOTINFO_UNTYPED_CAPS \<longleftrightarrow> unat (slot_pos_cur b) < unat first + 230"
  proof -
    have "unat CONFIG_MAX_NUM_BOOTINFO_UNTYPED_CAPS = 230" by (simp add: CONFIG_MAX_NUM_BOOTINFO_UNTYPED_CAPS_def)
    then show ?thesis unfolding word_less_nat_alt i using s(1) by linarith
  qed
  show ?thesis
  proof (cases "unat (slot_pos_cur b) < unat first + 230")
    case False
    then show ?thesis using sz al window room idx by (auto simp: provide_untyped_cap_def Let_def)
  next
    case True
    have "unat (slot_pos_cur b) + unat (1 :: word64) < 2 ^ LENGTH(64)" using True s(3) by simp
    then have inc: "unat (slot_pos_cur b + 1) = unat (slot_pos_cur b) + 1" by (subst unat_add_lem [THEN iffD1]) simp_all
    have full: "\<not> slot_pos_cur b \<ge> bit_mac CONFIG_ROOT_CNODE_SIZE_BITS"
    proof -
      have "unat (bit_mac CONFIG_ROOT_CNODE_SIZE_BITS) = 4096" by (simp add: CONFIG_ROOT_CNODE_SIZE_BITS_def unat_bit_mac)
      then show ?thesis using True s(3) by (simp add: word_le_nat_alt)
    qed
    have "unat (slot_pos_cur b - first) < 230" using True s(1) i by linarith
    then have upd: "\<exists>uds. update_checked (untypedList bi) (slot_pos_cur b - first)
        \<lparr> ud_paddr = to_paddr p, ud_sizeBits = ucast (of_nat k :: word64), ud_isDevice = device \<rparr> = Some uds \<and> length uds = 230"
      using bi(2) by simp
    then obtain uds where uds: "update_checked (untypedList bi) (slot_pos_cur b - first)
        \<lparr> ud_paddr = to_paddr p, ud_sizeBits = ucast (of_nat k :: word64), ud_isDevice = device \<rparr> = Some uds" "length uds = 230"
      by blast
    have ucast_k: "(ucast (of_nat k :: word64) :: 6 word) = of_nat k"
    proof -
      have "(ucast (of_nat k :: word64) :: 6 word) = of_nat (unat (of_nat k :: word64))" by simp
      then show ?thesis by (simp only: uk)
    qed
    let ?b = "b\<lparr>bi_frame := Some (bi\<lparr>untypedList := uds\<rparr>)\<rparr>"
    let ?cap = "cap_untyped_cap (ucast (max_free_index (of_nat k))) device (ucast (of_nat k :: word64)) p"
    have "provide_untyped_cap c device p (of_nat k) first b = Some (provide_cap c ?cap ?b)"
      using sz al window idx True bi(1) uds(1) by (auto simp: provide_untyped_cap_def Let_def)
    moreover have "provide_cap c ?cap ?b = (True, ?b\<lparr>boot_ks := write_slot (capCNodePtr c + 32 * slot_pos_cur b) ?cap (boot_ks b),
        slot_pos_cur := slot_pos_cur b + 1\<rparr>)"
      using full by (simp add: provide_cap_def)
    ultimately show ?thesis
      using True s inc uds(2) by (simp add: untyped_room_def write_slot_def untyped_piece_def ucast_k)
  qed
qed

lemma slot_addr_distinct:
  assumes "i < 4096"
  shows "cnode + 32 * slot \<noteq> cnode + 32 * (slot + 1 + of_nat i :: word64)"
proof
  assume "cnode + 32 * slot = cnode + 32 * (slot + 1 + of_nat i)"
  then have "32 * (1 + of_nat i) = (0 :: word64)" by (simp add: algebra_simps)
  then have "of_nat (32 * (1 + i)) = (0 :: word64)" by simp
  then have "unat (of_nat (32 * (1 + i)) :: word64) = 0" by (simp only: unat_0)
  moreover have "unat (of_nat (32 * (1 + i)) :: word64) = 32 * (1 + i)" using assms by (intro unat_of_nat64) simp
  ultimately show False by simp
qed

definition creates_pieces ::
  "ptr \<Rightarrow> bool \<Rightarrow> word64 \<Rightarrow> nat \<Rightarrow> word64 \<Rightarrow> boot_state \<Rightarrow> boot_state \<Rightarrow> (nat \<times> nat) list \<Rightarrow> bool" where
  "creates_pieces cnode device start len first b b' ps \<longleftrightarrow> untyped_room first b' \<and>
     unat (slot_pos_cur b') = unat (slot_pos_cur b) + length ps \<and> pieces_ok start len ps \<and>
     slots_hold cnode (slot_pos_cur b) (map (untyped_piece start device) ps) b' \<and>
     (\<forall>q. (\<forall>i < length ps. q \<noteq> cnode + 32 * (slot_pos_cur b + of_nat i)) \<longrightarrow> ks_ctes (boot_ks b') q = ks_ctes (boot_ks b) q) \<and>
     (16 dvd unat start \<and> 16 dvd len \<and> unat (slot_pos_cur b') < unat first + 230 \<longrightarrow> pieces_cover ps = {0 ..< len})"

lemma creates_pieces_skip:
  assumes "creates_pieces cnode device (start + of_nat n) (len - n) first b b' ps" "n \<le> len"
    "16 dvd unat start \<and> 16 dvd len \<longrightarrow> unat first + 230 \<le> unat (slot_pos_cur b)"
  shows "creates_pieces cnode device start len first b b' (map (shift_piece n) ps)"
  using assms(1,3) pieces_ok_shift [OF _ assms(2)]
  by (auto simp: creates_pieces_def slots_hold_def untyped_piece_shift)

lemma pieces_cover_Cons: "pieces_cover (p # ps) = {fst p ..< fst p + 2 ^ snd p} \<union> pieces_cover ps"
  by (simp add: pieces_cover_def)

lemma image_add_atLeastLessThan_nat: "(\<lambda>x. x + n) ` {0 ..< m} = {n ..< m + (n :: nat)}"
  by (metis add_0 image_add_atLeastLessThan')

lemma creates_pieces_take:
  assumes c: "creates_pieces cnode device (start + of_nat (2 ^ k)) (len - 2 ^ k) first b1 b' ps" and k: "4 \<le> k" "k \<le> 47" "2 ^ k \<le> len" "2 ^ k dvd unat start"
    and b1: "slot_pos_cur b1 = slot_pos_cur b + 1" "unat (slot_pos_cur b1) = unat (slot_pos_cur b) + 1"
      "ks_ctes (boot_ks b1) = (ks_ctes (boot_ks b))(cnode + 32 * slot_pos_cur b := \<lparr> capability = untyped_piece start device (0, k), cteMDBNode = nd \<rparr>)"
  shows "creates_pieces cnode device start len first b b' ((0, k) # map (shift_piece (2 ^ k)) ps)"
proof -
  let ?qs = "map (shift_piece (2 ^ k)) ps" and ?s = "slot_pos_cur b"
  note c' = c [unfolded creates_pieces_def b1(1)]
  have qs: "pieces_ok start len ?qs" "\<forall>p \<in> set ?qs. 2 ^ k \<le> fst p" using pieces_ok_shift [of start "2 ^ k" len ps] c' k(3) by auto
  have ok: "pieces_ok start len ((0, k) # ?qs)" using qs k by (auto simp: pieces_ok_def)
  have len: "i < 4096" if "i < length ps" for i
  proof -
    have "unat (slot_pos_cur b') \<le> unat first + 230" "unat first + 230 \<le> 4096"
      "unat (slot_pos_cur b') = unat (slot_pos_cur b1) + length ps"
      using c by (simp_all add: creates_pieces_def untyped_room_def)
    with that show ?thesis by linarith
  qed
  have first: "ks_ctes (boot_ks b') (cnode + 32 * ?s) = ks_ctes (boot_ks b1) (cnode + 32 * ?s)"
    using c' slot_addr_distinct [OF len] by blast
  have "slots_hold cnode ?s (map (untyped_piece start device) ((0, k) # ?qs)) b'"
    unfolding slots_hold_def
  proof (intro allI impI)
    fix i assume i: "i < length (map (untyped_piece start device) ((0, k) # ?qs))"
    show "capability (ks_ctes (boot_ks b') (cnode + 32 * (?s + of_nat i))) = map (untyped_piece start device) ((0, k) # ?qs) ! i"
    proof (cases i)
      case 0
      then show ?thesis using first b1(3) by simp
    next
      case (Suc j)
      have j: "j < length ps" using i Suc by simp
      have e: "?s + of_nat i = ?s + 1 + of_nat j" by (simp add: Suc)
      have "capability (ks_ctes (boot_ks b') (cnode + 32 * (?s + 1 + of_nat j))) = map (untyped_piece (start + of_nat (2 ^ k)) device) ps ! j"
        using c' j unfolding slots_hold_def length_map by blast
      then show ?thesis unfolding e using j by (simp add: Suc untyped_piece_shift [of start "2 ^ k", simplified])
    qed
  qed
  moreover have "ks_ctes (boot_ks b') q = ks_ctes (boot_ks b) q"
    if q: "\<forall>i < length ((0, k) # ?qs). q \<noteq> cnode + 32 * (?s + of_nat i)" for q
  proof -
    have "q \<noteq> cnode + 32 * ?s" using q [rule_format, of 0] by simp
    moreover have "q \<noteq> cnode + 32 * (?s + 1 + of_nat i)" if "i < length ps" for i
      using q [rule_format, of "Suc i"] that by (simp add: algebra_simps)
    ultimately show ?thesis using c' b1(3) by simp
  qed
  moreover have "pieces_cover ((0, k) # ?qs) = {0 ..< len}"
    if "16 dvd unat start" "16 dvd len" "unat (slot_pos_cur b') < unat first + 230"
  proof -
    have "(16 :: nat) dvd 2 ^ k" using k(1) le_imp_power_dvd [of 4 k "2 :: nat"] by simp
    moreover from this have "16 dvd unat (start + of_nat (2 ^ k))"
    proof -
      have "unat (start + of_nat (2 ^ k)) = (unat start + 2 ^ k) mod 2 ^ 64"
      proof -
        have "(2 :: nat) ^ k < 2 ^ 64" using k(2) by (intro power_strict_increasing) simp_all
        then have "unat (of_nat (2 ^ k) :: word64) = 2 ^ k" by (rule unat_of_nat64)
        then show ?thesis by (simp only: unat_word_ariths) simp
      qed
      moreover have "(16 :: nat) dvd 2 ^ 64" by (simp add: dvd_power_le)
      ultimately show ?thesis using \<open>(16 :: nat) dvd 2 ^ k\<close> that(1) by (simp add: dvd_mod_iff)
    qed
    ultimately have "pieces_cover ps = {0 ..< len - 2 ^ k}" using c' that by (auto intro: dvd_diff_nat)
    then have "pieces_cover ?qs = {2 ^ k ..< len}"
      unfolding pieces_cover_shift using k(3) by (simp add: image_add_atLeastLessThan_nat)
    then show ?thesis using k(3) by (auto simp: pieces_cover_Cons)
  qed
  moreover have "untyped_room first b'" "unat (slot_pos_cur b') = unat (slot_pos_cur b1) + length ps"
    using c unfolding creates_pieces_def by blast+
  ultimately show ?thesis using ok b1(2) unfolding creates_pieces_def by simp
qed

lemma create_untypeds_for_region_ok:
  assumes "untyped_room first b" "\<not> device \<longrightarrow> PPTR_BASE \<le> r_start reg \<and> r_start reg \<le> r_end reg \<and> r_end reg \<le> PPTR_TOP"
  shows "\<exists>b' ps. create_untypeds_for_region c device reg first b = Some (True, b') \<and>
    creates_pieces (capCNodePtr c) device (r_start reg) (unat (r_end reg - r_start reg)) first b b' ps"
  using assms
proof (induction "unat (r_end reg - r_start reg)" arbitrary: reg b rule: less_induct)
  case less
  let ?s = "r_start reg" and ?d = "unat (r_end reg - r_start reg)"
  show ?case
  proof (cases "is_empty reg")
    case True
    then show ?thesis using less.prems(1)
      by (subst create_untypeds_for_region.simps)
        (auto simp: is_empty_def creates_pieces_def pieces_ok_def slots_hold_def pieces_cover_def intro!: exI [of _ "[]"])
  next
    case False
    then have ne: "?s \<noteq> r_end reg" by (simp add: is_empty_def)
    obtain k where k: "k \<le> 47" "next_size_bits reg = of_nat k" "(2::nat) ^ k \<le> ?d" "2 ^ k dvd unat ?s"
      "16 dvd unat ?s \<and> 16 \<le> ?d \<longrightarrow> 4 \<le> k"
      using next_size_bits_le [OF ne] by blast
    have uk: "unat (of_nat k :: word64) = k" using k(1) by (intro unat_of_nat64) simp
    have bm: "bit_mac (of_nat k) = of_nat (2 ^ k)" using k(1) uk by (simp add: bit_mac_def)
    have u2: "unat (of_nat (2 ^ k) :: word64) = 2 ^ k" using unat_bit_mac [of "of_nat k"] k(1) uk bm by simp
    define reg' where "reg' = reg\<lparr>r_start := ?s + bit_mac (next_size_bits reg)\<rparr>"
    have s': "r_start reg' = ?s + of_nat (2 ^ k)" "r_end reg' = r_end reg" by (simp_all add: reg'_def k(2) bm)
    have d': "unat (r_end reg' - r_start reg') = ?d - 2 ^ k"
    proof -
      have "r_end reg' - r_start reg' = (r_end reg - ?s) - of_nat (2 ^ k)" by (simp add: s')
      moreover have "of_nat (2 ^ k) \<le> r_end reg - ?s" unfolding word_le_nat_alt u2 by (rule k(3))
      ultimately show ?thesis using u2 by (simp only: unat_sub)
    qed
    have win: "\<not> device \<longrightarrow> PPTR_BASE \<le> r_start reg' \<and> r_start reg' \<le> r_end reg' \<and> r_end reg' \<le> PPTR_TOP"
      "\<not> device \<longrightarrow> pptr_in_kernel_window ?s \<and> pptr_in_kernel_window (?s + mask_bits (of_nat k))"
    proof -
      have "PPTR_BASE \<le> r_start reg' \<and> r_start reg' \<le> r_end reg' \<and> r_end reg' \<le> PPTR_TOP \<and>
          pptr_in_kernel_window ?s \<and> pptr_in_kernel_window (?s + mask_bits (of_nat k))" if "\<not> device"
      proof -
        have w: "unat PPTR_BASE \<le> unat ?s" "unat ?s \<le> unat (r_end reg)" "unat (r_end reg) \<le> unat PPTR_TOP"
          using less.prems(2) that by (simp_all add: word_le_nat_alt)
        have d: "?d = unat (r_end reg) - unat ?s" using w(2) by (simp add: unat_sub word_le_nat_alt)
        have le: "unat ?s + 2 ^ k \<le> unat (r_end reg)" using k(3) d w(2) by linarith
        have lt: "unat (r_end reg) < 2 ^ 64" using unsigned_less [of "r_end reg"] by simp
        have "unat ?s + unat (of_nat (2 ^ k) :: word64) < 2 ^ LENGTH(64)" using le lt u2 by simp
        then have 1: "unat (r_start reg') = unat ?s + 2 ^ k" unfolding s' using u2 by (subst unat_add_lem [THEN iffD1]) simp_all
        have m: "unat (mask_bits (of_nat k)) = 2 ^ k - 1" using unat_mask_bits [of "of_nat k"] k(1) uk by simp
        have pos: "(0 :: nat) < 2 ^ k" by simp
        have "unat ?s + unat (mask_bits (of_nat k)) < 2 ^ LENGTH(64)" using le lt m by simp
        then have 2: "unat (?s + mask_bits (of_nat k)) = unat ?s + (2 ^ k - 1)" using m by (subst unat_add_lem [THEN iffD1]) simp_all
        show ?thesis unfolding pptr_in_kernel_window_def word_le_nat_alt word_less_nat_alt 1 2 s'(2)
          using w le pos by linarith
      qed
      then show "\<not> device \<longrightarrow> PPTR_BASE \<le> r_start reg' \<and> r_start reg' \<le> r_end reg' \<and> r_end reg' \<le> PPTR_TOP"
        "\<not> device \<longrightarrow> pptr_in_kernel_window ?s \<and> pptr_in_kernel_window (?s + mask_bits (of_nat k))" by blast+
    qed
    have lt: "unat (r_end reg' - r_start reg') < ?d"
    proof -
      have "(0 :: nat) < 2 ^ k" by simp
      then show ?thesis unfolding d' using k(3) by linarith
    qed
    have rec: "\<exists>b' ps. create_untypeds_for_region c device reg' first b1 = Some (True, b') \<and>
        creates_pieces (capCNodePtr c) device (?s + of_nat (2 ^ k)) (?d - 2 ^ k) first b1 b' ps" if "untyped_room first b1" for b1
      using less.hyps [OF lt that win(1)] unfolding d' unfolding s' .
    have min: "of_nat k \<ge> SEL4_MIN_UNTYPED_BITS \<longleftrightarrow> 4 \<le> k" by (simp add: word_le_nat_alt uk SEL4_MIN_UNTYPED_BITS_def)
    show ?thesis
    proof (cases "4 \<le> k")
      case False
      obtain b' ps where b': "create_untypeds_for_region c device reg' first b = Some (True, b')"
        "creates_pieces (capCNodePtr c) device (?s + of_nat (2 ^ k)) (?d - 2 ^ k) first b b' ps"
        using rec [OF less.prems(1)] by blast
      have "\<not> (16 dvd unat ?s \<and> 16 dvd ?d)"
      proof
        assume a: "16 dvd unat ?s \<and> 16 dvd ?d"
        moreover have "?d \<noteq> 0" using ne by (metis unat_eq_zero right_minus_eq)
        ultimately have "16 \<le> ?d" by (intro dvd_imp_le) simp_all
        with a k(5) False show False by blast
      qed
      then have "creates_pieces (capCNodePtr c) device ?s ?d first b b' (map (shift_piece (2 ^ k)) ps)"
        using b'(2) k(3) by (intro creates_pieces_skip) auto
      moreover have "create_untypeds_for_region c device reg first b = Some (True, b')"
        using ne b'(1) False min by (subst create_untypeds_for_region.simps) (simp add: is_empty_def k(2) Let_def reg'_def)
      ultimately show ?thesis by blast
    next
      case True
      obtain b1 where b1: "provide_untyped_cap c device ?s (of_nat k) first b = Some (True, b1)" "untyped_room first b1"
        "if unat (slot_pos_cur b) < unat first + 230
         then slot_pos_cur b1 = slot_pos_cur b + 1 \<and> unat (slot_pos_cur b1) = unat (slot_pos_cur b) + 1 \<and>
           ks_ctes (boot_ks b1) = (ks_ctes (boot_ks b))(capCNodePtr c + 32 * slot_pos_cur b :=
             \<lparr> capability = untyped_piece ?s device (0, k),
               cteMDBNode = \<lparr> mdbNext = 0, mdbRevocable = True, mdbFirstBadged = True, mdbPrev = 0 \<rparr> \<rparr>)
         else b1 = b"
        using provide_untyped_cap_ok [OF less.prems(1) True k(1,4) win(2)] by blast
      obtain b' ps where b': "create_untypeds_for_region c device reg' first b1 = Some (True, b')"
        "creates_pieces (capCNodePtr c) device (?s + of_nat (2 ^ k)) (?d - 2 ^ k) first b1 b' ps"
        using rec [OF b1(2)] by blast
      have "create_untypeds_for_region c device reg first b = Some (True, b')"
        using ne b'(1) b1(1) True min by (subst create_untypeds_for_region.simps) (simp add: is_empty_def k(2) Let_def reg'_def)
      moreover have "\<exists>qs. creates_pieces (capCNodePtr c) device ?s ?d first b b' qs"
      proof (cases "unat (slot_pos_cur b) < unat first + 230")
        case lt: True
        note b1' = b1(3) [unfolded if_P [OF lt]]
        show ?thesis using creates_pieces_take [OF b'(2) True k(1,3,4) b1' [THEN conjunct1] b1' [THEN conjunct2, THEN conjunct1]
          b1' [THEN conjunct2, THEN conjunct2]] by blast
      next
        case False
        then have "b1 = b" using b1(3) by simp
        with b'(2) False k(3) show ?thesis by (intro exI) (rule creates_pieces_skip, auto)
      qed
      ultimately show ?thesis by blast
    qed
  qed
qed

text \<open>
  C38: Handing a region of memory to the initial thread as untyped capabilities ends and loses nothing: the new
  slots of the root CNode hold untyped capabilities whose pieces are aligned to their size, between 16 bytes and
  \<open>2 ^ 47\<close> bytes large, pairwise disjoint and inside the region; no other slot changes; and when the region
  is a multiple of 16 bytes and the boot information has room, the pieces cover the region exactly.
\<close>

theorem create_untypeds_correct:
  assumes "untyped_room first b" "\<not> device \<longrightarrow> PPTR_BASE \<le> r_start reg \<and> r_start reg \<le> r_end reg \<and> r_end reg \<le> PPTR_TOP"
  shows "\<exists>b' ps. create_untypeds_for_region c device reg first b = Some (True, b') \<and>
    unat (slot_pos_cur b') = unat (slot_pos_cur b) + length ps \<and>
    pieces_ok (r_start reg) (unat (r_end reg - r_start reg)) ps \<and>
    slots_hold (capCNodePtr c) (slot_pos_cur b) (map (untyped_piece (r_start reg) device) ps) b' \<and>
    (\<forall>q. (\<forall>i < length ps. q \<noteq> capCNodePtr c + 32 * (slot_pos_cur b + of_nat i)) \<longrightarrow>
      ks_ctes (boot_ks b') q = ks_ctes (boot_ks b) q) \<and>
    (16 dvd unat (r_start reg) \<and> 16 dvd unat (r_end reg - r_start reg) \<and> unat (slot_pos_cur b') < unat first + 230 \<longrightarrow>
      pieces_cover ps = {0 ..< unat (r_end reg - r_start reg)})"
  using create_untypeds_for_region_ok [OF assms] unfolding creates_pieces_def by blast

text \<open>A region of the kernel window that starts and ends off any large boundary.\<close>

definition sample_boot :: boot_state where
  "sample_boot = (ndks_boot_init empty_kstate)\<lparr>bi_frame := Some \<lparr> extraLen = 0, nodeID = 0, numNodes = 1, numIOPTLevels = 0, ipcBuffer = 0,
     bi_empty = \<lparr> sl_start = 0, sl_end = 0 \<rparr>, sharedFrames = \<lparr> sl_start = 0, sl_end = 0 \<rparr>, userImageFrames = \<lparr> sl_start = 0, sl_end = 0 \<rparr>,
     userImagePaging = \<lparr> sl_start = 0, sl_end = 0 \<rparr>, ioSpaceCaps = \<lparr> sl_start = 0, sl_end = 0 \<rparr>, extraBIPages = \<lparr> sl_start = 0, sl_end = 0 \<rparr>,
     initThreadCNodeSizeBits = 12, initThreadDomain = 0, bi_untyped = \<lparr> sl_start = 0, sl_end = 0 \<rparr>,
     untypedList = replicate 230 \<lparr> ud_paddr = 0, ud_sizeBits = 0, ud_isDevice = False \<rparr> \<rparr>\<rparr>"

theorem create_untypeds_correct_witness:
  "\<exists>b' ps. create_untypeds_for_region (cap_cnode_cap 0 52 12 0xffffff8048000000) False
      \<lparr> r_start = 0xffffff8040200010, r_end = 0xffffff8040300000 \<rparr> 16 sample_boot = Some (True, b') \<and>
    pieces_ok 0xffffff8040200010 0xffff0 ps"
proof -
  have "untyped_room 16 sample_boot" by (simp add: untyped_room_def sample_boot_def ndks_boot_init_def SEL4_NUM_INITIAL_CAPS_def)
  from create_untypeds_correct [OF this, of False "\<lparr> r_start = 0xffffff8040200010, r_end = 0xffffff8040300000 \<rparr>" "cap_cnode_cap 0 52 12 0xffffff8048000000"]
  show ?thesis by (auto simp: PPTR_BASE_def PPTR_TOP_def)
qed

end
