(* ===== verification/RootServer.thy ===== *)
theory RootServer
  imports BootMem Syscall
begin

text \<open>
  Creation of the initial thread: the memory and the objects of the root server
  (\<^verbatim>\<open>kernel/src/boot/root_server.rs\<close>), its page tables (\<^verbatim>\<open>sel4_vspace/src/arch/aarch64/boot.rs\<close>) and the order in
  which the booting kernel runs these steps (\<^verbatim>\<open>boot/mod.rs\<close>, \<^verbatim>\<open>arch/aarch64/boot.rs\<close>).  Device registers, the
  kernel's own page tables and cache maintenance are not part of the state.
\<close>

section \<open>Sizes\<close>

definition PD_INDEX_OFFSET :: word64 where "PD_INDEX_OFFSET = 21"
definition PUD_INDEX_OFFSET :: word64 where "PUD_INDEX_OFFSET = 30"
definition PGD_INDEX_OFFSET :: word64 where "PGD_INDEX_OFFSET = 39"
definition BI_FRAME_SIZE_BITS :: word64 where "BI_FRAME_SIZE_BITS = 12"
definition SEL4_VSPACE_BITS :: word64 where "SEL4_VSPACE_BITS = 12"
definition IT_ASID :: word64 where "IT_ASID = 1"
definition BOOT_INFO_HEADER_SIZE :: word64 where "BOOT_INFO_HEADER_SIZE = 16"

definition get_n_paging :: "region \<Rightarrow> word64 \<Rightarrow> word64" where
  "get_n_paging v_reg bits =
    (let start = round_down (r_start v_reg) bits; end' = round_up (r_end v_reg) bits in
     (end' - start) div bit_mac bits)"

definition arch_get_n_paging :: "region \<Rightarrow> word64" where
  "arch_get_n_paging it_v_reg =
     get_n_paging it_v_reg (3 * PT_INDEX_BITS + SEL4_PAGE_BITS) +
     get_n_paging it_v_reg (PT_INDEX_BITS + SEL4_PAGE_BITS + PT_INDEX_BITS) +
     get_n_paging it_v_reg (PT_INDEX_BITS + SEL4_PAGE_BITS)"

definition calculate_extra_bi_size_bits :: "word64 \<Rightarrow> word64" where
  "calculate_extra_bi_size_bits size' =
    (if size' = 0 then 0
     else
       let clzl_ret = leading_zeros (round_up size' SEL4_PAGE_BITS);
           msb = WORD_BITS - 1 - clzl_ret in
       if size' > bit_mac msb then msb + 1 else msb)"

definition calculate_rootserver_size :: "region \<Rightarrow> word64 \<Rightarrow> word64" where
  "calculate_rootserver_size it_v_reg extra_bi_size_bits =
    (let size' = bit_mac (CONFIG_ROOT_CNODE_SIZE_BITS + SEL4_SLOT_BITS);
         size' = size' + bit_mac SEL4_TCB_BITS;
         size' = size' + bit_mac SEL4_PAGE_BITS;
         size' = size' + bit_mac BI_FRAME_SIZE_BITS;
         size' = size' + bit_mac SEL4_ASID_POOL_BITS;
         size' = size' + (if extra_bi_size_bits > 0 then bit_mac extra_bi_size_bits else 0);
         size' = size' + bit_mac SEL4_VSPACE_BITS in
     size' + arch_get_n_paging it_v_reg * bit_mac SEL4_PAGE_TABLE_BITS)"

definition rootserver_max_size_bits :: "word64 \<Rightarrow> word64" where
  "rootserver_max_size_bits extra_bi_size_bits =
    (let cnode_size_bits = CONFIG_ROOT_CNODE_SIZE_BITS + SEL4_SLOT_BITS;
         maxx = (if cnode_size_bits > SEL4_VSPACE_BITS then cnode_size_bits else SEL4_VSPACE_BITS) in
     if maxx > extra_bi_size_bits then maxx else extra_bi_size_bits)"

section \<open>Memory of the root server\<close>

definition alloc_rootserver_obj :: "word64 \<Rightarrow> word64 \<Rightarrow> boot_state \<Rightarrow> (ptr \<times> boot_state) option" where
  "alloc_rootserver_obj size_bits n b = do {
     let allocated = r_start (rootserver_mem b);
     kassert (allocated mod bit_mac size_bits = 0);
     let b = b\<lparr>rootserver_mem := (rootserver_mem b)\<lparr>r_start := allocated + n * bit_mac size_bits\<rparr>\<rparr>;
     kassert (r_start (rootserver_mem b) \<le> r_end (rootserver_mem b));
     Some (allocated, b)
   }"

definition upd_rs :: "(rootserver_mem_t \<Rightarrow> rootserver_mem_t) \<Rightarrow> boot_state \<Rightarrow> boot_state" where
  "upd_rs f b = b\<lparr>rootserver := f (rootserver b)\<rparr>"

definition maybe_alloc_extra_bi :: "word64 \<Rightarrow> word64 \<Rightarrow> boot_state \<Rightarrow> boot_state option" where
  "maybe_alloc_extra_bi cmp_size_bits extra_bi_size_bits b =
    (if extra_bi_size_bits \<ge> cmp_size_bits \<and> rs_extra_bi (rootserver b) = 0 then do {
       (p, b) \<leftarrow> alloc_rootserver_obj extra_bi_size_bits 1 b;
       Some (upd_rs (\<lambda>r. r\<lparr>rs_extra_bi := p\<rparr>) b)
     } else Some b)"

definition create_rootserver_objects :: "word64 \<Rightarrow> region \<Rightarrow> word64 \<Rightarrow> boot_state \<Rightarrow> boot_state option" where
  "create_rootserver_objects start it_v_reg extra_bi_size_bits b = do {
     let cnode_size_bits = CONFIG_ROOT_CNODE_SIZE_BITS + SEL4_SLOT_BITS;
     let max' = rootserver_max_size_bits extra_bi_size_bits;
     let size' = calculate_rootserver_size it_v_reg extra_bi_size_bits;
     let b = b\<lparr>rootserver_mem := \<lparr> r_start = start, r_end = start + size' \<rparr>\<rparr>;
     b \<leftarrow> maybe_alloc_extra_bi max' extra_bi_size_bits b;
     (p, b) \<leftarrow> alloc_rootserver_obj cnode_size_bits 1 b;
     let b = upd_rs (\<lambda>r. r\<lparr>rs_cnode := p\<rparr>) b;
     b \<leftarrow> maybe_alloc_extra_bi SEL4_VSPACE_BITS extra_bi_size_bits b;
     (p, b) \<leftarrow> alloc_rootserver_obj SEL4_VSPACE_BITS 1 b;
     let b = upd_rs (\<lambda>r. r\<lparr>rs_vspace := p\<rparr>) b;
     b \<leftarrow> maybe_alloc_extra_bi SEL4_PAGE_BITS extra_bi_size_bits b;
     (p, b) \<leftarrow> alloc_rootserver_obj SEL4_ASID_POOL_BITS 1 b;
     let b = upd_rs (\<lambda>r. r\<lparr>rs_asid_pool := p\<rparr>) b;
     (p, b) \<leftarrow> alloc_rootserver_obj SEL4_PAGE_BITS 1 b;
     let b = upd_rs (\<lambda>r. r\<lparr>rs_ipc_buf := p\<rparr>) b;
     (p, b) \<leftarrow> alloc_rootserver_obj BI_FRAME_SIZE_BITS 1 b;
     let b = upd_rs (\<lambda>r. r\<lparr>rs_boot_info := p\<rparr>) b;
     let n = arch_get_n_paging it_v_reg;
     (p, b) \<leftarrow> alloc_rootserver_obj SEL4_PAGE_TABLE_BITS n b;
     let b = upd_rs (\<lambda>r. r\<lparr>rs_paging := \<lparr> r_start = p, r_end = p + n * bit_mac SEL4_PAGE_TABLE_BITS \<rparr>\<rparr>) b;
     (p, b) \<leftarrow> alloc_rootserver_obj SEL4_TCB_BITS 1 b;
     let b = upd_rs (\<lambda>r. r\<lparr>rs_tcb := p\<rparr>) b;
     kassert (r_start (rootserver_mem b) = r_end (rootserver_mem b));
     Some b
   }"

text \<open>The index \<open>i\<close> of the code, which counts down to \<^verbatim>\<open>usize::MAX\<close>, is the argument minus one.\<close>

fun skip_empty :: "nat \<Rightarrow> region list \<Rightarrow> nat" where
  "skip_empty 0 fm = 0"
| "skip_empty (Suc i) fm = (if is_empty (fm ! i) then skip_empty i fm else Suc i)"

fun mem_init_loop :: "nat \<Rightarrow> region \<Rightarrow> word64 \<Rightarrow> boot_state \<Rightarrow> boot_state option" where
  "mem_init_loop 0 it_v_reg extra_bi_size_bits b = Some b"
| "mem_init_loop (Suc i) it_v_reg extra_bi_size_bits b = do {
     let size' = calculate_rootserver_size it_v_reg extra_bi_size_bits;
     let max' = rootserver_max_size_bits extra_bi_size_bits;
     kassert (i < length (freemem b) - 1);
     kassert (is_empty (freemem b ! (i + 1)));
     let reg = freemem b ! i;
     let unaligned_start = r_end reg - size';
     let start = round_down unaligned_start max';
     if unaligned_start \<le> r_end reg \<and> start \<ge> r_start reg then do {
       b \<leftarrow> create_rootserver_objects start it_v_reg extra_bi_size_bits b;
       let fm = (freemem b)[i + 1 := \<lparr> r_start = start + size', r_end = r_end reg \<rparr>];
       Some (b\<lparr>freemem := fm[i := reg\<lparr>r_end := start\<rparr>]\<rparr>)
     } else mem_init_loop i it_v_reg extra_bi_size_bits
         (b\<lparr>freemem := (freemem b)[i + 1 := reg, i := region_empty]\<rparr>)
   }"

definition root_server_mem_init :: "region \<Rightarrow> word64 \<Rightarrow> boot_state \<Rightarrow> boot_state option" where
  "root_server_mem_init it_v_reg extra_bi_size_bits b =
     mem_init_loop (skip_empty (length (freemem b)) (freemem b)) it_v_reg extra_bi_size_bits b"

definition it_alloc_paging :: "boot_state \<Rightarrow> (ptr \<times> boot_state) option" where
  "it_alloc_paging b = do {
     let allocated = r_start (rs_paging (rootserver b));
     let b = upd_rs (\<lambda>r. r\<lparr>rs_paging := (rs_paging r)\<lparr>r_start := allocated + bit_mac SEL4_PAGE_TABLE_BITS\<rparr>\<rparr>) b;
     kassert (r_start (rs_paging (rootserver b)) \<le> r_end (rs_paging (rootserver b)));
     Some (allocated, b)
   }"

section \<open>Page tables of the initial thread\<close>

definition pt_index :: "word64 \<Rightarrow> word64" where "pt_index v = drop_bit 12 v AND 0x1ff"
definition pd_index :: "word64 \<Rightarrow> word64" where "pd_index v = drop_bit 21 v AND 0x1ff"
definition pud_index :: "word64 \<Rightarrow> word64" where "pud_index v = drop_bit 30 v AND 0x1ff"
definition pgd_index :: "word64 \<Rightarrow> word64" where "pgd_index v = drop_bit 39 v AND 0x1ff"

definition PAGE_ADDR_MASK :: word64 where "PAGE_ADDR_MASK = mask_bits 48 AND NOT 0xfff"

definition set_next_level_paddr :: "word64 \<Rightarrow> word64 \<Rightarrow> word64" where
  "set_next_level_paddr addr e = (e AND NOT PAGE_ADDR_MASK) OR (addr AND PAGE_ADDR_MASK)"

definition set_attr :: "word64 \<Rightarrow> word64 \<Rightarrow> word64" where
  "set_attr value' e = (e AND PAGE_ADDR_MASK) OR (value' AND NOT PAGE_ADDR_MASK)"

definition pte_attr :: "word64 \<Rightarrow> word64" where
  "pte_attr e = e AND NOT PAGE_ADDR_MASK"

definition new_page :: "word64 \<Rightarrow> word64 \<Rightarrow> word64" where
  "new_page addr sign = (addr AND PAGE_ADDR_MASK) OR (sign AND NOT PAGE_ADDR_MASK)"

definition next_level_slice :: "word64 \<Rightarrow> ptr" where
  "next_level_slice e = to_pptr (next_level_paddr e)"

definition upd_pte :: "ptr \<Rightarrow> (word64 \<Rightarrow> word64) \<Rightarrow> kstate \<Rightarrow> kstate" where
  "upd_pte p f s = s\<lparr>ks_ptes := (ks_ptes s)(p := f (ks_ptes s p))\<rparr>"

datatype find_type = PDE | PUDE | PTE

definition find_pt :: "ptr \<Rightarrow> word64 \<Rightarrow> find_type \<Rightarrow> kstate \<Rightarrow> ptr" where
  "find_pt vspace_root vptr ftype s =
    (let pud = next_level_slice (ks_ptes s (vspace_root + 8 * pgd_index vptr)) in
     if ftype = PUDE then pud + 8 * pud_index vptr
     else
       let pd = next_level_slice (ks_ptes s (pud + 8 * pud_index vptr)) in
       if ftype = PDE then pd + 8 * pd_index vptr
       else
         let pt = next_level_slice (ks_ptes s (pd + 8 * pd_index vptr)) in
         pt + 8 * pt_index vptr)"

definition map_it_pt_cap :: "cap \<Rightarrow> cap \<Rightarrow> kstate \<Rightarrow> kstate option" where
  "map_it_pt_cap vspace_cap pt_cap s = do {
     target_pte \<leftarrow> convert_to_mut_type_ref (find_pt (capVSBasePtr vspace_cap) (capPTMappedAddress pt_cap) PDE s);
     Some (upd_pte target_pte (\<lambda>e. set_attr 3 (set_next_level_paddr (to_paddr (capPTBasePtr pt_cap)) e)) s)
   }"

definition map_it_pd_cap :: "cap \<Rightarrow> cap \<Rightarrow> kstate \<Rightarrow> kstate option" where
  "map_it_pd_cap vspace_cap pd_cap s = do {
     let pgd = capVSBasePtr vspace_cap;
     let vptr = capPTMappedAddress pd_cap;
     kassert (capPTIsMapped pd_cap);
     let pgde = ks_ptes s (pgd + 8 * pgd_index vptr);
     kassert (pte_attr pgde = 3);
     Some (upd_pte (next_level_slice pgde + 8 * pud_index vptr) (\<lambda>_. new_page (to_paddr (capPTBasePtr pd_cap)) 3) s)
   }"

definition map_it_pud_cap :: "cap \<Rightarrow> cap \<Rightarrow> kstate \<Rightarrow> kstate option" where
  "map_it_pud_cap vspace_cap pud_cap s = do {
     let pgd = capVSBasePtr vspace_cap;
     let vptr = capPTMappedAddress pud_cap;
     kassert (capPTIsMapped pud_cap);
     Some (upd_pte (pgd + 8 * pgd_index vptr) (\<lambda>_. new_page (to_paddr (capPTBasePtr pud_cap)) 3) s)
   }"

definition map_it_frame_cap :: "cap \<Rightarrow> cap \<Rightarrow> bool \<Rightarrow> kstate \<Rightarrow> kstate option" where
  "map_it_frame_cap vspace_cap frame_cap exec s = do {
     pte \<leftarrow> convert_to_mut_type_ref (find_pt (capVSBasePtr vspace_cap) (capFMappedAddress frame_cap) PTE s);
     Some (upd_pte pte (\<lambda>e. set_next_level_paddr (to_paddr (capFBasePtr frame_cap))
       (set_attr (pte_new_4k_page (of_bool (\<not> exec)) 0 1 1 0 1 0) e)) s)
   }"

definition create_it_pud_cap :: "cap \<Rightarrow> ptr \<Rightarrow> word64 \<Rightarrow> word64 \<Rightarrow> kstate \<Rightarrow> (cap \<times> kstate) option" where
  "create_it_pud_cap vspace_cap pptr vptr asid s = do {
     let c = cap_page_table_cap (ucast asid) pptr True vptr;
     s \<leftarrow> map_it_pud_cap vspace_cap c s;
     Some (c, s)
   }"

definition create_it_pd_cap :: "cap \<Rightarrow> ptr \<Rightarrow> word64 \<Rightarrow> word64 \<Rightarrow> kstate \<Rightarrow> (cap \<times> kstate) option" where
  "create_it_pd_cap vspace_cap pptr vptr asid s = do {
     let c = cap_page_table_cap (ucast asid) pptr True vptr;
     s \<leftarrow> map_it_pd_cap vspace_cap c s;
     Some (c, s)
   }"

definition create_it_pt_cap :: "cap \<Rightarrow> ptr \<Rightarrow> word64 \<Rightarrow> word64 \<Rightarrow> kstate \<Rightarrow> (cap \<times> kstate) option" where
  "create_it_pt_cap vspace_cap pptr vptr asid s = do {
     let c = cap_page_table_cap (ucast asid) pptr True vptr;
     s \<leftarrow> map_it_pt_cap vspace_cap c s;
     Some (c, s)
   }"

definition create_it_frame_cap :: "ptr \<Rightarrow> word64 \<Rightarrow> word64 \<Rightarrow> bool \<Rightarrow> cap" where
  "create_it_frame_cap pptr vptr asid use_large =
     cap_frame_cap (ucast asid) pptr (if use_large then 1 else 0) vptr (vm_rights_word VMReadWrite) False"

definition create_unmapped_it_frame_cap :: "ptr \<Rightarrow> bool \<Rightarrow> cap" where
  "create_unmapped_it_frame_cap pptr use_large = create_it_frame_cap pptr 0 0 use_large"

definition create_mapped_it_frame_cap ::
  "cap \<Rightarrow> ptr \<Rightarrow> word64 \<Rightarrow> word64 \<Rightarrow> bool \<Rightarrow> bool \<Rightarrow> kstate \<Rightarrow> (cap \<times> kstate) option" where
  "create_mapped_it_frame_cap pd_cap pptr vptr asid use_large exec s = do {
     let c = create_it_frame_cap pptr vptr asid use_large;
     s \<leftarrow> map_it_frame_cap pd_cap c exec s;
     Some (c, s)
   }"

section \<open>Capabilities of the initial thread\<close>

definition SEL4_CAP_INIT_THREAD_TCB :: word64 where "SEL4_CAP_INIT_THREAD_TCB = 1"
definition SEL4_CAP_INIT_THREAD_CNODE :: word64 where "SEL4_CAP_INIT_THREAD_CNODE = 2"
definition SEL4_CAP_INIT_THREAD_VSPACE :: word64 where "SEL4_CAP_INIT_THREAD_VSPACE = 3"
definition SEL4_CAP_IRQ_CONTROL :: word64 where "SEL4_CAP_IRQ_CONTROL = 4"
definition SEL4_CAP_ASID_CONTROL :: word64 where "SEL4_CAP_ASID_CONTROL = 5"
definition SEL4_CAP_INIT_THREAD_ASID_POOL :: word64 where "SEL4_CAP_INIT_THREAD_ASID_POOL = 6"
definition SEL4_CAP_BOOT_INFO_FRAME :: word64 where "SEL4_CAP_BOOT_INFO_FRAME = 9"
definition SEL4_CAP_INIT_THREAD_IPC_BUFFER :: word64 where "SEL4_CAP_INIT_THREAD_IPC_BUFFER = 10"
definition SEL4_CAP_DOMAIN :: word64 where "SEL4_CAP_DOMAIN = 11"
definition KERNEL_TIMER_IRQ :: word64 where "KERNEL_TIMER_IRQ = 27"
definition SEL4_MAX_PRIO :: word64 where "SEL4_MAX_PRIO = CONFIG_NUM_PRIORITIES - 1"

definition upd_ks :: "(kstate \<Rightarrow> kstate) \<Rightarrow> boot_state \<Rightarrow> boot_state" where
  "upd_ks f b = b\<lparr>boot_ks := f (boot_ks b)\<rparr>"

definition on_ks :: "(kstate \<Rightarrow> kstate option) \<Rightarrow> boot_state \<Rightarrow> boot_state option" where
  "on_ks f b = map_option (\<lambda>s. b\<lparr>boot_ks := s\<rparr>) (f (boot_ks b))"

definition on_ks_ret :: "(kstate \<Rightarrow> ('a \<times> kstate) option) \<Rightarrow> boot_state \<Rightarrow> ('a \<times> boot_state) option" where
  "on_ks_ret f b = map_option (\<lambda>(x, s). (x, b\<lparr>boot_ks := s\<rparr>)) (f (boot_ks b))"

text \<open>Writing the slot with the given number of the root CNode.\<close>

definition write_root_slot :: "cap \<Rightarrow> word64 \<Rightarrow> cap \<Rightarrow> boot_state \<Rightarrow> boot_state" where
  "write_root_slot root_cnode_cap i c = upd_ks (write_slot (capCNodePtr root_cnode_cap + 32 * i) c)"

definition create_root_cnode :: "boot_state \<Rightarrow> cap \<times> boot_state" where
  "create_root_cnode b =
    (let c = cap_cnode_cap 0 (ucast (WORD_BITS - CONFIG_ROOT_CNODE_SIZE_BITS)) (ucast CONFIG_ROOT_CNODE_SIZE_BITS)
               (rs_cnode (rootserver b)) in
     (c, write_root_slot c SEL4_CAP_INIT_THREAD_CNODE c b))"

definition CONFIG_NUM_DOMAINS :: word64 where "CONFIG_NUM_DOMAINS = 1"

definition create_domain_cap :: "cap \<Rightarrow> boot_state \<Rightarrow> boot_state option" where
  "create_domain_cap root_cnode_cap b = do {
     kassert (KS_DOM_SCHEDULE_LENGTH > 0);
     kassert (\<forall>d \<in> set ksDomSchedule. ds_domain d < CONFIG_NUM_DOMAINS \<and> ds_length d > 0);
     Some (write_root_slot root_cnode_cap SEL4_CAP_DOMAIN cap_domain_cap b)
   }"

fun init_irqs_loop :: "nat list \<Rightarrow> kstate \<Rightarrow> kstate option" where
  "init_irqs_loop [] s = Some s"
| "init_irqs_loop (i # is) s = do {
     s \<leftarrow> (if of_nat i \<noteq> IRQ_INVALID then set_irq_state_by_irq IRQInactive (of_nat i) s else Some s);
     init_irqs_loop is s
   }"

definition init_irqs :: "cap \<Rightarrow> boot_state \<Rightarrow> boot_state option" where
  "init_irqs root_cnode_cap b = do {
     b \<leftarrow> on_ks (init_irqs_loop [0 ..< unat MAX_IRQ + 1]) b;
     b \<leftarrow> on_ks (set_irq_state_by_irq IRQTimer KERNEL_TIMER_IRQ) b;
     Some (write_root_slot root_cnode_cap SEL4_CAP_IRQ_CONTROL cap_irq_control_cap b)
   }"

definition slot_region_zero :: SlotRegion where
  "slot_region_zero = \<lparr> sl_start = 0, sl_end = 0 \<rparr>"

definition rust_populate_bi_frame :: "word64 \<Rightarrow> word64 \<Rightarrow> word64 \<Rightarrow> word64 \<Rightarrow> boot_state \<Rightarrow> boot_state option" where
  "rust_populate_bi_frame node_id num_nodes ipcbuf_vptr extra_bi_size b = do {
     let b = upd_ks (clear_memory (rs_boot_info (rootserver b)) BI_FRAME_SIZE_BITS) b;
     let b = (if extra_bi_size \<noteq> 0
       then upd_ks (clear_memory (rs_extra_bi (rootserver b)) (calculate_extra_bi_size_bits extra_bi_size)) b else b);
     d \<leftarrow> index_checked ksDomSchedule (ksDomScheduleIdx (boot_ks b));
     Some (b\<lparr>bi_frame := Some \<lparr> extraLen = extra_bi_size, nodeID = node_id, numNodes = num_nodes, numIOPTLevels = 0,
         ipcBuffer = ipcbuf_vptr, bi_empty = slot_region_zero, sharedFrames = slot_region_zero,
         userImageFrames = slot_region_zero, userImagePaging = slot_region_zero, ioSpaceCaps = slot_region_zero,
         extraBIPages = slot_region_zero, initThreadCNodeSizeBits = CONFIG_ROOT_CNODE_SIZE_BITS,
         initThreadDomain = ds_domain d, bi_untyped = slot_region_zero,
         untypedList = replicate (unat CONFIG_MAX_NUM_BOOTINFO_UNTYPED_CAPS)
           \<lparr> ud_paddr = 0, ud_sizeBits = 0, ud_isDevice = False \<rparr> \<rparr>,
       slot_pos_cur := SEL4_NUM_INITIAL_CAPS\<rparr>)
   }"

definition upd_bi :: "(BootInfo \<Rightarrow> BootInfo) \<Rightarrow> boot_state \<Rightarrow> boot_state option" where
  "upd_bi f b = map_option (\<lambda>bi. b\<lparr>bi_frame := Some (f bi)\<rparr>) (bi_frame b)"

text \<open>
  The three loops that create the page tables of one level differ in the function that makes the capability and
  in the size of the memory one table covers.
\<close>

partial_function (option) create_it_tables ::
  "(cap \<Rightarrow> ptr \<Rightarrow> word64 \<Rightarrow> word64 \<Rightarrow> kstate \<Rightarrow> (cap \<times> kstate) option) \<Rightarrow> word64 \<Rightarrow> cap \<Rightarrow> cap \<Rightarrow> word64 \<Rightarrow> word64 \<Rightarrow>
     boot_state \<Rightarrow> (bool \<times> boot_state) option" where
  "create_it_tables create bits root_cnode_cap vspace_cap vptr end' b =
    (if vptr < end' then do {
       (p, b) \<leftarrow> it_alloc_paging b;
       (c, b) \<leftarrow> on_ks_ret (create vspace_cap p vptr IT_ASID) b;
       (case provide_cap root_cnode_cap c b of (ok, b) \<Rightarrow>
         if \<not> ok then Some (False, b)
         else create_it_tables create bits root_cnode_cap vspace_cap (vptr + bit_mac bits) end' b)
     } else Some (True, b))"

declare create_it_tables.simps [code]

definition rust_create_it_address_space :: "cap \<Rightarrow> region \<Rightarrow> boot_state \<Rightarrow> (cap \<times> boot_state) option" where
  "rust_create_it_address_space root_cnode_cap it_v_reg b = do {
     let vspace_cap = cap_vspace_cap (ucast IT_ASID) (rs_vspace (rootserver b)) True;
     let failed = cap_vspace_cap 0 0 False;
     let slot_pos_before = slot_pos_cur b;
     let b = write_root_slot root_cnode_cap SEL4_CAP_INIT_THREAD_VSPACE vspace_cap b;
     (ok, b) \<leftarrow> create_it_tables create_it_pud_cap PGD_INDEX_OFFSET root_cnode_cap vspace_cap
       (align_down (r_start it_v_reg) PGD_INDEX_OFFSET) (r_end it_v_reg) b;
     if \<not> ok then Some (failed, b)
     else do {
       (ok, b) \<leftarrow> create_it_tables create_it_pd_cap PUD_INDEX_OFFSET root_cnode_cap vspace_cap
         (align_down (r_start it_v_reg) PUD_INDEX_OFFSET) (r_end it_v_reg) b;
       if \<not> ok then Some (failed, b)
       else do {
         (ok, b) \<leftarrow> create_it_tables create_it_pt_cap PD_INDEX_OFFSET root_cnode_cap vspace_cap
           (align_down (r_start it_v_reg) PD_INDEX_OFFSET) (r_end it_v_reg) b;
         if \<not> ok then Some (failed, b)
         else do {
           b \<leftarrow> upd_bi (\<lambda>bi. bi\<lparr>userImagePaging := \<lparr> sl_start = slot_pos_before, sl_end = slot_pos_cur b \<rparr>\<rparr>) b;
           Some (vspace_cap, b)
         }
       }
     }
   }"

partial_function (option) create_frames_loop ::
  "cap \<Rightarrow> cap \<Rightarrow> bool \<Rightarrow> word64 \<Rightarrow> word64 \<Rightarrow> word64 \<Rightarrow> boot_state \<Rightarrow> (bool \<times> boot_state) option" where
  "create_frames_loop root_cnode_cap pd_cap do_map pv_offset f end' b =
    (if f < end' then do {
       (c, b) \<leftarrow> (if do_map
         then on_ks_ret (create_mapped_it_frame_cap pd_cap f (to_paddr (f - pv_offset)) IT_ASID False True) b
         else Some (create_unmapped_it_frame_cap f False, b));
       (case provide_cap root_cnode_cap c b of (ok, b) \<Rightarrow>
         if \<not> ok then Some (False, b)
         else create_frames_loop root_cnode_cap pd_cap do_map pv_offset (f + bit_mac SEL4_PAGE_BITS) end' b)
     } else Some (True, b))"

declare create_frames_loop.simps [code]

text \<open>The result pairs the region of slots with the flag for success.\<close>

definition rust_create_frames_of_region ::
  "cap \<Rightarrow> cap \<Rightarrow> region \<Rightarrow> bool \<Rightarrow> word64 \<Rightarrow> boot_state \<Rightarrow> ((SlotRegion \<times> bool) \<times> boot_state) option" where
  "rust_create_frames_of_region root_cnode_cap pd_cap reg do_map pv_offset b = do {
     let slot_pos_before = slot_pos_cur b;
     (ok, b) \<leftarrow> create_frames_loop root_cnode_cap pd_cap do_map pv_offset (r_start reg) (r_end reg) b;
     if \<not> ok then Some ((slot_region_zero, False), b)
     else Some ((\<lparr> sl_start = slot_pos_before, sl_end = slot_pos_cur b \<rparr>, True), b)
   }"

definition create_bi_frame_cap :: "cap \<Rightarrow> cap \<Rightarrow> word64 \<Rightarrow> boot_state \<Rightarrow> boot_state option" where
  "create_bi_frame_cap root_cnode_cap pd_cap vptr b = do {
     (c, b) \<leftarrow> on_ks_ret (create_mapped_it_frame_cap pd_cap (rs_boot_info (rootserver b)) vptr IT_ASID False False) b;
     Some (write_root_slot root_cnode_cap SEL4_CAP_BOOT_INFO_FRAME c b)
   }"

definition init_bi_frame_cap :: "cap \<Rightarrow> cap \<Rightarrow> word64 \<Rightarrow> word64 \<Rightarrow> word64 \<Rightarrow> boot_state \<Rightarrow> (bool \<times> boot_state) option" where
  "init_bi_frame_cap root_cnode_cap it_pd_cap bi_frame_vptr extra_bi_size extra_bi_frame_vptr b = do {
     b \<leftarrow> create_bi_frame_cap root_cnode_cap it_pd_cap bi_frame_vptr b;
     if extra_bi_size > 0 then do {
       let start = rs_extra_bi (rootserver b);
       ((reg, ok), b) \<leftarrow> rust_create_frames_of_region root_cnode_cap it_pd_cap
         \<lparr> r_start = start, r_end = start + extra_bi_size \<rparr> True (to_paddr start - extra_bi_frame_vptr) b;
       if \<not> ok then Some (False, b)
       else do { b \<leftarrow> upd_bi (\<lambda>bi. bi\<lparr>extraBIPages := reg\<rparr>) b; Some (True, b) }
     } else Some (True, b)
   }"

definition create_ipcbuf_frame_cap :: "cap \<Rightarrow> cap \<Rightarrow> word64 \<Rightarrow> boot_state \<Rightarrow> (cap \<times> boot_state) option" where
  "create_ipcbuf_frame_cap root_cnode_cap pd_cap vptr b = do {
     let b = upd_ks (clear_memory (rs_ipc_buf (rootserver b)) SEL4_PAGE_BITS) b;
     (c, b) \<leftarrow> on_ks_ret (create_mapped_it_frame_cap pd_cap (rs_ipc_buf (rootserver b)) vptr IT_ASID False False) b;
     Some (c, write_root_slot root_cnode_cap SEL4_CAP_INIT_THREAD_IPC_BUFFER c b)
   }"

definition create_frame_ui_frames :: "cap \<Rightarrow> cap \<Rightarrow> region \<Rightarrow> word64 \<Rightarrow> boot_state \<Rightarrow> (bool \<times> boot_state) option" where
  "create_frame_ui_frames root_cnode_cap it_pd_cap ui_reg pv_offset b = do {
     ((reg, ok), b) \<leftarrow> rust_create_frames_of_region root_cnode_cap it_pd_cap ui_reg True pv_offset b;
     if \<not> ok then Some (False, b)
     else do { b \<leftarrow> upd_bi (\<lambda>bi. bi\<lparr>userImageFrames := reg\<rparr>) b; Some (True, b) }
   }"

definition create_it_asid_pool :: "cap \<Rightarrow> boot_state \<Rightarrow> cap \<times> boot_state" where
  "create_it_asid_pool root_cnode_cap b =
    (let ap_cap = cap_asid_pool_cap (ucast (shr IT_ASID ASID_LOW_BITS)) (rs_asid_pool (rootserver b));
         b = write_root_slot root_cnode_cap SEL4_CAP_INIT_THREAD_ASID_POOL ap_cap b in
     (ap_cap, write_root_slot root_cnode_cap SEL4_CAP_ASID_CONTROL cap_asid_control_cap b))"

definition write_it_asid_pool :: "cap \<Rightarrow> cap \<Rightarrow> kstate \<Rightarrow> kstate option" where
  "write_it_asid_pool it_ap_cap it_vspace_cap s = do {
     let ap = capASIDPool it_ap_cap;
     pool \<leftarrow> update_checked (ks_pools s ap) IT_ASID (asid_map_vspace (capVSBasePtr it_vspace_cap));
     set_asid_pool_by_index (shr IT_ASID ASID_LOW_BITS) ap (s\<lparr>ks_pools := (ks_pools s)(ap := pool)\<rparr>)
   }"

definition asid_init :: "cap \<Rightarrow> cap \<Rightarrow> boot_state \<Rightarrow> (bool \<times> boot_state) option" where
  "asid_init root_cnode_cap it_pd_cap b = do {
     let (it_ap_cap, b) = create_it_asid_pool root_cnode_cap b;
     if get_tag it_ap_cap = get_tag cap_null_cap then Some (False, b)
     else do { b \<leftarrow> on_ks (write_it_asid_pool it_ap_cap it_pd_cap) b; Some (True, b) }
   }"

definition create_initial_thread ::
  "cap \<Rightarrow> cap \<Rightarrow> word64 \<Rightarrow> word64 \<Rightarrow> word64 \<Rightarrow> cap \<Rightarrow> boot_state \<Rightarrow> (ptr \<times> boot_state) option" where
  "create_initial_thread root_cnode_cap it_pd_cap ui_v_entry bi_frame_vptr ipcbuf_vptr ipcbuf_cap b = do {
     tcb \<leftarrow> convert_to_mut_type_ref (rs_tcb (rootserver b) + TCB_OFFSET);
     let b = upd_ks (upd_tcb tcb (\<lambda>t. t\<lparr>tcbArch := ArchTCB_default\<rparr>)) b;
     cnode \<leftarrow> convert_to_mut_type_ref (capCNodePtr root_cnode_cap);
     ipc_buf_slot \<leftarrow> get_offset_slot cnode SEL4_CAP_INIT_THREAD_IPC_BUFFER;
     dc_ret \<leftarrow> derive_cap (ks_ctes (boot_ks b)) ipc_buf_slot ipcbuf_cap;
     if dc_status dc_ret \<noteq> EXCEPTION_NONE then Some (0, b)
     else do {
       cnode_slot \<leftarrow> get_offset_slot cnode SEL4_CAP_INIT_THREAD_CNODE;
       b \<leftarrow> on_ks (on_ctes (cte_insert root_cnode_cap cnode_slot (get_cspace tcb TCB_CTABLE))) b;
       vspace_slot \<leftarrow> get_offset_slot cnode SEL4_CAP_INIT_THREAD_VSPACE;
       b \<leftarrow> on_ks (on_ctes (cte_insert it_pd_cap vspace_slot (get_cspace tcb TCB_VTABLE))) b;
       b \<leftarrow> on_ks (on_ctes (cte_insert (dc_capability dc_ret) ipc_buf_slot (get_cspace tcb TCB_BUFFER))) b;
       a \<leftarrow> set_register (tcbArch (tcb_at (boot_ks b) tcb)) Cap bi_frame_vptr;
       a \<leftarrow> set_register a NextIP ui_v_entry;
       let b = upd_ks (upd_tcb tcb (\<lambda>t. t\<lparr>tcbIPCBuffer := ipcbuf_vptr, tcbArch := a, tcbMCP := SEL4_MAX_PRIO,
         tcbPriority := SEL4_MAX_PRIO\<rparr>)) b;
       b \<leftarrow> on_ks (set_thread_state tcb ThreadStateRunning) b;
       let b = upd_ks (setup_reply_master tcb) b;
       d \<leftarrow> index_checked ksDomSchedule (ksDomScheduleIdx (boot_ks b));
       let b = upd_ks (\<lambda>s. s\<lparr>ksCurDomain := ds_domain d, ksDomainTime := ds_length d\<rparr>) b;
       let b = upd_ks (upd_tcb tcb (\<lambda>t. t\<lparr>tcbDomain := ds_domain d\<rparr>)) b;
       tcb_slot \<leftarrow> get_offset_slot cnode SEL4_CAP_INIT_THREAD_TCB;
       Some (tcb, upd_ks (write_slot tcb_slot (cap_thread_cap tcb)) b)
     }
   }"

definition CONFIG_MAX_NUM_NODES :: word64 where "CONFIG_MAX_NUM_NODES = 1"

text \<open>The inner option is the result of the code: no initial thread.\<close>

definition root_server_init ::
  "region \<Rightarrow> word64 \<Rightarrow> word64 \<Rightarrow> word64 \<Rightarrow> word64 \<Rightarrow> word64 \<Rightarrow> region \<Rightarrow> word64 \<Rightarrow> word64 \<Rightarrow> boot_state \<Rightarrow>
     ((ptr \<times> cap) option \<times> boot_state) option" where
  "root_server_init it_v_reg extra_bi_size_bits ipcbuf_vptr bi_frame_vptr extra_bi_size extra_bi_frame_vptr ui_reg
     pv_offset v_entry b = do {
     b \<leftarrow> root_server_mem_init it_v_reg extra_bi_size_bits b;
     let (root_cnode_cap, b) = create_root_cnode b;
     if get_tag root_cnode_cap = get_tag cap_null_cap then Some (None, b) else do {
     b \<leftarrow> create_domain_cap root_cnode_cap b;
     b \<leftarrow> init_irqs root_cnode_cap b;
     b \<leftarrow> rust_populate_bi_frame 0 CONFIG_MAX_NUM_NODES ipcbuf_vptr extra_bi_size b;
     (it_pd_cap, b) \<leftarrow> rust_create_it_address_space root_cnode_cap it_v_reg b;
     if get_tag it_pd_cap = get_tag cap_null_cap then Some (None, b) else do {
     (ok, b) \<leftarrow> init_bi_frame_cap root_cnode_cap it_pd_cap bi_frame_vptr extra_bi_size extra_bi_frame_vptr b;
     if \<not> ok then Some (None, b) else do {
     (ipcbuf_cap, b) \<leftarrow> create_ipcbuf_frame_cap root_cnode_cap it_pd_cap ipcbuf_vptr b;
     if get_tag ipcbuf_cap = get_tag cap_null_cap then Some (None, b) else do {
     (ok, b) \<leftarrow> create_frame_ui_frames root_cnode_cap it_pd_cap ui_reg pv_offset b;
     if \<not> ok then Some (None, b) else do {
     (ok, b) \<leftarrow> asid_init root_cnode_cap it_pd_cap b;
     if \<not> ok then Some (None, b) else do {
     (initial, b) \<leftarrow> create_initial_thread root_cnode_cap it_pd_cap v_entry bi_frame_vptr ipcbuf_vptr ipcbuf_cap b;
     if initial = 0 then Some (None, b) else Some (Some (initial, root_cnode_cap), b)
   }}}}}}}"

section \<open>The boot sequence\<close>

definition SEL4_BOOTINFO_HEADER_FDT :: word64 where "SEL4_BOOTINFO_HEADER_FDT = 6"
definition SEL4_BOOTINFO_HEADER_PADDING :: word64 where "SEL4_BOOTINFO_HEADER_PADDING = 0"

text \<open>The result is the region of the device tree and the new size of the extra boot information.\<close>

definition init_dtb :: "word64 \<Rightarrow> word64 \<Rightarrow> word64 \<Rightarrow> (region \<times> word64) option" where
  "init_dtb dtb_size dtb_phys_addr extra_bi_size =
    (if dtb_size > 0 then
       let dtb_phys_end = dtb_phys_addr + dtb_size in
       if dtb_phys_end < dtb_phys_addr then None
       else if dtb_phys_end \<ge> PADDR_TOP then None
       else Some (\<lparr> r_start = dtb_phys_addr, r_end = dtb_phys_end \<rparr>, extra_bi_size + (BOOT_INFO_HEADER_SIZE + dtb_size))
     else Some (region_empty, extra_bi_size))"

definition init_bootinfo :: "word64 \<Rightarrow> word64 \<Rightarrow> word64 \<Rightarrow> boot_state \<Rightarrow> boot_state" where
  "init_bootinfo dtb_size dtb_phys_addr extra_bi_size b =
    (let extra_bi = rs_extra_bi (rootserver b);
         (offset, b) = (if dtb_size > 0
           then (BOOT_INFO_HEADER_SIZE + dtb_size,
             b\<lparr>boot_headers := (boot_headers b)(extra_bi := Some (SEL4_BOOTINFO_HEADER_FDT, BOOT_INFO_HEADER_SIZE + dtb_size)),
               boot_copies := boot_copies b @ [(extra_bi + BOOT_INFO_HEADER_SIZE, to_pptr dtb_phys_addr, dtb_size)]\<rparr>)
           else (0, b)) in
     if extra_bi_size > offset
     then b\<lparr>boot_headers := (boot_headers b)(extra_bi + offset := Some (SEL4_BOOTINFO_HEADER_PADDING, extra_bi_size - offset))\<rparr>
     else b)"

definition bi_finalise :: "word64 \<Rightarrow> word64 \<Rightarrow> word64 \<Rightarrow> boot_state \<Rightarrow> boot_state option" where
  "bi_finalise dtb_size dtb_phys_addr extra_bi_size b = do {
     b \<leftarrow> upd_bi (\<lambda>bi. bi\<lparr>bi_empty := \<lparr> sl_start = slot_pos_cur b, sl_end = bit_mac CONFIG_ROOT_CNODE_SIZE_BITS \<rparr>\<rparr>) b;
     Some (init_bootinfo dtb_size dtb_phys_addr extra_bi_size b)
   }"

definition init_core_state :: "ptr \<Rightarrow> kstate \<Rightarrow> kstate option" where
  "init_core_state scheduler_action s = do {
     let s = s\<lparr>ksSchedulerAction := scheduler_action\<rparr>;
     t \<leftarrow> get_idle_thread s;
     Some (set_current_thread t s)
   }"

definition KERNEL_ELF_BASE :: word64 where "KERNEL_ELF_BASE = PPTR_BASE_OFFSET + 0x40000000"

text \<open>\<open>ki_end\<close> and \<open>available\<close> come from the linker and the platform; \<open>res_reg\<close> is a local variable here.\<close>

definition init_freemem :: "ptr \<Rightarrow> region list \<Rightarrow> region \<Rightarrow> region \<Rightarrow> boot_state \<Rightarrow> (bool \<times> boot_state) option" where
  "init_freemem ki_end available ui_p_reg dtb_p_reg b =
    (let res = [\<lparr> r_start = to_pptr (kpptr_to_paddr KERNEL_ELF_BASE), r_end = to_pptr (kpptr_to_paddr ki_end) \<rparr>,
           region_empty, region_empty];
         index = 1;
         (res, index) = (if r_start dtb_p_reg \<noteq> 0 then (res[index := to_region dtb_p_reg], index + 1) else (res, index)) in
     if r_start ui_p_reg < PADDR_TOP then
       rust_init_freemem available (index + 1) (res[index := to_region ui_p_reg]) b
     else do {
       (_, b) \<leftarrow> reserve_region ui_p_reg b;
       rust_init_freemem available index res b
     })"

text \<open>The device frames of the kernel, as pairs of an address and the flag for use by user level.\<close>

fun reserve_kernel_devices :: "(word64 \<times> bool) list \<Rightarrow> boot_state \<Rightarrow> boot_state option" where
  "reserve_kernel_devices [] b = Some b"
| "reserve_kernel_devices ((paddr, user_available) # fs) b = do {
     b \<leftarrow> (if \<not> user_available
       then map_option snd (reserve_region \<lparr> r_start = paddr, r_end = paddr + bit_mac SEL4_PAGE_BITS \<rparr> b) else Some b);
     reserve_kernel_devices fs b
   }"

definition try_init_kernel ::
  "(word64 \<times> bool) list \<Rightarrow> region list \<Rightarrow> ptr \<Rightarrow> ptr \<Rightarrow> ptr \<Rightarrow> word64 \<Rightarrow> word64 \<Rightarrow> word64 \<Rightarrow> word64 \<Rightarrow> word64 \<Rightarrow> word64 \<Rightarrow> word64 \<Rightarrow>
     boot_state \<Rightarrow> (bool \<times> boot_state) option" where
  "try_init_kernel kernel_device_frames available ki_end idle_tcb idle_thread ui_p_reg_start ui_p_reg_end pv_offset
     v_entry dtb_phys_addr dtb_size ki_boot_end b = do {
     let boot_mem_reuse_reg = to_region \<lparr> r_start = kpptr_to_paddr KERNEL_ELF_BASE, r_end = kpptr_to_paddr ki_boot_end \<rparr>;
     let ui_p_reg = \<lparr> r_start = ui_p_reg_start, r_end = ui_p_reg_end \<rparr>;
     let ui_reg = to_region ui_p_reg;
     let ipcbuf_vptr = ui_p_reg_end - pv_offset;
     let bi_frame_vptr = ipcbuf_vptr + bit_mac SEL4_PAGE_BITS;
     let extra_bi_frame_vptr = bi_frame_vptr + bit_mac BI_FRAME_SIZE_BITS;
     b \<leftarrow> reserve_kernel_devices kernel_device_frames b;
     (case init_dtb dtb_size dtb_phys_addr 0 of
        None \<Rightarrow> Some (False, b)
      | Some (dtb_p_reg, extra_bi_size) \<Rightarrow> do {
          let extra_bi_size_bits = calculate_extra_bi_size_bits extra_bi_size;
          let it_v_reg = \<lparr> r_start = ui_p_reg_start - pv_offset, r_end = extra_bi_frame_vptr + bit_mac extra_bi_size_bits \<rparr>;
          if r_end it_v_reg \<ge> USER_TOP then Some (False, b)
          else do {
            (ok, b) \<leftarrow> init_freemem ki_end available ui_p_reg dtb_p_reg b;
            if \<not> ok then Some (False, b)
            else do {
              (initial, b) \<leftarrow> root_server_init it_v_reg extra_bi_size_bits ipcbuf_vptr bi_frame_vptr extra_bi_size
                extra_bi_frame_vptr ui_reg pv_offset v_entry b;
              case initial of
                None \<Rightarrow> Some (False, b)
              | Some (initial_thread, root_cnode_cap) \<Rightarrow> do {
                  b \<leftarrow> on_ks (create_idle_thread idle_tcb idle_thread) b;
                  b \<leftarrow> on_ks (init_core_state initial_thread) b;
                  (_, b) \<leftarrow> create_untypeds root_cnode_cap boot_mem_reuse_reg b;
                  b \<leftarrow> upd_bi (\<lambda>bi. bi\<lparr>sharedFrames := slot_region_zero\<rparr>) b;
                  b \<leftarrow> bi_finalise dtb_size dtb_phys_addr extra_bi_size b;
                  Some (True, b)
                }
            }
          }
        })
   }"

section \<open>The objects of the root server\<close>

text \<open>
  \<open>E\<close> is the size in bits of the extra boot information, 0 when there is none, and \<open>n\<close> the number of page
  tables.
\<close>

definition extra_ok :: "nat \<Rightarrow> bool" where
  "extra_ok E \<longleftrightarrow> E = 0 \<or> 12 \<le> E \<and> E \<le> 30"

definition rs_size :: "nat \<Rightarrow> nat \<Rightarrow> nat" where
  "rs_size E n = 2 ^ 17 + 4 * 2 ^ 12 + (if E = 0 then 0 else 2 ^ E) + n * 2 ^ 12 + 2 ^ 11"

definition rs_max :: "nat \<Rightarrow> nat" where
  "rs_max E = max 17 E"

definition cnode_off :: "nat \<Rightarrow> nat" where
  "cnode_off E = (if 17 \<le> E then 2 ^ E else 0)"

definition vspace_off :: "nat \<Rightarrow> nat" where
  "vspace_off E = 2 ^ 17 + (if E = 0 then 0 else 2 ^ E)"

lemma unat_extra: "extra_ok E \<Longrightarrow> unat (of_nat E :: word64) = E"
  by (rule unat_of_nat64) (auto simp: extra_ok_def)

lemma bit_mac_of_nat: "k < 64 \<Longrightarrow> bit_mac (of_nat k) = of_nat (2 ^ k)"
  by (simp add: bit_mac_def unsigned_of_nat take_bit_nat_eq_self)

lemma bit_mac_extra: "extra_ok E \<Longrightarrow> bit_mac (of_nat E) = of_nat (2 ^ E)"
  by (rule bit_mac_of_nat) (auto simp: extra_ok_def)

lemmas rs_consts = CONFIG_ROOT_CNODE_SIZE_BITS_def SEL4_SLOT_BITS_def SEL4_TCB_BITS_def SEL4_PAGE_BITS_def
  BI_FRAME_SIZE_BITS_def SEL4_ASID_POOL_BITS_def SEL4_VSPACE_BITS_def SEL4_PAGE_TABLE_BITS_def

lemma calculate_rootserver_size_eq:
  assumes "extra_ok E" "arch_get_n_paging it = of_nat n"
  shows "calculate_rootserver_size it (of_nat E) = of_nat (rs_size E n)"
proof -
  have "(of_nat E > (0 :: word64)) = (E \<noteq> 0)" using unat_extra [OF assms(1)] by (simp add: word_less_nat_alt)
  moreover have "bit_mac 17 = 2 ^ 17" "bit_mac 11 = 2 ^ 11" "bit_mac 12 = 2 ^ 12" by (simp_all add: bit_mac_def)
  ultimately show ?thesis using assms(2) bit_mac_extra [OF assms(1)]
    by (simp add: calculate_rootserver_size_def rs_size_def rs_consts Let_def)
qed

lemma rootserver_max_size_bits_eq:
  assumes "extra_ok E"
  shows "rootserver_max_size_bits (of_nat E) = of_nat (rs_max E)"
proof -
  have "((17 :: word64) > of_nat E) = (17 > E)" using unat_extra [OF assms] by (simp add: word_less_nat_alt)
  then show ?thesis by (auto simp: rootserver_max_size_bits_def rs_max_def rs_consts Let_def max_def)
qed

text \<open>A step of the allocator in a block of \<open>S\<close> bytes at \<open>start\<close>.\<close>

lemma alloc_at:
  assumes mem: "rootserver_mem b = \<lparr> r_start = start + of_nat off, r_end = start + of_nat S \<rparr>"
    and fits: "unat start + S < 2 ^ 64" "off + n * 2 ^ k \<le> S" "k < 64" and al: "2 ^ k dvd unat start" "2 ^ k dvd off"
  shows "alloc_rootserver_obj (of_nat k) (of_nat n) b =
    Some (start + of_nat off, b\<lparr>rootserver_mem := \<lparr> r_start = start + of_nat (off + n * 2 ^ k), r_end = start + of_nat S \<rparr>\<rparr>)"
proof -
  have u: "unat (start + of_nat x) = unat start + x" if "x \<le> S" for x
  proof -
    have x: "unat (of_nat x :: word64) = x" using that fits(1) by (intro unat_of_nat64) simp
    have "unat start + unat (of_nat x :: word64) < 2 ^ LENGTH(64)" using that fits(1) by (simp add: x)
    then show ?thesis using x by (subst unat_add_lem [THEN iffD1]) simp_all
  qed
  have uk: "unat (bit_mac (of_nat k)) = 2 ^ k"
    using fits(3) by (subst unat_bit_mac) (simp_all add: unsigned_of_nat take_bit_nat_eq_self)
  have "off \<le> S" using fits(2) by simp
  then have "unat ((start + of_nat off) mod bit_mac (of_nat k)) = (unat start + off) mod 2 ^ k"
    by (simp add: unat_mod u uk)
  also have "\<dots> = 0" using al by (simp add: mod_eq_0_iff_dvd)
  finally have a: "(start + of_nat off) mod bit_mac (of_nat k) = 0" by (simp only: unat_eq_zero)
  have e: "start + of_nat off + of_nat n * bit_mac (of_nat k) = start + of_nat (off + n * 2 ^ k)"
    using fits(3) by (simp add: bit_mac_of_nat)
  have "start + of_nat (off + n * 2 ^ k) \<le> start + of_nat S"
    unfolding word_le_nat_alt using fits(2) by (simp only: u le_refl)
  then show ?thesis unfolding alloc_rootserver_obj_def mem by (simp add: a e)
qed

text \<open>The common case of one object, with the word constants of the code.\<close>

lemma alloc_one:
  assumes "rootserver_mem b = \<lparr> r_start = start + of_nat off, r_end = start + of_nat S \<rparr>"
    "unat start + S < 2 ^ 64" "off + 2 ^ k \<le> S" "k < 64" "2 ^ k dvd unat start" "2 ^ k dvd off" "bits = of_nat k"
  shows "alloc_rootserver_obj bits 1 b =
    Some (start + of_nat off, b\<lparr>rootserver_mem := \<lparr> r_start = start + of_nat (off + 2 ^ k), r_end = start + of_nat S \<rparr>\<rparr>)"
  using alloc_at [of b start off S 1 k] assms by simp

definition root_tail :: "word64 \<Rightarrow> word64 \<Rightarrow> boot_state \<Rightarrow> boot_state option" where
  "root_tail n e b = do {
     (p, b) \<leftarrow> alloc_rootserver_obj SEL4_VSPACE_BITS 1 b;
     let b = upd_rs (\<lambda>r. r\<lparr>rs_vspace := p\<rparr>) b;
     b \<leftarrow> maybe_alloc_extra_bi SEL4_PAGE_BITS e b;
     (p, b) \<leftarrow> alloc_rootserver_obj SEL4_ASID_POOL_BITS 1 b;
     let b = upd_rs (\<lambda>r. r\<lparr>rs_asid_pool := p\<rparr>) b;
     (p, b) \<leftarrow> alloc_rootserver_obj SEL4_PAGE_BITS 1 b;
     let b = upd_rs (\<lambda>r. r\<lparr>rs_ipc_buf := p\<rparr>) b;
     (p, b) \<leftarrow> alloc_rootserver_obj BI_FRAME_SIZE_BITS 1 b;
     let b = upd_rs (\<lambda>r. r\<lparr>rs_boot_info := p\<rparr>) b;
     (p, b) \<leftarrow> alloc_rootserver_obj SEL4_PAGE_TABLE_BITS n b;
     let b = upd_rs (\<lambda>r. r\<lparr>rs_paging := \<lparr> r_start = p, r_end = p + n * bit_mac SEL4_PAGE_TABLE_BITS \<rparr>\<rparr>) b;
     (p, b) \<leftarrow> alloc_rootserver_obj SEL4_TCB_BITS 1 b;
     let b = upd_rs (\<lambda>r. r\<lparr>rs_tcb := p\<rparr>) b;
     kassert (r_start (rootserver_mem b) = r_end (rootserver_mem b));
     Some b
   }"

lemma create_rootserver_objects_split:
  "create_rootserver_objects start it e b = do {
     b \<leftarrow> maybe_alloc_extra_bi (rootserver_max_size_bits e) e
       (b\<lparr>rootserver_mem := \<lparr> r_start = start, r_end = start + calculate_rootserver_size it e \<rparr>\<rparr>);
     (p, b) \<leftarrow> alloc_rootserver_obj (CONFIG_ROOT_CNODE_SIZE_BITS + SEL4_SLOT_BITS) 1 b;
     b \<leftarrow> maybe_alloc_extra_bi SEL4_VSPACE_BITS e (upd_rs (\<lambda>r. r\<lparr>rs_cnode := p\<rparr>) b);
     root_tail (arch_get_n_paging it) e b
   }"
  by (simp add: create_rootserver_objects_def root_tail_def Let_def)

lemma maybe_alloc_skip:
  assumes "extra_ok E" "E = 0 \<or> rs_extra_bi (rootserver b) \<noteq> 0 \<or> E < c" "0 < c" "c < 64"
  shows "maybe_alloc_extra_bi (of_nat c) (of_nat E) b = Some b"
proof -
  have "unat (of_nat c :: word64) = c" using assms(4) by (intro unat_of_nat64) simp
  then have "(of_nat E \<ge> (of_nat c :: word64)) = (E \<ge> c)" using unat_extra [OF assms(1)] by (simp add: word_le_nat_alt)
  then show ?thesis using assms(2,3) by (auto simp: maybe_alloc_extra_bi_def)
qed

lemma root_tail_ok:
  assumes mem: "rootserver_mem b = \<lparr> r_start = start + of_nat y, r_end = start + of_nat S \<rparr>"
    and S: "S = y + 4 * 2 ^ 12 + n * 2 ^ 12 + 2 ^ 11" "unat start + S < 2 ^ 64"
    and al: "2 ^ 12 dvd unat start" "2 ^ 12 dvd y" and E: "extra_ok E" "E = 0 \<or> rs_extra_bi (rootserver b) \<noteq> 0"
  shows "root_tail (of_nat n) (of_nat E) b = Some (b\<lparr>
    rootserver_mem := \<lparr> r_start = start + of_nat S, r_end = start + of_nat S \<rparr>,
    rootserver := (rootserver b)\<lparr>rs_vspace := start + of_nat y, rs_asid_pool := start + of_nat (y + 2 ^ 12),
      rs_ipc_buf := start + of_nat (y + 2 * 2 ^ 12), rs_boot_info := start + of_nat (y + 3 * 2 ^ 12),
      rs_paging := \<lparr> r_start = start + of_nat (y + 4 * 2 ^ 12), r_end = start + of_nat (y + 4 * 2 ^ 12 + n * 2 ^ 12) \<rparr>,
      rs_tcb := start + of_nat (y + 4 * 2 ^ 12 + n * 2 ^ 12)\<rparr>\<rparr>)"
proof -
  let ?m = "\<lambda>x. \<lparr> r_start = start + of_nat x, r_end = start + of_nat S \<rparr>"
  define o1 where "o1 = y + 2 ^ 12"
  define o2 where "o2 = y + 2 * 2 ^ 12"
  define o3 where "o3 = y + 3 * 2 ^ 12"
  define o4 where "o4 = y + 4 * 2 ^ 12"
  define o5 where "o5 = y + 4 * 2 ^ 12 + n * 2 ^ 12"
  note offs = o1_def o2_def o3_def o4_def o5_def
  have dvd: "2 ^ 12 dvd o1" "2 ^ 12 dvd o2" "2 ^ 12 dvd o3" "2 ^ 12 dvd o4" "2 ^ 12 dvd o5"
    unfolding offs using al(2) by (auto intro!: dvd_add)
  have d11: "2 ^ 11 dvd unat start" "2 ^ 11 dvd o5"
    using al(1) dvd(5) by (auto elim: dvd_trans [rotated])
  have le: "o1 \<le> S" "o2 \<le> S" "o3 \<le> S" "o4 \<le> S" "o5 + 2 ^ 11 = S" unfolding offs S(1) by auto
  define b1 where "b1 = upd_rs (\<lambda>r. r\<lparr>rs_vspace := start + of_nat y\<rparr>) (b\<lparr>rootserver_mem := ?m o1\<rparr>)"
  define b2 where "b2 = upd_rs (\<lambda>r. r\<lparr>rs_asid_pool := start + of_nat o1\<rparr>) (b1\<lparr>rootserver_mem := ?m o2\<rparr>)"
  define b3 where "b3 = upd_rs (\<lambda>r. r\<lparr>rs_ipc_buf := start + of_nat o2\<rparr>) (b2\<lparr>rootserver_mem := ?m o3\<rparr>)"
  define b4 where "b4 = upd_rs (\<lambda>r. r\<lparr>rs_boot_info := start + of_nat o3\<rparr>) (b3\<lparr>rootserver_mem := ?m o4\<rparr>)"
  define b5 where "b5 = upd_rs (\<lambda>r. r\<lparr>rs_paging := \<lparr> r_start = start + of_nat o4, r_end = start + of_nat o5 \<rparr>\<rparr>) (b4\<lparr>rootserver_mem := ?m o5\<rparr>)"
  define b6 where "b6 = upd_rs (\<lambda>r. r\<lparr>rs_tcb := start + of_nat o5\<rparr>) (b5\<lparr>rootserver_mem := ?m S\<rparr>)"
  note bs = b1_def b2_def b3_def b4_def b5_def b6_def
  have m: "rootserver_mem b1 = ?m o1" "rootserver_mem b2 = ?m o2" "rootserver_mem b3 = ?m o3" "rootserver_mem b4 = ?m o4"
    "rootserver_mem b5 = ?m o5" "rootserver_mem b6 = ?m S"
    by (simp_all add: bs upd_rs_def)
  have page: "alloc_rootserver_obj bits 1 c = Some (start + of_nat x, c\<lparr>rootserver_mem := ?m (x + 2 ^ 12)\<rparr>)"
    if "rootserver_mem c = ?m x" "x + 2 ^ 12 \<le> S" "2 ^ 12 dvd x" "bits = 12" for c x bits
    using that S(2) al(1) by (intro alloc_one) simp_all
  have o: "y + 2 ^ 12 = o1" "o1 + 2 ^ 12 = o2" "o2 + 2 ^ 12 = o3" "o3 + 2 ^ 12 = o4" by (simp_all add: offs)
  have s1: "alloc_rootserver_obj SEL4_VSPACE_BITS 1 b = Some (start + of_nat y, b\<lparr>rootserver_mem := ?m o1\<rparr>)"
    unfolding o(1) [symmetric] using mem al(2) le o by (intro page) (simp_all add: rs_consts)
  have s2: "alloc_rootserver_obj SEL4_ASID_POOL_BITS 1 b1 = Some (start + of_nat o1, b1\<lparr>rootserver_mem := ?m o2\<rparr>)"
    unfolding o(2) [symmetric] using m dvd le o by (intro page) (simp_all add: rs_consts)
  have s3: "alloc_rootserver_obj SEL4_PAGE_BITS 1 b2 = Some (start + of_nat o2, b2\<lparr>rootserver_mem := ?m o3\<rparr>)"
    unfolding o(3) [symmetric] using m dvd le o by (intro page) (simp_all add: rs_consts)
  have s4: "alloc_rootserver_obj BI_FRAME_SIZE_BITS 1 b3 = Some (start + of_nat o3, b3\<lparr>rootserver_mem := ?m o4\<rparr>)"
    unfolding o(4) [symmetric] using m dvd le o by (intro page) (simp_all add: rs_consts)
  have s5: "alloc_rootserver_obj SEL4_PAGE_TABLE_BITS (of_nat n) b4 = Some (start + of_nat o4, b4\<lparr>rootserver_mem := ?m o5\<rparr>)"
    using alloc_at [OF m(4) S(2), of n 12] al(1) dvd(4) le(5) by (simp add: rs_consts offs)
  have s6: "alloc_rootserver_obj SEL4_TCB_BITS 1 b5 = Some (start + of_nat o5, b5\<lparr>rootserver_mem := ?m S\<rparr>)"
    using alloc_one [OF m(5) S(2), of 11 SEL4_TCB_BITS] d11 unfolding le(5) by (simp add: rs_consts)
  have x: "maybe_alloc_extra_bi SEL4_PAGE_BITS (of_nat E) b1 = Some b1"
    using maybe_alloc_skip [OF E(1), of b1 12] E(2) by (auto simp: rs_consts b1_def upd_rs_def)
  have pg: "start + of_nat o4 + of_nat n * bit_mac SEL4_PAGE_TABLE_BITS = start + of_nat o5"
    by (simp add: rs_consts offs bit_mac_def)
  have "root_tail (of_nat n) (of_nat E) b = Some b6"
    unfolding root_tail_def s1 by (simp add: b1_def [symmetric] x s2 b2_def [symmetric] s3 b3_def [symmetric]
      s4 b4_def [symmetric] s5 pg b5_def [symmetric] s6 b6_def [symmetric] m)
  moreover have "b6 = b\<lparr>rootserver_mem := ?m S, rootserver := (rootserver b)\<lparr>rs_vspace := start + of_nat y, rs_asid_pool := start + of_nat o1,
      rs_ipc_buf := start + of_nat o2, rs_boot_info := start + of_nat o3,
      rs_paging := \<lparr> r_start = start + of_nat o4, r_end = start + of_nat o5 \<rparr>, rs_tcb := start + of_nat o5\<rparr>\<rparr>"
    by (simp add: bs upd_rs_def)
  ultimately show ?thesis by (simp only: offs)
qed

definition extra_off :: "nat \<Rightarrow> nat" where
  "extra_off E = (if 17 \<le> E then 0 else 2 ^ 17)"

lemma off_nonzero:
  assumes "start \<noteq> 0" "unat start + S < 2 ^ 64" "x \<le> S"
  shows "start + of_nat x \<noteq> (0 :: word64)"
proof -
  have x: "unat (of_nat x :: word64) = x" using assms by (intro unat_of_nat64) simp
  have "unat start + unat (of_nat x :: word64) < 2 ^ LENGTH(64)" using assms by (simp add: x)
  then have "unat (start + of_nat x) = unat start + x" using x by (subst unat_add_lem [THEN iffD1]) simp_all
  moreover have "unat start \<noteq> 0" using assms(1) by (simp add: unat_eq_zero)
  ultimately show ?thesis by (metis add_is_0 unat_0)
qed

lemma maybe_alloc_take:
  assumes "extra_ok E" "E \<noteq> 0" "rs_extra_bi (rootserver b) = 0" "c \<le> E" "c < 64"
    "rootserver_mem b = \<lparr> r_start = start + of_nat off, r_end = start + of_nat S \<rparr>"
    "unat start + S < 2 ^ 64" "off + 2 ^ E \<le> S" "2 ^ E dvd unat start" "2 ^ E dvd off"
  shows "maybe_alloc_extra_bi (of_nat c) (of_nat E) b = Some (b\<lparr>
    rootserver_mem := \<lparr> r_start = start + of_nat (off + 2 ^ E), r_end = start + of_nat S \<rparr>,
    rootserver := (rootserver b)\<lparr>rs_extra_bi := start + of_nat off\<rparr>\<rparr>)"
proof -
  have "unat (of_nat c :: word64) = c" using assms(5) by (intro unat_of_nat64) simp
  then have "of_nat E \<ge> (of_nat c :: word64)" using unat_extra [OF assms(1)] assms(4) by (simp add: word_le_nat_alt)
  moreover have "E < 64" using assms(1) by (auto simp: extra_ok_def)
  ultimately show ?thesis using alloc_one [OF assms(6-8) _ assms(9,10) refl] assms(3)
    by (simp add: maybe_alloc_extra_bi_def upd_rs_def)
qed

lemma create_rootserver_objects_ok:
  assumes E: "extra_ok E" and n: "arch_get_n_paging it = of_nat n" and fit: "unat start + rs_size E n < 2 ^ 64"
    and al: "2 ^ rs_max E dvd unat start" and nz: "start \<noteq> 0" "rs_extra_bi (rootserver b) = 0"
  shows "create_rootserver_objects start it (of_nat E) b = Some (b\<lparr>
    rootserver_mem := \<lparr> r_start = start + of_nat (rs_size E n), r_end = start + of_nat (rs_size E n) \<rparr>,
    rootserver := (rootserver b)\<lparr>rs_cnode := start + of_nat (cnode_off E),
      rs_extra_bi := (if E = 0 then 0 else start + of_nat (extra_off E)),
      rs_vspace := start + of_nat (vspace_off E), rs_asid_pool := start + of_nat (vspace_off E + 2 ^ 12),
      rs_ipc_buf := start + of_nat (vspace_off E + 2 * 2 ^ 12), rs_boot_info := start + of_nat (vspace_off E + 3 * 2 ^ 12),
      rs_paging := \<lparr> r_start = start + of_nat (vspace_off E + 4 * 2 ^ 12),
        r_end = start + of_nat (vspace_off E + 4 * 2 ^ 12 + n * 2 ^ 12) \<rparr>,
      rs_tcb := start + of_nat (vspace_off E + 4 * 2 ^ 12 + n * 2 ^ 12)\<rparr>\<rparr>)"
proof -
  define S where "S = rs_size E n"
  define y where "y = vspace_off E"
  define cn where "cn = cnode_off E"
  let ?m = "\<lambda>x. \<lparr> r_start = start + of_nat x, r_end = start + of_nat S \<rparr>"
  have S: "S = y + 4 * 2 ^ 12 + n * 2 ^ 12 + 2 ^ 11" by (simp add: S_def y_def rs_size_def vspace_off_def)
  have fit: "unat start + S < 2 ^ 64" using fit by (simp add: S_def)
  have pw: "2 ^ k dvd unat start" if "k \<le> rs_max E" for k using le_imp_power_dvd [OF that] al by (rule dvd_trans)
  have al17: "2 ^ 17 dvd unat start" "2 ^ 12 dvd unat start" by (rule pw, simp add: rs_max_def)+
  have alE: "2 ^ E dvd unat start" by (rule pw) (simp add: rs_max_def)
  have y12: "2 ^ 12 dvd y" using E le_imp_power_dvd [of 12 E "2 :: nat"] by (auto simp: y_def vspace_off_def extra_ok_def)
  have y: "y \<le> S" "cn + 2 ^ 17 \<le> y" using E by (auto simp: S y_def cn_def vspace_off_def cnode_off_def extra_ok_def)
  have c17: "CONFIG_ROOT_CNODE_SIZE_BITS + SEL4_SLOT_BITS = of_nat 17" "SEL4_VSPACE_BITS = of_nat 12" by (simp_all add: rs_consts)
  define b0 where "b0 = b\<lparr>rootserver_mem := ?m 0\<rparr>"
  define b1 where "b1 = (if 17 \<le> E then b0\<lparr>rootserver_mem := ?m cn, rootserver := (rootserver b)\<lparr>rs_extra_bi := start\<rparr>\<rparr> else b0)"
  define b2 where "b2 = upd_rs (\<lambda>r. r\<lparr>rs_cnode := start + of_nat cn\<rparr>) (b1\<lparr>rootserver_mem := ?m (cn + 2 ^ 17)\<rparr>)"
  define b3 where "b3 = b2\<lparr>rootserver_mem := ?m y,
    rootserver := (rootserver b2)\<lparr>rs_extra_bi := (if E = 0 then 0 else start + of_nat (extra_off E))\<rparr>\<rparr>"
  have s1: "maybe_alloc_extra_bi (of_nat (rs_max E)) (of_nat E) b0 = Some b1"
  proof (cases "17 \<le> E")
    case True
    then have "maybe_alloc_extra_bi (of_nat (rs_max E)) (of_nat E) b0 = Some (b0\<lparr>rootserver_mem := ?m (0 + 2 ^ E),
        rootserver := (rootserver b0)\<lparr>rs_extra_bi := start + of_nat 0\<rparr>\<rparr>)"
      using E nz fit alE y by (intro maybe_alloc_take) (auto simp: rs_max_def extra_ok_def b0_def cn_def cnode_off_def)
    then show ?thesis using True by (simp add: b1_def b0_def cn_def cnode_off_def)
  next
    case False
    then show ?thesis using maybe_alloc_skip [OF E, of b0 "rs_max E"] E by (auto simp: b1_def rs_max_def)
  qed
  have m1: "rootserver_mem b1 = ?m cn" by (simp add: b1_def b0_def cn_def cnode_off_def)
  have s2: "alloc_rootserver_obj (of_nat 17) 1 b1 = Some (start + of_nat cn, b1\<lparr>rootserver_mem := ?m (cn + 2 ^ 17)\<rparr>)"
  proof (rule alloc_one [OF m1 fit])
    show "2 ^ 17 dvd cn" using le_imp_power_dvd [of 17 E "2 :: nat"] by (auto simp: cn_def cnode_off_def)
  qed (use al17 y in simp_all)
  have m2: "rootserver_mem b2 = ?m (cn + 2 ^ 17)" by (simp add: b2_def upd_rs_def)
  have s3: "maybe_alloc_extra_bi (of_nat 12) (of_nat E) b2 = Some b3"
  proof (cases "E = 0 \<or> 17 \<le> E")
    case True
    have x: "rs_extra_bi (rootserver b2) = (if E = 0 then 0 else start)"
      using True nz by (auto simp: b2_def b1_def b0_def upd_rs_def)
    have "b3 = b2" using True x m2 by (auto simp: b3_def extra_off_def y_def cn_def vspace_off_def cnode_off_def add.commute)
    moreover have "maybe_alloc_extra_bi (of_nat 12) (of_nat E) b2 = Some b2"
      using True nz x by (intro maybe_alloc_skip [OF E]) auto
    ultimately show ?thesis by simp
  next
    case False
    then have "cn = 0" "y = 2 ^ 17 + 2 ^ E" "extra_off E = 2 ^ 17" "12 \<le> E" using E by (auto simp: cn_def cnode_off_def y_def vspace_off_def extra_off_def extra_ok_def)
    moreover have "maybe_alloc_extra_bi (of_nat 12) (of_nat E) b2 = Some (b2\<lparr>rootserver_mem := ?m (2 ^ 17 + 2 ^ E),
        rootserver := (rootserver b2)\<lparr>rs_extra_bi := start + of_nat (2 ^ 17)\<rparr>\<rparr>)"
    proof (rule maybe_alloc_take [OF E])
      show "rootserver_mem b2 = ?m (2 ^ 17)" using m2 calculation by simp
      show "2 ^ E dvd (2 :: nat) ^ 17" using False by (intro le_imp_power_dvd) simp
      show "rs_extra_bi (rootserver b2) = 0" using False nz by (auto simp: b2_def b1_def b0_def upd_rs_def)
    qed (use calculation False fit alE y in auto)
    ultimately show ?thesis using False by (simp add: b3_def)
  qed
  have tail: "root_tail (of_nat n) (of_nat E) b3 = Some (b3\<lparr>
    rootserver_mem := ?m S,
    rootserver := (rootserver b3)\<lparr>rs_vspace := start + of_nat y, rs_asid_pool := start + of_nat (y + 2 ^ 12),
      rs_ipc_buf := start + of_nat (y + 2 * 2 ^ 12), rs_boot_info := start + of_nat (y + 3 * 2 ^ 12),
      rs_paging := \<lparr> r_start = start + of_nat (y + 4 * 2 ^ 12), r_end = start + of_nat (y + 4 * 2 ^ 12 + n * 2 ^ 12) \<rparr>,
      rs_tcb := start + of_nat (y + 4 * 2 ^ 12 + n * 2 ^ 12)\<rparr>\<rparr>)"
  proof (rule root_tail_ok [OF _ S fit al17(2) y12 E])
    have "extra_off E \<le> S" using y E by (auto simp: extra_off_def cn_def cnode_off_def)
    then show "E = 0 \<or> rs_extra_bi (rootserver b3) \<noteq> 0" using off_nonzero [OF nz(1) fit] by (simp add: b3_def)
  qed (simp add: b3_def)
  have "create_rootserver_objects start it (of_nat E) b = root_tail (of_nat n) (of_nat E) b3"
    unfolding create_rootserver_objects_split calculate_rootserver_size_eq [OF E n] rootserver_max_size_bits_eq [OF E] n c17
    using s1 s2 s3 [unfolded b2_def] by (simp add: b0_def S_def)
  then show ?thesis unfolding tail
    by (simp add: b3_def b2_def b1_def b0_def upd_rs_def S_def y_def cn_def)
qed

definition obj_region :: "ptr \<Rightarrow> nat \<Rightarrow> region" where
  "obj_region p k = \<lparr> r_start = p, r_end = p + of_nat (2 ^ k) \<rparr>"

text \<open>The objects in the order of their addresses.\<close>

definition root_objects :: "nat \<Rightarrow> rootserver_mem_t \<Rightarrow> region list" where
  "root_objects E rs =
     (if 17 \<le> E then [obj_region (rs_extra_bi rs) E] else []) @ [obj_region (rs_cnode rs) 17] @
     (if 0 < E \<and> E < 17 then [obj_region (rs_extra_bi rs) E] else []) @
     [obj_region (rs_vspace rs) 12, obj_region (rs_asid_pool rs) 12, obj_region (rs_ipc_buf rs) 12,
      obj_region (rs_boot_info rs) 12, rs_paging rs, obj_region (rs_tcb rs) 11]"

text \<open>Regions that follow each other without gaps from \<open>a\<close> to \<open>z\<close>.\<close>

fun tiles :: "nat \<Rightarrow> region list \<Rightarrow> nat \<Rightarrow> bool" where
  "tiles a [] z \<longleftrightarrow> a = z"
| "tiles a (r # rs) z \<longleftrightarrow> unat (r_start r) = a \<and> a \<le> unat (r_end r) \<and> tiles (unat (r_end r)) rs z"

definition root_aligned :: "nat \<Rightarrow> rootserver_mem_t \<Rightarrow> bool" where
  "root_aligned E rs \<longleftrightarrow> 2 ^ 17 dvd unat (rs_cnode rs) \<and> 2 ^ 12 dvd unat (rs_vspace rs) \<and> 2 ^ 12 dvd unat (rs_asid_pool rs) \<and>
     2 ^ 12 dvd unat (rs_ipc_buf rs) \<and> 2 ^ 12 dvd unat (rs_boot_info rs) \<and> 2 ^ 12 dvd unat (r_start (rs_paging rs)) \<and>
     2 ^ 11 dvd unat (rs_tcb rs) \<and> (E \<noteq> 0 \<longrightarrow> 2 ^ E dvd unat (rs_extra_bi rs))"

lemma unat_off:
  assumes "unat start + S < 2 ^ 64" "x \<le> S"
  shows "unat (start + of_nat x :: word64) = unat start + x"
proof -
  have x: "unat (of_nat x :: word64) = x" using assms by (intro unat_of_nat64) simp
  have "unat start + unat (of_nat x :: word64) < 2 ^ LENGTH(64)" using assms by (simp add: x)
  then show ?thesis using x by (subst unat_add_lem [THEN iffD1]) simp_all
qed

lemma obj_region_off:
  assumes "unat start + S < 2 ^ 64" "x + 2 ^ k \<le> S"
  shows "unat (r_start (obj_region (start + of_nat x) k)) = unat start + x"
    "unat (r_end (obj_region (start + of_nat x) k)) = unat start + (x + 2 ^ k)"
proof -
  show "unat (r_start (obj_region (start + of_nat x) k)) = unat start + x"
    using unat_off [OF assms(1), of x] assms(2) by (simp add: obj_region_def)
  have "r_end (obj_region (start + of_nat x) k) = start + of_nat (x + 2 ^ k)" by (simp add: obj_region_def)
  then show "unat (r_end (obj_region (start + of_nat x) k)) = unat start + (x + 2 ^ k)"
    using unat_off [OF assms] by (simp only:)
qed

lemma rootserver_objects_tile:
  assumes "create_rootserver_objects start it (of_nat E) b = Some b'" and E: "extra_ok E"
    and n: "arch_get_n_paging it = of_nat n" and fit: "unat start + rs_size E n < 2 ^ 64"
    and al: "2 ^ rs_max E dvd unat start" and nz: "start \<noteq> 0" "rs_extra_bi (rootserver b) = 0"
  shows "tiles (unat start) (root_objects E (rootserver b')) (unat start + rs_size E n) \<and> root_aligned E (rootserver b')"
proof -
  note b' = assms(1) [unfolded create_rootserver_objects_ok [OF E n fit al nz] option.inject, symmetric]
  define y where "y = vspace_off E"
  have sz: "rs_size E n = y + 4 * 2 ^ 12 + n * 2 ^ 12 + 2 ^ 11" by (simp add: y_def rs_size_def vspace_off_def)
  have pw: "2 ^ k dvd unat start" if "k \<le> rs_max E" for k using le_imp_power_dvd [OF that] al by (rule dvd_trans)
  have d: "2 ^ 17 dvd unat start" "2 ^ 12 dvd unat start" "2 ^ 11 dvd unat start" "2 ^ E dvd unat start"
    by (rule pw, simp add: rs_max_def)+
  have y12: "2 ^ 12 dvd y" using E le_imp_power_dvd [of 12 E "2 :: nat"] by (auto simp: y_def vspace_off_def extra_ok_def)
  note u = unat_off [OF fit] and ob = obj_region_off [OF fit]
  have rest: "rs_vspace (rootserver b') = start + of_nat y" "rs_asid_pool (rootserver b') = start + of_nat (y + 2 ^ 12)"
    "rs_ipc_buf (rootserver b') = start + of_nat (y + 2 * 2 ^ 12)" "rs_boot_info (rootserver b') = start + of_nat (y + 3 * 2 ^ 12)"
    "rs_tcb (rootserver b') = start + of_nat (y + 4 * 2 ^ 12 + n * 2 ^ 12)" "rs_cnode (rootserver b') = start + of_nat (cnode_off E)"
    "E \<noteq> 0 \<Longrightarrow> rs_extra_bi (rootserver b') = start + of_nat (extra_off E)"
    "rs_paging (rootserver b') = \<lparr> r_start = start + of_nat (y + 4 * 2 ^ 12), r_end = start + of_nat (y + 4 * 2 ^ 12 + n * 2 ^ 12) \<rparr>"
    unfolding b' y_def by simp_all
  have p: "unat (r_start (rs_paging (rootserver b'))) = unat start + (y + 4 * 2 ^ 12)"
      "unat (r_end (rs_paging (rootserver b'))) = unat start + (y + 4 * 2 ^ 12 + n * 2 ^ 12)"
    unfolding rest(8) region.simps by (rule u, simp add: sz)+
  have tail: "tiles (unat start + y) [obj_region (start + of_nat y) 12, obj_region (start + of_nat (y + 2 ^ 12)) 12,
      obj_region (start + of_nat (y + 2 * 2 ^ 12)) 12, obj_region (start + of_nat (y + 3 * 2 ^ 12)) 12,
      rs_paging (rootserver b'), obj_region (start + of_nat (y + 4 * 2 ^ 12 + n * 2 ^ 12)) 11] (unat start + rs_size E n)"
  proof -
    have a: "y + 2 ^ 12 \<le> rs_size E n" "y + 2 ^ 12 + 2 ^ 12 \<le> rs_size E n" "y + 2 * 2 ^ 12 + 2 ^ 12 \<le> rs_size E n"
      "y + 3 * 2 ^ 12 + 2 ^ 12 \<le> rs_size E n" "y + 4 * 2 ^ 12 + n * 2 ^ 12 + 2 ^ 11 \<le> rs_size E n" by (simp_all add: sz)
    show ?thesis unfolding tiles.simps ob [OF a(1)] ob [OF a(2)] ob [OF a(3)] ob [OF a(4)] ob [OF a(5)] p by (simp add: sz)
  qed
  have le: "cnode_off E + 2 ^ 17 \<le> rs_size E n" "E \<noteq> 0 \<Longrightarrow> extra_off E + 2 ^ E \<le> rs_size E n"
    by (auto simp: cnode_off_def extra_off_def rs_size_def)
  have head: "tiles (unat start) (root_objects E (rootserver b')) (unat start + rs_size E n)"
  proof -
    consider "E = 0" | "17 \<le> E" | "0 < E" "E < 17" by linarith
    then show ?thesis
    proof cases
      case 1
      then show ?thesis using tail ob [OF le(1)] by (simp add: root_objects_def rest(1-6) cnode_off_def y_def vspace_off_def del: of_nat_add)
    next
      case 2
      then show ?thesis using tail ob [OF le(1)] ob [OF le(2)]
        by (simp add: root_objects_def rest(1-7) cnode_off_def extra_off_def y_def vspace_off_def add.commute add.left_commute del: of_nat_add)
    next
      case 3
      then show ?thesis using tail ob [OF le(1)] ob [OF le(2)]
        by (simp add: root_objects_def rest(1-7) cnode_off_def extra_off_def y_def vspace_off_def del: of_nat_add)
    qed
  qed
  have uo: "unat (rs_vspace (rootserver b')) = unat start + y" "unat (rs_asid_pool (rootserver b')) = unat start + (y + 2 ^ 12)"
    "unat (rs_ipc_buf (rootserver b')) = unat start + (y + 2 * 2 ^ 12)" "unat (rs_boot_info (rootserver b')) = unat start + (y + 3 * 2 ^ 12)"
    "unat (rs_tcb (rootserver b')) = unat start + (y + 4 * 2 ^ 12 + n * 2 ^ 12)"
    "unat (rs_cnode (rootserver b')) = unat start + cnode_off E"
    "E \<noteq> 0 \<Longrightarrow> unat (rs_extra_bi (rootserver b')) = unat start + extra_off E"
    unfolding rest using le by (simp_all only: u sz, simp_all add: u sz)
  have "2 ^ 17 dvd cnode_off E" "E \<noteq> 0 \<Longrightarrow> 2 ^ E dvd extra_off E"
    using le_imp_power_dvd [of 17 E "2 :: nat"] le_imp_power_dvd [of E 17 "2 :: nat"] by (auto simp: cnode_off_def extra_off_def)
  moreover have "2 ^ 12 dvd n * 2 ^ 12" "2 ^ 11 dvd n * 2 ^ 12" "2 ^ 11 dvd y"
    using y12 by (simp_all, auto elim: dvd_trans [rotated])
  ultimately have "root_aligned E (rootserver b')"
    using d y12 unfolding root_aligned_def p by (auto simp: uo intro!: dvd_add)
  with head show ?thesis by blast
qed

section \<open>Placing the root server in free memory\<close>

lemma unat_round_down: "k < 64 \<Longrightarrow> unat (round_down x (of_nat k)) = unat x div 2 ^ k * 2 ^ k"
proof -
  assume k: "k < 64"
  then have uk: "unat (of_nat k :: word64) = k" by (intro unat_of_nat64) simp
  have "round_down x (of_nat k) = x AND NOT (mask_bits (of_nat k))"
    using and_not_mask_bits [of "of_nat k" x] k uk by (simp add: round_down_def shl_def shr_def)
  then show ?thesis using unat_and_not_mask_bits [of "of_nat k" x] k uk by simp
qed

lemma rs_size_bound:
  assumes "extra_ok E" "n \<le> 2 ^ 20"
  shows "0 < rs_size E n" "rs_size E n < 2 ^ 64" "rs_max E < 64" "unat (of_nat (rs_size E n) :: word64) = rs_size E n"
proof -
  have "(2::nat) ^ E \<le> 2 ^ 30" using assms(1) by (intro power_increasing) (auto simp: extra_ok_def)
  then show b: "rs_size E n < 2 ^ 64" using assms(2) by (auto simp: rs_size_def)
  then show "unat (of_nat (rs_size E n) :: word64) = rs_size E n" by (rule unat_of_nat64)
qed (use assms in \<open>auto simp: rs_size_def rs_max_def extra_ok_def\<close>)

text \<open>The test of the loop, and the block it places at the end of a region.\<close>

definition block_start :: "nat \<Rightarrow> nat \<Rightarrow> region \<Rightarrow> word64" where
  "block_start E n r = round_down (r_end r - of_nat (rs_size E n)) (of_nat (rs_max E))"

definition block_fits :: "nat \<Rightarrow> nat \<Rightarrow> region \<Rightarrow> bool" where
  "block_fits E n r \<longleftrightarrow> r_end r - of_nat (rs_size E n) \<le> r_end r \<and> block_start E n r \<ge> r_start r"

lemma block_fitsD:
  assumes "block_fits E n r" "extra_ok E" "n \<le> 2 ^ 20"
  shows "unat (r_start r) \<le> unat (block_start E n r)" "unat (block_start E n r) + rs_size E n \<le> unat (r_end r)"
    "2 ^ rs_max E dvd unat (block_start E n r)"
proof -
  note sz = rs_size_bound [OF assms(2,3)]
  let ?S = "rs_size E n" and ?u = "r_end r - of_nat (rs_size E n)"
  have st: "unat (block_start E n r) = unat ?u div 2 ^ rs_max E * 2 ^ rs_max E"
    using sz(3) by (simp add: block_start_def unat_round_down)
  have "?S \<le> unat (r_end r)"
  proof (rule ccontr)
    assume "\<not> ?S \<le> unat (r_end r)"
    then have "unat ?u = 2 ^ 64 + unat (r_end r) - ?S" using sz(2,4) by (simp add: unat_sub_if_size word_size)
    moreover have "unat ?u \<le> unat (r_end r)" using assms(1) by (simp add: block_fits_def word_le_nat_alt)
    ultimately show False using sz(2) by simp
  qed
  then have u: "unat ?u = unat (r_end r) - ?S" using sz(4) by (simp add: unat_sub word_le_nat_alt)
  show "unat (r_start r) \<le> unat (block_start E n r)" using assms(1) by (simp add: block_fits_def word_le_nat_alt)
  have "unat (block_start E n r) \<le> unat ?u" unfolding st by simp
  with u \<open>?S \<le> unat (r_end r)\<close> show "unat (block_start E n r) + ?S \<le> unat (r_end r)" by linarith
  show "2 ^ rs_max E dvd unat (block_start E n r)" unfolding st by simp
qed

lemma block_fitsI:
  assumes "unat (r_start r) + rs_size E n + 2 ^ rs_max E \<le> unat (r_end r)" "extra_ok E" "n \<le> 2 ^ 20"
  shows "block_fits E n r"
proof -
  note sz = rs_size_bound [OF assms(2,3)]
  let ?u = "r_end r - of_nat (rs_size E n)" and ?k = "(2 :: nat) ^ rs_max E"
  have u: "unat ?u = unat (r_end r) - rs_size E n" using sz(4) assms(1) by (simp add: unat_sub word_le_nat_alt)
  have "unat ?u div ?k * ?k + unat ?u mod ?k = unat ?u" by (rule div_mult_mod_eq)
  moreover have "unat ?u mod ?k < ?k" by simp
  ultimately have "unat (r_start r) \<le> unat ?u div ?k * ?k" using u assms(1) by linarith
  then show ?thesis using u sz(3) by (simp add: block_fits_def word_le_nat_alt block_start_def unat_round_down)
qed

lemma cover_remove:
  assumes "packed (xs @ r # ys)" "unat (r_start r) \<le> s" "s + m \<le> unat (r_end r)"
  shows "{s ..< s + m} \<subseteq> cover (xs @ r # ys)"
    "cover (xs @ r # ys) - {s ..< s + m} = cover xs \<union> {unat (r_start r) ..< s} \<union> {s + m ..< unat (r_end r)} \<union> cover ys"
proof -
  have "\<forall>y \<in> set ys. unat (r_end r) \<le> unat (r_start y)" using assms(1) by (simp add: packed_simps)
  from cover_ge [OF this] have ys: "x \<in> cover ys \<Longrightarrow> unat (r_end r) \<le> x" for x .
  have "\<forall>x \<in> set xs. unat (r_end x) \<le> unat (r_start r)" using assms(1) by (simp add: packed_simps)
  then have xs: "x \<in> cover xs \<Longrightarrow> x < unat (r_start r)" for x by (fastforce simp: cover_def addrs_def)
  show "{s ..< s + m} \<subseteq> cover (xs @ r # ys)" using assms(2,3) by (auto simp: addrs_def)
  show "cover (xs @ r # ys) - {s ..< s + m} = cover xs \<union> {unat (r_start r) ..< s} \<union> {s + m ..< unat (r_end r)} \<union> cover ys"
    using assms(2,3) by (fastforce simp: addrs_def dest: xs ys)
qed

definition rs_placed :: "nat \<Rightarrow> nat \<Rightarrow> nat set \<Rightarrow> boot_state option \<Rightarrow> bool" where
  "rs_placed E n free out \<longleftrightarrow> (\<exists>b' start. out = Some b' \<and> {start ..< start + rs_size E n} \<subseteq> free \<and>
     cover (freemem b') = free - {start ..< start + rs_size E n} \<and>
     tiles start (root_objects E (rootserver b')) (start + rs_size E n) \<and> root_aligned E (rootserver b'))"

lemma mem_init_step_fits:
  assumes fits: "block_fits E n r" and E: "extra_ok E" and n: "arch_get_n_paging it = of_nat n" "n \<le> 2 ^ 20"
    and nz: "rs_extra_bi (rootserver b) = 0" and fm: "freemem b = pre @ r # region_empty # post @ vac"
    and vac: "cover vac = {}" and pk: "packed (pre @ r # post)" and win: "in_window r"
  shows "rs_placed E n (cover (pre @ r # post)) (mem_init_loop (Suc (length pre)) it (of_nat E) b)"
proof -
  note sz = rs_size_bound [OF E n(2)] and fd = block_fitsD [OF fits E n(2)]
  define st where "st = block_start E n r"
  have fit: "unat st + rs_size E n < 2 ^ 64" using fd(2) unsigned_less [of "r_end r", where ?'a = nat] by (simp add: st_def)
  have st0: "st \<noteq> 0"
  proof
    assume "st = 0"
    with fd(1) have "unat (r_start r) = 0" by (simp add: st_def)
    then have "r_start r = 0" by (simp only: unat_eq_zero)
    with win show False by (simp add: in_window_def PPTR_BASE_OFFSET_def)
  qed
  obtain b1 where b1: "create_rootserver_objects st it (of_nat E) b = Some b1" "freemem b1 = freemem b"
    using create_rootserver_objects_ok [OF E n(1) fit fd(3) [folded st_def] st0 nz] by simp
  have ob: "tiles (unat st) (root_objects E (rootserver b1)) (unat st + rs_size E n)" "root_aligned E (rootserver b1)"
    using rootserver_objects_tile [OF b1(1) E n(1) fit fd(3) [folded st_def] st0 nz] by auto
  let ?rest = "\<lparr> r_start = st + of_nat (rs_size E n), r_end = r_end r \<rparr>"
  define b2 where "b2 = b1\<lparr>freemem := pre @ r\<lparr>r_end := st\<rparr> # ?rest # post @ vac\<rparr>"
  have e: "is_empty region_empty" by (simp add: is_empty_def region_empty_def)
  have "mem_init_loop (Suc (length pre)) it (of_nat E) b = Some b2"
    using fits b1(1)
    by (simp add: calculate_rootserver_size_eq [OF E n(1)] rootserver_max_size_bits_eq [OF E] Let_def fm e nth_append
      block_fits_def block_start_def [symmetric] st_def [symmetric] b1(2) b2_def list_update_append)
  moreover have "cover (freemem b2) = cover (pre @ r # post) - {unat st ..< unat st + rs_size E n}"
    using cover_remove(2) [OF pk fd(1,2)] unat_off [OF fit order_refl] vac by (auto simp: b2_def addrs_def st_def)
  moreover have "{unat st ..< unat st + rs_size E n} \<subseteq> cover (pre @ r # post)" using cover_remove(1) [OF pk fd(1,2)] by (simp add: st_def)
  ultimately show ?thesis using ob unfolding rs_placed_def
    by (intro exI [of _ b2] exI [of _ "unat st"]) (simp add: b2_def)
qed

lemma mem_init_loop_ok:
  assumes "\<exists>r \<in> set pre. block_fits E n r" "extra_ok E" "arch_get_n_paging it = of_nat n" "n \<le> 2 ^ 20"
    "rs_extra_bi (rootserver b) = 0" "freemem b = pre @ region_empty # post @ vac" "cover vac = {}" "packed (pre @ post)" "\<forall>r \<in> set pre. in_window r"
  shows "rs_placed E n (cover (pre @ post)) (mem_init_loop (length pre) it (of_nat E) b)"
  using assms
proof (induction pre arbitrary: post b rule: rev_induct)
  case (snoc r pre)
  note E = snoc.prems(2) and n = snoc.prems(3,4)
  have fm: "freemem b = pre @ r # region_empty # post @ vac" using snoc.prems(6) by simp
  show ?case
  proof (cases "block_fits E n r")
    case True
    then show ?thesis using mem_init_step_fits [OF True E n snoc.prems(5) fm snoc.prems(7)] snoc.prems(8,9) by simp
  next
    case False
    let ?b = "b\<lparr>freemem := pre @ region_empty # r # post @ vac\<rparr>"
    have e: "is_empty region_empty" by (simp add: is_empty_def region_empty_def)
    have "mem_init_loop (length (pre @ [r])) it (of_nat E) b = mem_init_loop (length pre) it (of_nat E) ?b"
      using False unfolding block_fits_def
      by (auto simp: calculate_rootserver_size_eq [OF E n(1)] rootserver_max_size_bits_eq [OF E] Let_def fm e
        nth_append block_start_def [symmetric] list_update_append)
    moreover have "rs_placed E n (cover (pre @ r # post)) (mem_init_loop (length pre) it (of_nat E) ?b)"
      using snoc.prems False by (intro snoc.IH) auto
    ultimately show ?thesis by simp
  qed
qed simp

lemma skip_empty_tail: "\<forall>r \<in> set regs. \<not> is_empty r \<Longrightarrow> skip_empty (length regs + k) (regs @ replicate k region_empty) = length regs"
proof (induction k)
  case 0
  then show ?case by (cases regs rule: rev_cases) (simp_all add: nth_append)
next
  case (Suc k)
  have fm: "regs @ replicate (Suc k) region_empty = (regs @ replicate k region_empty) @ [region_empty]"
    by (simp add: replicate_append_same)
  have take_eq: "skip_empty m (xs @ [region_empty]) = skip_empty m xs" if "m \<le> length xs" for m xs
    using that by (induction m) (simp_all add: nth_append)
  have "is_empty region_empty" by (simp add: is_empty_def region_empty_def)
  then show ?case using Suc take_eq [of "length regs + k" "regs @ replicate k region_empty"]
    unfolding fm by (simp add: nth_append)
qed

text \<open>
  C40: The memory for the objects of the initial thread is taken from the free memory without loss or overlap:
  when some free region is large enough, the allocation of the root server does not fail any of its
  assertions, the objects (root CNode, address space root, ASID pool, IPC buffer, boot information, page tables,
  thread) are aligned to their sizes and fill a block of free memory without gaps, and afterwards exactly this
  block is missing from the free memory.
\<close>

theorem root_server_mem_init_correct:
  assumes "fm_ok regs b" "length regs < MAX_NUM_FREEMEM_REG" "packed regs" "\<forall>r \<in> set regs. in_window r" "extra_ok E"
    "arch_get_n_paging it = of_nat n" "n \<le> 2 ^ 20" "rs_extra_bi (rootserver b) = 0"
    "\<exists>r \<in> set regs. unat (r_start r) + rs_size E n + 2 ^ rs_max E \<le> unat (r_end r)"
  shows "\<exists>b' start. root_server_mem_init it (of_nat E) b = Some b' \<and>
    {start ..< start + rs_size E n} \<subseteq> cover regs \<and>
    cover (freemem b') = cover regs - {start ..< start + rs_size E n} \<and>
    tiles start (root_objects E (rootserver b')) (start + rs_size E n) \<and> root_aligned E (rootserver b')"
proof -
  let ?k = "MAX_NUM_FREEMEM_REG - length regs"
  have fm: "freemem b = regs @ replicate ?k region_empty" "\<forall>r \<in> set regs. \<not> is_empty r" using assms(1) by (simp_all add: fm_ok_def)
  have k: "?k = Suc (?k - 1)" using assms(2) by simp
  have post: "freemem b = regs @ region_empty # replicate (?k - 1) region_empty" using fm(1) k by (metis replicate_Suc)
  have skip: "skip_empty (length (freemem b)) (freemem b) = length regs"
    using skip_empty_tail [OF fm(2), of ?k] assms(2) by (simp add: fm(1))
  have "cover (replicate m region_empty) = {}" for m by (induction m) (simp_all add: addrs_def region_empty_def)
  moreover have "\<exists>r \<in> set regs. block_fits E n r" using assms(9) block_fitsI [OF _ assms(5,7)] by blast
  ultimately have "rs_placed E n (cover (regs @ [])) (mem_init_loop (length regs) it (of_nat E) b)"
    using assms(3-8) post by (intro mem_init_loop_ok [where vac = "replicate (?k - 1) region_empty"]) simp_all
  then have "rs_placed E n (cover regs) (mem_init_loop (length regs) it (of_nat E) b)" by simp
  then show ?thesis unfolding rs_placed_def root_server_mem_init_def skip .
qed

definition sample_it :: region where
  "sample_it = \<lparr> r_start = 0x400000, r_end = 0x5ff000 \<rparr>"

definition sample_free :: region where
  "sample_free = \<lparr> r_start = 0xffffff8048000000, r_end = 0xffffff8050000000 \<rparr>"

definition sample_mem :: boot_state where
  "sample_mem = (ndks_boot_init empty_kstate)\<lparr>freemem := sample_free # replicate 15 region_empty\<rparr>"

theorem root_server_mem_init_correct_witness:
  "\<exists>b' start. root_server_mem_init sample_it (of_nat 13) sample_mem = Some b' \<and>
    {start ..< start + rs_size 13 3} \<subseteq> cover [sample_free] \<and>
    cover (freemem b') = cover [sample_free] - {start ..< start + rs_size 13 3} \<and>
    tiles start (root_objects 13 (rootserver b')) (start + rs_size 13 3) \<and> root_aligned 13 (rootserver b')"
proof (rule root_server_mem_init_correct)
  show "arch_get_n_paging sample_it = of_nat 3" by code_simp
  show "fm_ok [sample_free] sample_mem" by (simp add: fm_ok_def sample_mem_def sample_free_def is_empty_def boot_consts)
qed (simp_all add: boot_consts packed_def in_window_def sample_free_def PPTR_BASE_OFFSET_def extra_ok_def sample_mem_def
  ndks_boot_init_def rs_size_def rs_max_def)

end
