(* ===== verification/Spec2Isabelle.thy ===== *)
theory Spec2Isabelle
  imports Prelude Capability CSpace CSpaceLookup KState VSpace TcbQueue Scheduler SchedulerInv SchedulerProps Syscall
    IpcProps RetypeProps Fastpath Traps Bitfield SmpLock BootMem RootServer
begin

text \<open>
  Verification of the reL4 kernel, a Rust implementation of the seL4 microkernel.

  \<^bold>\<open>The program.\<close>  A user thread enters the kernel through an exception vector (\<^verbatim>\<open>kernel/src/arch/aarch64\<close>),
  which saves its registers and calls the handler of a system call, a fault or an interrupt
  (\<^verbatim>\<open>kernel/src/syscall\<close>, \<^verbatim>\<open>kernel/src/interrupt\<close>).  A system call looks up a capability in the capability space of the
  thread (\<^verbatim>\<open>sel4_cspace\<close>), decodes the message into an invocation of the object behind it
  (\<^verbatim>\<open>kernel/src/syscall/invocation\<close>), and so transfers messages (\<^verbatim>\<open>sel4_ipc\<close>), changes threads and their scheduling
  (\<^verbatim>\<open>sel4_task\<close>), maps memory (\<^verbatim>\<open>sel4_vspace\<close>), retypes untyped memory or deletes capabilities.  The scheduler then
  picks the thread that the exit path returns to.  At boot (\<^verbatim>\<open>kernel/src/boot\<close>) the kernel divides the memory and
  creates the first thread with the capabilities to the rest.

  \<^bold>\<open>The configuration.\<close>  The model is of the kernel for aarch64 on the platform qemu-arm-virt: one processor, no
  feature \<^verbatim>\<open>kernel_mcs\<close>, \<^verbatim>\<open>hypervisor\<close>, \<^verbatim>\<open>have_fpu\<close> or \<^verbatim>\<open>enable_smc\<close>.  The lock of the multi-core kernel is modelled
  on its own.

  \<^bold>\<open>Conventions.\<close>  \<^verbatim>\<open>usize\<close> and \<^verbatim>\<open>u64\<close> are 64-bit words whose arithmetic wraps, as in a release build; fields of kernel
  objects keep their width.  A function that can panic or has undefined behaviour on some input returns an option,
  with \<^term>\<open>None\<close> for these inputs.  Kernel memory is a record of typed heaps (\<^typ>\<open>kstate\<close> in \<open>KState\<close>): capability
  slots, threads, endpoints, notifications, IPC buffers, page table entries and ASID pools by address, with the global
  variables of the kernel beside them.  Operations take the state and return it.  What the hardware returns (pending
  interrupts, fault addresses, the linker's and platform's regions) is an argument.  Definitions carry the names of
  the functions and types they translate.

  \<^bold>\<open>Theories and what they show.\<close>

  \<^item> \<open>Prelude\<close>: words, alignment, assertions and indexing that can fail, and doubly linked lists in a heap.  The locale
    \<open>link_heap\<close> is the interface of such a heap; it is interpreted on the links of the mapping database (\<open>CSpace\<close>) and
    on both pairs of links of a thread (\<open>TcbQueue\<close>).
  \<^item> \<open>Capability\<close> (\<^verbatim>\<open>sel4_cspace/src/capability\<close>, \<^verbatim>\<open>arch/aarch64/mod.rs\<close>): masking of rights adds no authority, new data
    keeps the field invariant, zombies round-trip, and equality of objects is decided.
  \<^item> \<open>CSpace\<close> (\<^verbatim>\<open>sel4_cspace/src/cte.rs\<close>): the slots form disjoint chains, and each operation is an edit of these chains.
    Swapping neighbours breaks them.  \<open>CSpaceLookup\<close>: \<^verbatim>\<open>resolve_address_bits\<close> refines a resolution on lists of bits.
  \<^item> \<open>KState\<close>: the objects and registers.  \<open>VSpace\<close> (\<^verbatim>\<open>sel4_vspace/src/arch/aarch64\<close>): ASID tables, table walk,
    unmapping.
  \<^item> \<open>TcbQueue\<close>, \<open>Scheduler\<close>, \<open>SchedulerInv\<close>, \<open>SchedulerProps\<close> (\<^verbatim>\<open>sel4_task/src\<close>): the queues of threads are first in,
    first out (locale \<open>thread_queue\<close>, interpreted on both kinds); the ready queues and their bitmaps refine one list of
    threads for each priority; the scheduler picks a highest one; threads of equal priority take turns.
  \<^item> \<open>Message\<close>, \<open>Notification\<close>, \<open>IpcTransfer\<close> (\<^verbatim>\<open>sel4_task/src/tcb.rs\<close>, \<^verbatim>\<open>sel4_ipc/src\<close>) with \<open>IpcProps\<close>: cancellation
    wakes each waiting thread once, signals accumulate, messages arrive unchanged, and two ways to panic the kernel.
  \<^item> \<open>Finalise\<close> (\<^verbatim>\<open>kernel/src/interfaces_impl/cspace.rs\<close>, deletion in \<^verbatim>\<open>cte.rs\<close>): finalisation, deletion and revocation.
  \<^item> \<open>Decode\<close>, \<open>CNodeInv\<close>, \<open>Untyped\<close>, \<open>TcbInv\<close>, \<open>IrqInv\<close>, \<open>MmuInv\<close> (\<^verbatim>\<open>kernel/src/syscall/invocation\<close>): the decoders with
    every error they return, and the invocations.  \<open>RetypeProps\<close>: retyped objects are aligned, disjoint and inside
    their untyped region; a reset clears the memory that was used.
  \<^item> \<open>Syscall\<close> (\<^verbatim>\<open>kernel/src/syscall\<close>): dispatch of system calls, faults and replies.  \<open>Fastpath\<close>
    (\<^verbatim>\<open>kernel/src/kernel/fastpath.rs\<close>): its lookup agrees with the slow one, and on aarch64 it is never taken.
  \<^item> \<open>Traps\<close> (\<^verbatim>\<open>traps.S\<close>, \<^verbatim>\<open>c_traps.rs\<close>): kernel entry and exit restore the registers of the thread.
  \<^item> \<open>Bitfield\<close> (\<^verbatim>\<open>sel4_common/src/sel4_bitfield_types.rs\<close>): fields round-trip, also across words.
  \<^item> \<open>SmpLock\<close> (\<^verbatim>\<open>kernel/src/smp/lock.rs\<close>): a step relation for any number of processors; mutual exclusion and absence of
    stuck states in every reachable state.
  \<^item> \<open>BootMem\<close> (\<^verbatim>\<open>kernel/src/boot/mm.rs\<close>, \<^verbatim>\<open>untyped.rs\<close>): the lists of reserved and free memory and the untyped capabilities
    denote exactly the sets of addresses they should.  \<open>RootServer\<close> (\<^verbatim>\<open>root_server.rs\<close>, \<^verbatim>\<open>sel4_vspace/src/arch/aarch64/boot.rs\<close>,
    \<^verbatim>\<open>arch/aarch64/boot.rs\<close>): the objects of the first thread fill a block taken from free memory; the steps that create
    the first thread and the order of the boot.

  \<^bold>\<open>Loops.\<close>  Loops with a bound are structural recursions or have a measure.  Loops over linked data or with a bound that
  depends on the state are partial functions into option; theorems about them prove that they return.  Deletion and
  revocation (\<open>Finalise\<close>) call each other and can be preempted: they take fuel, and no theorem claims a bound for it.
  Turns of threads are counted in timer ticks of a loop of tick, schedule and activation.

  \<^bold>\<open>Not modelled.\<close>  The variants for \<^verbatim>\<open>kernel_mcs\<close> (scheduling contexts, replies), for several processors (inter-processor
  interrupts, secondary cores) and for riscv64 are not part of the configuration.  The floating point unit, virtual
  processors and SMC calls are optional features it does not have.  Drivers for the interrupt controller, timer and
  serial port, cache and TLB maintenance and system registers other than the translation root are accesses to hardware
  without state in the model.  The mapping of the kernel window is filled before any kernel object exists.  Logging,
  exported C names, tests, the configuration generator and the build are not kernel behaviour.
\<close>

end
